(* ===== verification/Prelude.thy ===== *)
theory Prelude
  imports Complex_Main "HOL-Library.Word" "HOL-Library.Char_ord" "HOL-Library.List_Lexorder"
begin

text \<open>
  Shared ground of the development: the collections its lemmas are declared into, the
  relational operations every table of the platform is accessed with, and the list
  operations of Python the planner uses (first occurrences, slicing into chunks).

  A table is the list of its rows. SELECT is \<open>filter\<close>, ORDER BY is \<open>sort_key\<close>, UPDATE is
  \<open>upd_where\<close>, INSERT with ON CONFLICT DO NOTHING is \<open>ins_ignore\<close>, whose RETURNING
  clause is \<open>ins_fresh\<close>.
\<close>

named_theorems row_simps "selecting from, updating and inserting into a table"
named_theorems frame_simps "what an operation leaves unchanged"
named_theorems wf_intros "operations that keep a well-formedness invariant"

text \<open>A UUID is a 128-bit number; Python and PostgreSQL both order it as one.\<close>

type_synonym uuid = "128 word"

text \<open>Instants are microseconds since the epoch.\<close>

type_synonym time = int

section \<open>Relational operations\<close>

definition upd_where :: "('r \<Rightarrow> bool) \<Rightarrow> ('r \<Rightarrow> 'r) \<Rightarrow> 'r list \<Rightarrow> 'r list" where
  "upd_where p f rows = map (\<lambda>r. if p r then f r else r) rows"

fun ins_fresh :: "('r \<Rightarrow> 'k) \<Rightarrow> 'k list \<Rightarrow> 'r list \<Rightarrow> 'r list" where
  "ins_fresh key seen [] = []"
| "ins_fresh key seen (x # xs) =
     (if key x \<in> set seen then ins_fresh key seen xs
      else x # ins_fresh key (key x # seen) xs)"

definition ins_ignore :: "('r \<Rightarrow> 'k) \<Rightarrow> 'r list \<Rightarrow> 'r list \<Rightarrow> 'r list" where
  "ins_ignore key rows new = rows @ ins_fresh key (map key rows) new"

lemma upd_where_Nil [simp]: "upd_where p f [] = []"
  by (simp add: upd_where_def)

lemma upd_where_Cons [simp]:
  "upd_where p f (r # rs) = (if p r then f r else r) # upd_where p f rs"
  by (simp add: upd_where_def)

lemma length_upd_where [simp]: "length (upd_where p f rows) = length rows"
  by (simp add: upd_where_def)

lemma upd_where_none [row_simps]: "(\<And>r. r \<in> set rows \<Longrightarrow> \<not> p r) \<Longrightarrow> upd_where p f rows = rows"
  by (induction rows) auto

lemma set_upd_where: "set (upd_where p f rows) = (\<lambda>r. if p r then f r else r) ` set rows"
  by (simp add: upd_where_def)

lemma map_upd_where [row_simps]:
  "(\<And>r. r \<in> set rows \<Longrightarrow> p r \<Longrightarrow> g (f r) = g r) \<Longrightarrow> map g (upd_where p f rows) = map g rows"
  by (induction rows) auto

lemma filter_upd_where [row_simps]:
  "(\<And>r. r \<in> set rows \<Longrightarrow> p r \<Longrightarrow> q (f r) = q r)
   \<Longrightarrow> filter q (upd_where p f rows) = upd_where p f (filter q rows)"
  by (induction rows) auto

lemma ins_fresh_subset: "set (ins_fresh key seen xs) \<subseteq> set xs"
  by (induction xs arbitrary: seen) auto

lemma ins_fresh_notin: "key ` set (ins_fresh key seen xs) \<inter> set seen = {}"
  by (induction xs arbitrary: seen) (fastforce split: if_splits)+

lemma ins_fresh_keys: "key ` set (ins_fresh key seen xs) = key ` set xs - set seen"
proof (induction xs arbitrary: seen)
  case Nil
  then show ?case by simp
next
  case (Cons x xs)
  then show ?case by (cases "key x \<in> set seen") auto
qed

lemma ins_fresh_distinct: "distinct (map key (ins_fresh key seen xs))"
proof (induction xs arbitrary: seen)
  case Nil
  then show ?case by simp
next
  case (Cons x xs)
  have "key x \<notin> key ` set (ins_fresh key (key x # seen) xs)"
    using ins_fresh_keys [of key "key x # seen" xs] by auto
  with Cons show ?case by simp
qed

lemma ins_fresh_all_new:
  "distinct (map key xs) \<Longrightarrow> key ` set xs \<inter> set seen = {} \<Longrightarrow> ins_fresh key seen xs = xs"
  by (induction xs arbitrary: seen) auto

lemma ins_fresh_none: "key ` set xs \<subseteq> set seen \<Longrightarrow> ins_fresh key seen xs = []"
  by (induction xs arbitrary: seen) auto

lemma ins_fresh_cong: "set seen = set seen' \<Longrightarrow> ins_fresh key seen xs = ins_fresh key seen' xs"
proof (induction xs arbitrary: seen seen')
  case Nil
  then show ?case by simp
next
  case (Cons x xs)
  have "ins_fresh key seen xs = ins_fresh key seen' xs"
    and "ins_fresh key (key x # seen) xs = ins_fresh key (key x # seen') xs"
    using Cons.prems by (auto intro!: Cons.IH)
  with Cons.prems show ?case by simp
qed

lemma ins_fresh_filter_distinct:
  "distinct (map key xs) \<Longrightarrow> ins_fresh key seen xs = filter (\<lambda>x. key x \<notin> set seen) xs"
proof (induction xs arbitrary: seen)
  case Nil
  then show ?case by simp
next
  case (Cons x xs)
  then have "filter (\<lambda>y. key y \<noteq> key x \<and> key y \<notin> set seen) xs = filter (\<lambda>y. key y \<notin> set seen) xs"
    by (intro filter_cong) (auto simp: rev_image_eqI)
  with Cons show ?case by auto
qed

lemma ins_ignore_keys [row_simps]: "key ` set (ins_ignore key rows new) = key ` set rows \<union> key ` set new"
  by (auto simp: ins_ignore_def image_Un ins_fresh_keys)

lemma ins_ignore_distinct [wf_intros]:
  "distinct (map key rows) \<Longrightarrow> distinct (map key (ins_ignore key rows new))"
  using ins_fresh_notin [of key "map key rows" new]
  by (auto simp: ins_ignore_def ins_fresh_distinct)

lemma ins_ignore_idem [row_simps]: "ins_ignore key (ins_ignore key rows new) new = ins_ignore key rows new"
proof -
  have "key ` set new \<subseteq> set (map key (ins_ignore key rows new))"
    using ins_ignore_keys [of key rows new] by auto
  then have "ins_fresh key (map key (ins_ignore key rows new)) new = []"
    by (rule ins_fresh_none)
  then show ?thesis
    by (simp add: ins_ignore_def [of key "ins_ignore key rows new"])
qed

lemma ins_fresh_append:
  "ins_fresh key seen (xs @ ys) = ins_fresh key seen xs @ ins_fresh key (map key xs @ seen) ys"
proof (induction xs arbitrary: seen)
  case (Cons x xs)
  have "ins_fresh key (map key xs @ key x # seen) ys = ins_fresh key (key x # map key xs @ seen) ys"
    by (rule ins_fresh_cong) simp
  moreover have "key x \<in> set seen \<Longrightarrow>
      ins_fresh key (map key xs @ seen) ys = ins_fresh key (key x # map key xs @ seen) ys"
    by (rule ins_fresh_cong) auto
  ultimately show ?case using Cons by auto
qed simp

lemma distinct_map_ins_fresh: "distinct (map f xs) \<Longrightarrow> distinct (map f (ins_fresh key seen xs))"
proof (induction xs arbitrary: seen)
  case (Cons x xs)
  then show ?case
    using ins_fresh_subset [of key "key x # seen" xs] by auto
qed simp

lemma ins_ignore_append: "ins_ignore key (ins_ignore key rows xs) ys = ins_ignore key rows (xs @ ys)"
proof -
  have "set (map key (ins_ignore key rows xs)) = set (map key xs @ map key rows)"
    using ins_ignore_keys [of key rows xs] by auto
  from ins_fresh_cong [OF this, of key ys] show ?thesis
    by (simp add: ins_ignore_def ins_fresh_append)
qed

lemma ins_ignore_present: "key ` set new \<subseteq> key ` set rows \<Longrightarrow> ins_ignore key rows new = rows"
  by (simp add: ins_ignore_def ins_fresh_none)

lemma ins_ignore_fresh:
  "distinct (map key new) \<Longrightarrow> key ` set new \<inter> key ` set rows = {} \<Longrightarrow> ins_ignore key rows new = rows @ new"
  by (simp add: ins_ignore_def ins_fresh_all_new)

lemma ins_ignore_Nil [simp]: "ins_ignore key rows [] = rows"
  by (simp add: ins_ignore_def)

lemma set_ins_ignoreD: "r \<in> set (ins_ignore key rows new) \<Longrightarrow> r \<in> set rows \<or> r \<in> set new"
  using ins_fresh_subset by (fastforce simp: ins_ignore_def)

text \<open>
  The contract of an UPDATE that leaves the primary key alone: rows keep their identity,
  and a row is found again under the same key, changed exactly when it matched.
\<close>

locale keyed_update =
  fixes key :: "'r \<Rightarrow> 'k" and f :: "'r \<Rightarrow> 'r"
  assumes key_kept: "key (f r) = key r"
begin

lemma keys_kept: "map key (upd_where p f rows) = map key rows"
  by (rule map_upd_where) (rule key_kept)

lemma find_updated:
  "find (\<lambda>r. key r = k) (upd_where (\<lambda>r. key r = k) f rows) =
   map_option f (find (\<lambda>r. key r = k) rows)"
  by (induction rows) (auto simp: key_kept)

lemma find_guarded:
  "find (\<lambda>r. key r = k) (upd_where (\<lambda>r. key r = k \<and> g r) f rows) =
   map_option (\<lambda>r. if g r then f r else r) (find (\<lambda>r. key r = k) rows)"
  by (induction rows) (auto simp: key_kept)

lemma find_other:
  "k' \<noteq> k \<Longrightarrow> find (\<lambda>r. key r = k') (upd_where (\<lambda>r. key r = k \<and> g r) f rows) =
   find (\<lambda>r. key r = k') rows"
  by (induction rows) (auto simp: key_kept)

end

lemma find_append_None: "find p xs = None \<Longrightarrow> find p (xs @ ys) = find p ys"
  by (induction xs) (auto split: if_splits)

lemma find_Some_mem: "find p xs = Some x \<Longrightarrow> x \<in> set xs \<and> p x"
  by (induction xs) (auto split: if_splits)

lemma find_unique:
  "distinct (map key rows) \<Longrightarrow> r \<in> set rows \<Longrightarrow> find (\<lambda>x. key x = key r) rows = Some r"
  by (induction rows) (auto simp: rev_image_eqI)

lemma find_None_iff_key: "find (\<lambda>x. key x = k) rows = None \<longleftrightarrow> k \<notin> key ` set rows"
  by (induction rows) auto

section \<open>List operations of Python\<close>

text \<open>\<open>list(dict.fromkeys(xs))\<close>: first occurrences, in order.\<close>

definition fromkeys :: "'a list \<Rightarrow> 'a list" where
  "fromkeys xs = ins_fresh (\<lambda>x. x) [] xs"

lemma set_fromkeys [simp]: "set (fromkeys xs) = set xs"
  using ins_fresh_keys [of "\<lambda>x. x" "[]" xs] by (simp add: fromkeys_def)

lemma distinct_fromkeys [simp]: "distinct (fromkeys xs)"
  using ins_fresh_distinct [of "\<lambda>x. x" "[]" xs] by (simp add: fromkeys_def)

text \<open>\<open>[xs[i : i + n] for i in range(0, len(xs), n)]\<close> for a positive step.\<close>

fun chunks :: "nat \<Rightarrow> 'a list \<Rightarrow> 'a list list" where
  "chunks n xs = (if n = 0 \<or> xs = [] then [] else take n xs # chunks n (drop n xs))"

declare chunks.simps [simp del]

lemma concat_chunks: "0 < n \<Longrightarrow> concat (chunks n xs) = xs"
proof (induction n xs rule: chunks.induct)
  case (1 n xs)
  then show ?case
    by (cases "xs = []") (simp_all add: chunks.simps [of n xs] chunks.simps [of n "[]"])
qed

lemma chunks_length: "c \<in> set (chunks n xs) \<Longrightarrow> 0 < length c \<and> length c \<le> n"
proof (induction n xs rule: chunks.induct)
  case (1 n xs)
  then show ?case
    by (cases "n = 0 \<or> xs = []") (auto simp: chunks.simps [of n xs])
qed

lemma chunks_nonempty: "c \<in> set (chunks n xs) \<Longrightarrow> c \<noteq> []"
  using chunks_length by fastforce

text \<open>Sums over a table in which one row changes.\<close>

lemma sum_list_upd_where_key:
  fixes g :: "'r \<Rightarrow> nat"
  assumes "distinct (map key rows)" and "r \<in> set rows" and "key r = k"
  shows "sum_list (map g (upd_where (\<lambda>x. key x = k) f rows)) + g r = sum_list (map g rows) + g (f r)"
  using assms
proof (induction rows)
  case Nil
  then show ?case by simp
next
  case (Cons x xs)
  show ?case
  proof (cases "x = r")
    case True
    with Cons.prems have "k \<notin> key ` set xs" by auto
    then have "upd_where (\<lambda>y. key y = k) f xs = xs" by (intro upd_where_none) auto
    with True Cons.prems show ?thesis by simp
  next
    case False
    with Cons.prems have "r \<in> set xs" and "key x \<noteq> k" by auto
    with Cons show ?thesis by simp
  qed
qed

end
