(* ===== verification/PyValue.thy ===== *)
theory PyValue
  imports Prelude
begin

text \<open>
  The values the platform moves around: JSON payloads, the parameters of SQL statements and
  the columns of CRM rows are all Python objects. Strings are lists of code points below 256
  (\<open>char\<close>); within that range \<open>str.strip\<close>, \<open>str.lower\<close>, \<open>str\<close> and \<open>repr\<close> are modelled as
  Python defines them. JSON numbers are integers.
\<close>

datatype pyval =
    PNone
  | PBool bool
  | PInt int
  | PStr string
  | PTime time
  | PUuid uuid
  | PList "pyval list"
  | PDict "(string \<times> pyval) list"

text \<open>A Python dict with string keys, in insertion order.\<close>

type_synonym pydict = "(string \<times> pyval) list"

section \<open>Strings\<close>

definition code :: "char \<Rightarrow> nat" where
  "code c = of_char c"

definition is_space :: "char \<Rightarrow> bool" where
  "is_space c \<longleftrightarrow> (let n = code c in 9 \<le> n \<and> n \<le> 13 \<or> 28 \<le> n \<and> n \<le> 32 \<or> n = 133 \<or> n = 160)"

definition py_strip :: "string \<Rightarrow> string" where
  "py_strip s = rev (dropWhile is_space (rev (dropWhile is_space s)))"

definition lower_char :: "char \<Rightarrow> char" where
  "lower_char c = (let n = code c in
     if 65 \<le> n \<and> n \<le> 90 \<or> 192 \<le> n \<and> n \<le> 222 \<and> n \<noteq> 215 then char_of (n + 32) else c)"

definition py_lower :: "string \<Rightarrow> string" where
  "py_lower s = map lower_char s"

lemma code_bound: "code c < 256"
  by (simp add: code_def)

lemma code_char_of [simp]: "code (char_of n) = n mod 256"
  by (simp add: code_def)

lemma lower_char_idem [simp]: "lower_char (lower_char c) = lower_char c"
  using code_bound [of c] by (auto simp: lower_char_def Let_def)

lemma is_space_lower [simp]: "is_space (lower_char c) = is_space c"
  using code_bound [of c] by (auto simp: lower_char_def is_space_def Let_def)

lemma py_lower_idem [simp]: "py_lower (py_lower s) = py_lower s"
  by (simp add: py_lower_def)

lemma dropWhile_space_lower: "dropWhile is_space (map lower_char s) = map lower_char (dropWhile is_space s)"
  by (induction s) auto

lemma py_strip_lower: "py_strip (py_lower s) = py_lower (py_strip s)"
  by (simp add: py_strip_def py_lower_def dropWhile_space_lower rev_map)

lemma dropWhile_last_keep:
  "xs \<noteq> [] \<Longrightarrow> \<not> p (last xs) \<Longrightarrow> dropWhile p xs \<noteq> [] \<and> last (dropWhile p xs) = last xs"
  by (induction xs) auto

lemma py_strip_idem [simp]: "py_strip (py_strip s) = py_strip s"
proof -
  let ?a = "dropWhile is_space s" and ?b = "dropWhile is_space (rev (dropWhile is_space s))"
  have b: "dropWhile is_space (rev ?b) = rev ?b"
  proof (cases "?b = []")
    case True
    then show ?thesis by (simp only: True) simp
  next
    case False
    then have "last ?b = last (rev ?a)"
      by (metis dropWhile_eq_drop last_drop not_less drop_all)
    moreover have "?a \<noteq> []" using False by (metis dropWhile.simps(1) rev.simps(1))
    ultimately have "\<not> is_space (hd (rev ?b))"
      using False by (metis hd_dropWhile hd_rev last_rev)
    with False show ?thesis by (simp add: dropWhile_eq_self_iff)
  qed
  have "dropWhile is_space ?b = ?b" by simp
  with b show ?thesis by (simp add: py_strip_def)
qed

text \<open>Decimal digits of an integer, as \<open>str\<close> prints it.\<close>

definition digit_char :: "nat \<Rightarrow> char" where
  "digit_char d = char_of (48 + d)"

fun nat_str :: "nat \<Rightarrow> string" where
  "nat_str n = (if n < 10 then [digit_char n] else nat_str (n div 10) @ [digit_char (n mod 10)])"

declare nat_str.simps [simp del]

definition int_str :: "int \<Rightarrow> string" where
  "int_str i = (if i < 0 then CHR ''-'' # nat_str (nat (- i)) else nat_str (nat i))"

text \<open>\<open>str(uuid)\<close>: 32 lower-case hexadecimal digits, grouped 8-4-4-4-12.\<close>

definition hex_char :: "nat \<Rightarrow> char" where
  "hex_char d = char_of (if d < 10 then 48 + d else 87 + d)"

definition uuid_digits :: "uuid \<Rightarrow> nat list" where
  "uuid_digits u = map (\<lambda>i. unat u div 16 ^ i mod 16) (rev [0..<32])"

definition uuid_str :: "uuid \<Rightarrow> string" where
  "uuid_str u = (let h = map hex_char (uuid_digits u) in
     take 8 h @ ''-'' @ take 4 (drop 8 h) @ ''-'' @ take 4 (drop 12 h) @ ''-'' @
     take 4 (drop 16 h) @ ''-'' @ drop 20 h)"

lemma hex_char_inj: "d < 16 \<Longrightarrow> e < 16 \<Longrightarrow> hex_char d = hex_char e \<Longrightarrow> d = e"
proof -
  assume d: "d < 16" and e: "e < 16" and eq: "hex_char d = hex_char e"
  from eq have "code (hex_char d) = code (hex_char e)" by simp
  with d e show ?thesis by (auto simp: hex_char_def split: if_splits)
qed

lemma digits_determine:
  "n < 16 ^ k \<Longrightarrow> m < 16 ^ k \<Longrightarrow> (\<And>i. i < k \<Longrightarrow> n div 16 ^ i mod 16 = m div 16 ^ i mod 16) \<Longrightarrow> n = (m::nat)"
proof (induction k arbitrary: n m)
  case 0
  then show ?case by simp
next
  case (Suc k)
  have "n div 16 = m div 16"
  proof (rule Suc.IH)
    show "n div 16 < 16 ^ k" and "m div 16 < 16 ^ k"
      using Suc.prems(1,2) by (simp_all add: less_mult_imp_div_less mult.commute)
    show "n div 16 div 16 ^ i mod 16 = m div 16 div 16 ^ i mod 16" if "i < k" for i
      using Suc.prems(3) [of "Suc i"] that by (simp add: div_mult2_eq)
  qed
  moreover have "n mod 16 = m mod 16" using Suc.prems(3) [of 0] by simp
  ultimately show ?case by (metis div_mult_mod_eq)
qed

lemma uuid_digits_inj: "uuid_digits u = uuid_digits v \<Longrightarrow> u = v"
proof -
  assume eq: "uuid_digits u = uuid_digits v"
  have "unat u = unat v"
  proof (rule digits_determine [where k = 32])
    show "unat u < 16 ^ 32" and "unat v < 16 ^ 32"
      using unsigned_less [of u, where ?'a = nat] unsigned_less [of v, where ?'a = nat] by simp_all
    show "unat u div 16 ^ i mod 16 = unat v div 16 ^ i mod 16" if "i < 32" for i
      using eq that by (auto simp: uuid_digits_def simp del: upt_rec_numeral)
  qed
  then show ?thesis by (simp add: word_unat_eq_iff)
qed

lemma uuid_str_inj: "uuid_str u = uuid_str v \<Longrightarrow> u = v"
proof -
  let ?h = "\<lambda>u. map hex_char (uuid_digits u)"
  have len: "length (?h u) = 32" for u by (simp add: uuid_digits_def)
  assume eq: "uuid_str u = uuid_str v"
  have h: "?h u = take 8 (uuid_str u) @ take 4 (drop 9 (uuid_str u)) @ take 4 (drop 14 (uuid_str u)) @
      take 4 (drop 19 (uuid_str u)) @ drop 24 (uuid_str u)" for u
  proof -
    have "?h u = take 8 (?h u) @ take 4 (drop 8 (?h u)) @ take 4 (drop 12 (?h u)) @
       take 4 (drop 16 (?h u)) @ drop 20 (?h u)"
      using append_take_drop_id [of 8 "?h u"] append_take_drop_id [of 4 "drop 8 (?h u)"]
        append_take_drop_id [of 4 "drop 12 (?h u)"] append_take_drop_id [of 4 "drop 16 (?h u)"]
      by simp
    then show ?thesis using len [of u] by (simp add: uuid_str_def Let_def)
  qed
  have "?h u = ?h v" using h [of u] h [of v] eq by simp
  moreover have "inj_on hex_char {..<16}" by (auto intro!: inj_onI hex_char_inj)
  moreover have "set (uuid_digits u) \<subseteq> {..<16}" for u by (auto simp: uuid_digits_def)
  ultimately have "uuid_digits u = uuid_digits v" by (meson inj_on_map_eq_map inj_on_subset le_sup_iff)
  then show ?thesis by (rule uuid_digits_inj)
qed

section \<open>Equality and truth\<close>

text \<open>Python's \<open>==\<close>: numbers compare across \<open>bool\<close> and \<open>int\<close>, everything else by kind;
  dicts compare as mappings.\<close>

fun py_num :: "pyval \<Rightarrow> int option" where
  "py_num (PBool b) = Some (if b then 1 else 0)"
| "py_num (PInt i) = Some i"
| "py_num _ = None"

fun py_eq :: "pyval \<Rightarrow> pyval \<Rightarrow> bool" and py_eq_list :: "pyval list \<Rightarrow> pyval list \<Rightarrow> bool"
  and py_sub :: "(string \<times> pyval) list \<Rightarrow> (string \<times> pyval) list \<Rightarrow> bool"
  and py_has :: "string \<Rightarrow> pyval \<Rightarrow> (string \<times> pyval) list \<Rightarrow> bool"
where
  "py_eq (PList xs) (PList ys) = py_eq_list xs ys"
| "py_eq (PDict xs) (PDict ys) = (length xs = length ys \<and> py_sub xs ys)"
| "py_eq (PBool b) v = (py_num v = Some (if b then 1 else 0))"
| "py_eq (PInt i) v = (py_num v = Some i)"
| "py_eq v w = (v = w)"
| "py_eq_list [] ys = (ys = [])"
| "py_eq_list (x # xs) ys = (case ys of [] \<Rightarrow> False | y # ys' \<Rightarrow> py_eq x y \<and> py_eq_list xs ys')"
| "py_sub [] ys = True"
| "py_sub ((k, v) # xs) ys = (py_has k v ys \<and> py_sub xs ys)"
| "py_has k v [] = False"
| "py_has k v ((k', w) # ys) = (if k = k' then py_eq v w else py_has k v ys)"

fun py_truth :: "pyval \<Rightarrow> bool" where
  "py_truth PNone = False"
| "py_truth (PBool b) = b"
| "py_truth (PInt i) = (i \<noteq> 0)"
| "py_truth (PStr s) = (s \<noteq> [])"
| "py_truth (PTime _) = True"
| "py_truth (PUuid _) = True"
| "py_truth (PList xs) = (xs \<noteq> [])"
| "py_truth (PDict d) = (d \<noteq> [])"

end
