(* ===== verification/Enums.thy ===== *)
theory Enums
  imports PyValue
begin

text \<open>
  The status vocabularies of \<open>app/models/enums.py\<close>. A \<open>StrEnum\<close> member is its string:
  \<open>*_value\<close> gives the string stored in the database, \<open>*_of\<close> is the enum's constructor
  applied to a string (\<open>None\<close> where Python raises \<open>ValueError\<close>).
\<close>

datatype action_status =
    SCHEDULED
  | QUEUED
  | PLANNING
  | PROCESSING
  | COMPLETED
  | COMPLETED_WITH_ERRORS
  | FAILED
  | CANCELLED

datatype batch_status = B_PENDING | B_PROCESSING | B_COMPLETED | B_FAILED | B_CANCELLED

datatype log_status = L_SUCCESS | L_FAILED | L_SKIPPED

datatype log_reason =
    R_UPDATED
  | R_DELETED
  | R_DUPLICATE_EMAIL
  | R_DUPLICATE_KEY
  | R_VALIDATION_FAILED
  | R_ENTITY_NOT_FOUND
  | R_LEFT_TARGET_SET
  | R_NO_CHANGE
  | R_ACTION_CANCELLED
  | R_BATCH_ERROR

fun action_status_value :: "action_status \<Rightarrow> string" where
  "action_status_value SCHEDULED = ''scheduled''"
| "action_status_value QUEUED = ''queued''"
| "action_status_value PLANNING = ''planning''"
| "action_status_value PROCESSING = ''processing''"
| "action_status_value COMPLETED = ''completed''"
| "action_status_value COMPLETED_WITH_ERRORS = ''completed_with_errors''"
| "action_status_value FAILED = ''failed''"
| "action_status_value CANCELLED = ''cancelled''"

fun batch_status_value :: "batch_status \<Rightarrow> string" where
  "batch_status_value B_PENDING = ''pending''"
| "batch_status_value B_PROCESSING = ''processing''"
| "batch_status_value B_COMPLETED = ''completed''"
| "batch_status_value B_FAILED = ''failed''"
| "batch_status_value B_CANCELLED = ''cancelled''"

fun log_status_value :: "log_status \<Rightarrow> string" where
  "log_status_value L_SUCCESS = ''success''"
| "log_status_value L_FAILED = ''failed''"
| "log_status_value L_SKIPPED = ''skipped''"

fun log_reason_value :: "log_reason \<Rightarrow> string" where
  "log_reason_value R_UPDATED = ''updated''"
| "log_reason_value R_DELETED = ''deleted''"
| "log_reason_value R_DUPLICATE_EMAIL = ''duplicate_email''"
| "log_reason_value R_DUPLICATE_KEY = ''duplicate_key''"
| "log_reason_value R_VALIDATION_FAILED = ''validation_failed''"
| "log_reason_value R_ENTITY_NOT_FOUND = ''entity_not_found''"
| "log_reason_value R_LEFT_TARGET_SET = ''left_target_set''"
| "log_reason_value R_NO_CHANGE = ''no_change''"
| "log_reason_value R_ACTION_CANCELLED = ''action_cancelled''"
| "log_reason_value R_BATCH_ERROR = ''batch_error''"

text \<open>Iterating over the enum class yields its members in declaration order.\<close>

definition all_action_statuses :: "action_status list" where
  "all_action_statuses = [SCHEDULED, QUEUED, PLANNING, PROCESSING, COMPLETED,
     COMPLETED_WITH_ERRORS, FAILED, CANCELLED]"

definition action_status_of :: "string \<Rightarrow> action_status option" where
  "action_status_of s = find (\<lambda>st. action_status_value st = s) all_action_statuses"

definition terminal_statuses :: "action_status list" where
  "terminal_statuses = [COMPLETED, COMPLETED_WITH_ERRORS, FAILED, CANCELLED]"

definition is_terminal :: "action_status \<Rightarrow> bool" where
  "is_terminal s \<longleftrightarrow> s \<in> set terminal_statuses"

definition is_cancellable :: "action_status \<Rightarrow> bool" where
  "is_cancellable s \<longleftrightarrow> \<not> is_terminal s"

lemma is_terminal_simps [simp]:
  "is_terminal COMPLETED" "is_terminal COMPLETED_WITH_ERRORS" "is_terminal FAILED"
  "is_terminal CANCELLED" "\<not> is_terminal SCHEDULED" "\<not> is_terminal QUEUED"
  "\<not> is_terminal PLANNING" "\<not> is_terminal PROCESSING"
  by (simp_all add: is_terminal_def terminal_statuses_def)

lemma set_all_action_statuses: "set all_action_statuses = UNIV"
proof -
  have "s \<in> set all_action_statuses" for s
    by (cases s) (simp_all add: all_action_statuses_def)
  then show ?thesis by blast
qed

lemma action_status_value_inj: "inj action_status_value"
proof (rule injI)
  fix s t assume "action_status_value s = action_status_value t"
  then show "s = t" by (cases s; cases t) simp_all
qed

lemma action_status_roundtrip [simp]: "action_status_of (action_status_value s) = Some s"
  by (cases s) (simp_all add: action_status_of_def all_action_statuses_def)

lemma action_status_of_Some: "action_status_of v = Some s \<Longrightarrow> action_status_value s = v"
  unfolding action_status_of_def by (drule find_Some_mem) simp

text \<open>The list comprehension \<open>[s.value for s in BulkActionStatus if s.is_terminal]\<close>.\<close>

definition terminal_values :: "string list" where
  "terminal_values = map action_status_value (filter is_terminal all_action_statuses)"

lemma terminal_values_iff: "action_status_value s \<in> set terminal_values \<longleftrightarrow> is_terminal s"
  using set_all_action_statuses inj_eq [OF action_status_value_inj]
  by (auto simp: terminal_values_def)

end
