(* ===== verification/Core.thy ===== *)
theory Core
  imports Enums
begin

text \<open>
  Settings (\<open>app/core/config.py\<close>) and the exceptions of the platform with their mapping to
  RFC 7807 responses (\<open>app/core/errors.py\<close>). Settings come from the environment, so every
  operation that reads them takes the record; \<open>default_settings\<close> are the declared defaults.
\<close>

record settings =
  s_batch_size :: int
  s_max_batch_size :: int
  s_default_rate_limit_per_minute :: int
  s_api_rate_limit_per_minute :: int
  s_worker_concurrency :: int
  s_job_max_tries :: int
  s_job_timeout_seconds :: int

definition default_settings :: settings where
  "default_settings = \<lparr> s_batch_size = 1000, s_max_batch_size = 10000,
     s_default_rate_limit_per_minute = 10000, s_api_rate_limit_per_minute = 120,
     s_worker_concurrency = 20, s_job_max_tries = 3, s_job_timeout_seconds = 300 \<rparr>"

lemmas default_settings_simps [simp] = default_settings_def

text \<open>Where a \<open>ValidationError\<close> is raised from, with the names its message reports.\<close>

datatype validation =
    EmptyUpdates
  | FieldsNotUpdatable "string list"
  | InvalidUpdateValues "string list"
  | InvalidPayload string
  | FieldNotFilterable string
  | UnsupportedOperators string "string list"
  | InRequiresList
  | NotInRequiresList
  | UnsupportedOperator string
  | UnknownColumn string
  | UnknownEntityType string
  | UnknownActionType string
  | ActionDoesNotSupport string string
  | CannotDeduplicateBy string
  | NotADedupKey string
  | NoSoftDeleteColumn
  | ScheduledInThePast

text \<open>What the code can raise: its own exceptions, Python's, and the database driver's.\<close>

datatype exn =
    NotFoundError string
  | ValidationError validation
  | ConflictError string
  | RateLimitError rat
  | ValueError string
  | RuntimeError string
  | NotNullViolation string
  | NoResultFound
  | DriverError string

type_synonym 'a result = "exn + 'a"

fun status_code :: "exn \<Rightarrow> nat" where
  "status_code (NotFoundError _) = 404"
| "status_code (ValidationError _) = 422"
| "status_code (ConflictError _) = 409"
| "status_code (RateLimitError _) = 429"
| "status_code _ = 500"

fun error_title :: "exn \<Rightarrow> string" where
  "error_title (NotFoundError _) = ''Resource not found''"
| "error_title (ValidationError _) = ''Invalid request''"
| "error_title (ConflictError _) = ''Conflicting state''"
| "error_title (RateLimitError _) = ''Rate limit exceeded''"
| "error_title _ = ''Internal server error''"

fun error_code :: "exn \<Rightarrow> string" where
  "error_code (NotFoundError _) = ''not_found''"
| "error_code (ValidationError _) = ''validation_error''"
| "error_code (ConflictError _) = ''conflict''"
| "error_code (RateLimitError _) = ''rate_limited''"
| "error_code _ = ''internal_error''"

record problem =
  p_type :: string
  p_title :: string
  p_status :: nat
  p_code :: string
  p_headers :: "(string \<times> string) list"

text \<open>Python's \<open>int\<close> of a float truncates towards zero.\<close>

definition py_int :: "rat \<Rightarrow> int" where
  "py_int r = (if 0 \<le> r then \<lfloor>r\<rfloor> else \<lceil>r\<rceil>)"

definition problem_response :: "exn \<Rightarrow> problem" where
  "problem_response e =
     \<lparr> p_type = ''about:blank#'' @ error_code e, p_title = error_title e,
       p_status = status_code e, p_code = error_code e,
       p_headers = (case e of
           RateLimitError retry_after \<Rightarrow> [(''Retry-After'', int_str (py_int retry_after))]
         | _ \<Rightarrow> []) \<rparr>"

text \<open>The transactional scope of \<open>app/core/db.py\<close>: commit on success, roll back on error.\<close>

definition session_scope :: "('db \<Rightarrow> 'db \<times> 'a result) \<Rightarrow> 'db \<Rightarrow> 'db \<times> 'a result" where
  "session_scope body db =
     (case body db of (db', Inr a) \<Rightarrow> (db', Inr a) | (db', Inl e) \<Rightarrow> (db, Inl e))"

lemma session_scope_rollback: "snd (session_scope body db) = Inl e \<Longrightarrow> fst (session_scope body db) = db"
  by (auto simp: session_scope_def split: prod.splits sum.splits)

lemma session_scope_Inl: "session_scope body db = (db', Inl e) \<Longrightarrow> db' = db"
  by (auto simp: session_scope_def split: prod.splits sum.splits)

lemma session_scope_commit:
  "snd (session_scope body db) = Inr a \<Longrightarrow> session_scope body db = body db"
  by (auto simp: session_scope_def split: prod.splits sum.splits)

end
