(* ===== verification/Models.thy ===== *)
theory Models
  imports Core
begin

text \<open>
  The tables of the platform: \<open>app/models/account.py\<close>, \<open>app/models/crm.py\<close> and
  \<open>app/models/bulk_action.py\<close>. One record per row; \<open>db\<close> holds one list of rows per table.
  A CRM row keeps its primary key and tenant apart from its other columns, which are an
  association list from column name to value, so that contacts and companies share one type
  the way the entity-agnostic code shares one code path.
\<close>

record account =
  acc_id :: uuid
  acc_name :: string
  acc_rate_limit_per_minute :: int
  acc_created_at :: time

record crm_row =
  row_id :: uuid
  row_account_id :: uuid
  row_cols :: pydict

record bulk_action =
  ba_id :: uuid
  ba_account_id :: uuid
  ba_entity_type :: string
  ba_action_type :: string
  ba_status :: action_status
  ba_configuration :: pydict
  ba_batch_size :: nat
  ba_scheduled_at :: "time option"
  ba_total_entities :: nat
  ba_processed_count :: nat
  ba_success_count :: nat
  ba_failure_count :: nat
  ba_skipped_count :: nat
  ba_total_batches :: nat
  ba_completed_batches :: nat
  ba_error :: "string option"
  ba_idempotency_key :: "string option"
  ba_created_at :: time
  ba_started_at :: "time option"
  ba_finished_at :: "time option"

record batch_row =
  bb_id :: uuid
  bb_bulk_action_id :: uuid
  bb_batch_index :: nat
  bb_status :: batch_status
  bb_entity_ids :: "uuid list option"
  bb_cursor_start :: "uuid option"
  bb_cursor_end :: "uuid option"
  bb_entity_count :: nat
  bb_success_count :: nat
  bb_failure_count :: nat
  bb_skipped_count :: nat
  bb_attempts :: nat
  bb_error :: "string option"
  bb_created_at :: time
  bb_started_at :: "time option"
  bb_finished_at :: "time option"

record log_row =
  bl_id :: nat
  bl_bulk_action_id :: uuid
  bl_batch_id :: "uuid option"
  bl_entity_id :: "uuid option"
  bl_status :: log_status
  bl_reason_code :: "log_reason option"
  bl_message :: "string option"
  bl_details :: "pydict option"
  bl_created_at :: time

record db =
  db_accounts :: "account list"
  db_crm :: "string \<Rightarrow> crm_row list"
  db_actions :: "bulk_action list"
  db_batches :: "batch_row list"
  db_logs :: "log_row list"
  db_dedup :: "(uuid \<times> string) list"

text \<open>A column of a CRM row; a column the row does not carry reads as NULL.\<close>

definition row_get :: "crm_row \<Rightarrow> string \<Rightarrow> pyval" where
  "row_get r name =
     (if name = ''id'' then PUuid (row_id r)
      else if name = ''account_id'' then PUuid (row_account_id r)
      else case map_of (row_cols r) name of None \<Rightarrow> PNone | Some v \<Rightarrow> v)"

text \<open>\<open>SET\<close> of an UPDATE: the columns named are replaced, the others kept.\<close>

definition row_set :: "pydict \<Rightarrow> crm_row \<Rightarrow> crm_row" where
  "row_set vals r = r\<lparr> row_cols := vals @ filter (\<lambda>(k, _). k \<notin> fst ` set vals) (row_cols r) \<rparr>"

lemma row_set_id [simp]: "row_id (row_set vals r) = row_id r"
  by (simp add: row_set_def)

lemma row_set_account [simp]: "row_account_id (row_set vals r) = row_account_id r"
  by (simp add: row_set_def)

lemma map_of_filter_out: "k \<notin> K \<Longrightarrow> map_of (filter (\<lambda>(k, _). k \<notin> K) xs) k = map_of xs k"
  by (induction xs) auto

lemma row_get_set:
  assumes "name \<noteq> ''id''" and "name \<noteq> ''account_id''"
  shows "row_get (row_set vals r) name =
     (case map_of vals name of Some v \<Rightarrow> v | None \<Rightarrow> row_get r name)"
proof (cases "map_of vals name")
  case None
  then have "name \<notin> fst ` set vals" by (simp add: map_of_eq_None_iff)
  with None assms show ?thesis
    by (simp add: row_get_def row_set_def map_add_def map_of_filter_out)
next
  case (Some v)
  with assms show ?thesis
    by (simp add: row_get_def row_set_def map_add_def split: option.splits)
qed

text \<open>Reading an action, a batch by its unique key and by its id, and an account.\<close>

definition load_action :: "db \<Rightarrow> uuid \<Rightarrow> bulk_action option" where
  "load_action d aid = find (\<lambda>a. ba_id a = aid) (db_actions d)"

definition load_batch :: "db \<Rightarrow> uuid \<Rightarrow> nat \<Rightarrow> batch_row option" where
  "load_batch d aid i =
     find (\<lambda>b. bb_bulk_action_id b = aid \<and> bb_batch_index b = i) (db_batches d)"

definition load_batch_by_id :: "db \<Rightarrow> uuid \<Rightarrow> batch_row option" where
  "load_batch_by_id d bid = find (\<lambda>b. bb_id b = bid) (db_batches d)"

definition load_account :: "db \<Rightarrow> uuid \<Rightarrow> account option" where
  "load_account d acc = find (\<lambda>a. acc_id a = acc) (db_accounts d)"

definition update_actions :: "(bulk_action \<Rightarrow> bool) \<Rightarrow> (bulk_action \<Rightarrow> bulk_action) \<Rightarrow> db \<Rightarrow> db" where
  "update_actions p f d = d\<lparr> db_actions := upd_where p f (db_actions d) \<rparr>"

definition update_batches :: "(batch_row \<Rightarrow> bool) \<Rightarrow> (batch_row \<Rightarrow> batch_row) \<Rightarrow> db \<Rightarrow> db" where
  "update_batches p f d = d\<lparr> db_batches := upd_where p f (db_batches d) \<rparr>"

lemma update_actions_frame [simp, frame_simps]:
  "db_accounts (update_actions p f d) = db_accounts d"
  "db_crm (update_actions p f d) = db_crm d"
  "db_batches (update_actions p f d) = db_batches d"
  "db_logs (update_actions p f d) = db_logs d"
  "db_dedup (update_actions p f d) = db_dedup d"
  by (simp_all add: update_actions_def)

lemma update_batches_frame [simp, frame_simps]:
  "db_accounts (update_batches p f d) = db_accounts d"
  "db_crm (update_batches p f d) = db_crm d"
  "db_actions (update_batches p f d) = db_actions d"
  "db_logs (update_batches p f d) = db_logs d"
  "db_dedup (update_batches p f d) = db_dedup d"
  by (simp_all add: update_batches_def)

lemma load_action_update_batches [simp]: "load_action (update_batches p f d) = load_action d"
  by (simp add: load_action_def fun_eq_iff)

lemma load_account_update [simp]:
  "load_account (update_actions p f d) = load_account d"
  "load_account (update_batches q g d) = load_account d"
  by (simp_all add: load_account_def fun_eq_iff)

lemma load_batch_update_actions [simp]:
  "load_batch (update_actions p f d) = load_batch d"
  "load_batch_by_id (update_actions p f d) = load_batch_by_id d"
  by (simp_all add: load_batch_def load_batch_by_id_def fun_eq_iff)

text \<open>
  The constraints the schema declares: primary keys, the unique batch slot, the dedup ledger's
  composite key, the foreign keys the control plane relies on.
\<close>

definition keys_ok :: "db \<Rightarrow> bool" where
  "keys_ok d \<longleftrightarrow>
     distinct (map acc_id (db_accounts d)) \<and>
     (\<forall>t. distinct (map row_id (db_crm d t))) \<and>
     distinct (map ba_id (db_actions d)) \<and>
     distinct (map bb_id (db_batches d)) \<and>
     distinct (map (\<lambda>b. (bb_bulk_action_id b, bb_batch_index b)) (db_batches d)) \<and>
     distinct (map bl_id (db_logs d)) \<and>
     distinct (db_dedup d)"

end
