(* ===== verification/Entities.thy ===== *)
theory Entities
  imports Models
begin

text \<open>
  Entity descriptors: \<open>app/domain/entities/\<close>. A descriptor declares a table, the fields a bulk
  update may write with their constraints, the de-duplication keys and the soft-delete column.
  Pydantic is not part of the repository: how it coerces a JSON value to \<open>int\<close>, \<open>str\<close>,
  \<open>bool\<close> or \<open>UUID\<close>, how it strips a string and how it dumps a UUID are the fields of the
  parameter record \<open>pydantic\<close>. The constraints themselves (\<open>Field(ge=\<dots>, pattern=\<dots>)\<close>) are
  declared in the repository and modelled here.
\<close>

record pydantic =
  pd_int :: "pyval \<Rightarrow> int option"
  pd_str :: "pyval \<Rightarrow> string option"
  pd_bool :: "pyval \<Rightarrow> bool option"
  pd_uuid :: "pyval \<Rightarrow> uuid option"
  pd_strip :: "string \<Rightarrow> string"
  pd_dump_uuid :: "uuid \<Rightarrow> pyval"

datatype pattern = EmailPattern

datatype annotation =
    AnnStr nat nat "pattern option"
  | AnnInt int int

record field_spec =
  fs_annotation :: annotation
  fs_description :: string
  fs_nullable :: bool
  fs_filterable :: bool

datatype sqltype = T_UUID | T_VARCHAR | T_INTEGER | T_TIMESTAMP

record column =
  col_name :: string
  col_type :: sqltype
  col_nullable :: bool

record descriptor =
  ent_name :: string
  ent_label :: string
  ent_table :: string
  ent_columns :: "column list"
  ent_updatable_fields :: "(string \<times> field_spec) list"
  ent_dedup_fields :: "string list"
  ent_soft_delete_column :: "string option"
  ent_account_column :: string

section \<open>The pattern of the email field\<close>

text \<open>The class \<open>[^@\s]\<close>: neither an at sign nor white space.\<close>

definition regex_space :: "char \<Rightarrow> bool" where
  "regex_space c \<longleftrightarrow> (let n = code c in 9 \<le> n \<and> n \<le> 13 \<or> n = 32 \<or> n = 133 \<or> n = 160)"

definition not_at_space :: "char \<Rightarrow> bool" where
  "not_at_space c \<longleftrightarrow> c \<noteq> CHR ''@'' \<and> \<not> regex_space c"

text \<open>\<open>^[^@\s]+@[^@\s]+\.[^@\s]+$\<close>: the at sign cannot be matched by the classes, so it is the
  first one; the dot must have a character on either side of it.\<close>

definition matches_email :: "string \<Rightarrow> bool" where
  "matches_email s =
     (let l = takeWhile (\<lambda>c. c \<noteq> CHR ''@'') s; d = drop (Suc (length l)) s in
      l \<noteq> [] \<and> list_all not_at_space l \<and> length l < length s \<and> list_all not_at_space d \<and>
      list_ex (\<lambda>i. d ! i = CHR ''.'') [1..<length d - 1])"

fun matches_pattern :: "pattern \<Rightarrow> string \<Rightarrow> bool" where
  "matches_pattern EmailPattern s = matches_email s"

section \<open>FieldSpec and EntityDescriptor\<close>

text \<open>
  The update model declares every field as \<open>(spec.update_annotation | None, None)\<close>, so \<open>null\<close>
  passes whatever \<open>nullable\<close> says. The value of a field that fails is \<open>None\<close>.
\<close>

fun validate_annotation :: "pydantic \<Rightarrow> annotation \<Rightarrow> pyval \<Rightarrow> pyval option" where
  "validate_annotation P (AnnInt ge le) v =
     (case pd_int P v of
        None \<Rightarrow> None
      | Some i \<Rightarrow> if ge \<le> i \<and> i \<le> le then Some (PInt i) else None)"
| "validate_annotation P (AnnStr mn mx pat) v =
     (case pd_str P v of
        None \<Rightarrow> None
      | Some s0 \<Rightarrow>
          (let s = pd_strip P s0 in
           if mn \<le> length s \<and> length s \<le> mx \<and>
              (case pat of None \<Rightarrow> True | Some p \<Rightarrow> matches_pattern p s)
           then Some (PStr s) else None))"

definition validate_update_field :: "pydantic \<Rightarrow> field_spec \<Rightarrow> pyval \<Rightarrow> pyval option" where
  "validate_update_field P spec v =
     (if v = PNone then Some PNone else validate_annotation P (fs_annotation spec) v)"

definition column_names :: "descriptor \<Rightarrow> string list" where
  "column_names ent = map col_name (ent_columns ent)"

definition column :: "descriptor \<Rightarrow> string \<Rightarrow> column result" where
  "column ent name =
     (case find (\<lambda>c. col_name c = name) (ent_columns ent) of
        Some c \<Rightarrow> Inr c
      | None \<Rightarrow> Inl (ValidationError (UnknownColumn name)))"

definition filterable_fields :: "descriptor \<Rightarrow> (string \<times> field_spec) list" where
  "filterable_fields ent = filter (\<lambda>(_, spec). fs_filterable spec) (ent_updatable_fields ent)"

definition readable_columns :: "descriptor \<Rightarrow> string list" where
  "readable_columns ent =
     (let cols = ''id'' # map fst (ent_updatable_fields ent) in
      case ent_soft_delete_column ent of
        Some c \<Rightarrow> if c \<noteq> [] \<and> c \<notin> set cols then cols @ [c] else cols
      | None \<Rightarrow> cols)"

definition validate_updates :: "pydantic \<Rightarrow> descriptor \<Rightarrow> pydict \<Rightarrow> pydict result" where
  "validate_updates P ent updates =
     (if updates = [] then Inl (ValidationError EmptyUpdates)
      else
        let unknown = filter (\<lambda>k. k \<notin> set (map fst (ent_updatable_fields ent))) (map fst updates) in
        if unknown \<noteq> [] then Inl (ValidationError (FieldsNotUpdatable (sort unknown)))
        else
          let sent = filter (\<lambda>(fname, _). map_of updates fname \<noteq> None) (ent_updatable_fields ent);
              checked = map (\<lambda>(fname, spec).
                (fname, validate_update_field P spec (the (map_of updates fname)))) sent;
              bad = map fst (filter (\<lambda>(_, r). r = None) checked)
          in if bad \<noteq> [] then Inl (ValidationError (InvalidUpdateValues bad))
             else Inr (map (\<lambda>(fname, r). (fname, the r)) checked))"

section \<open>The shipped entities\<close>

text \<open>\<open>Contact\<close> and \<open>Company\<close> of \<open>app/models/crm.py\<close>: the columns of their tables.\<close>

definition contacts_columns :: "column list" where
  "contacts_columns =
     [\<lparr> col_name = ''id'', col_type = T_UUID, col_nullable = False \<rparr>,
      \<lparr> col_name = ''account_id'', col_type = T_UUID, col_nullable = False \<rparr>,
      \<lparr> col_name = ''name'', col_type = T_VARCHAR, col_nullable = False \<rparr>,
      \<lparr> col_name = ''email'', col_type = T_VARCHAR, col_nullable = False \<rparr>,
      \<lparr> col_name = ''age'', col_type = T_INTEGER, col_nullable = True \<rparr>,
      \<lparr> col_name = ''status'', col_type = T_VARCHAR, col_nullable = False \<rparr>,
      \<lparr> col_name = ''created_at'', col_type = T_TIMESTAMP, col_nullable = False \<rparr>,
      \<lparr> col_name = ''updated_at'', col_type = T_TIMESTAMP, col_nullable = False \<rparr>,
      \<lparr> col_name = ''deleted_at'', col_type = T_TIMESTAMP, col_nullable = True \<rparr>]"

definition companies_columns :: "column list" where
  "companies_columns =
     [\<lparr> col_name = ''id'', col_type = T_UUID, col_nullable = False \<rparr>,
      \<lparr> col_name = ''account_id'', col_type = T_UUID, col_nullable = False \<rparr>,
      \<lparr> col_name = ''name'', col_type = T_VARCHAR, col_nullable = False \<rparr>,
      \<lparr> col_name = ''domain'', col_type = T_VARCHAR, col_nullable = True \<rparr>,
      \<lparr> col_name = ''industry'', col_type = T_VARCHAR, col_nullable = True \<rparr>,
      \<lparr> col_name = ''employee_count'', col_type = T_INTEGER, col_nullable = True \<rparr>,
      \<lparr> col_name = ''status'', col_type = T_VARCHAR, col_nullable = False \<rparr>,
      \<lparr> col_name = ''created_at'', col_type = T_TIMESTAMP, col_nullable = False \<rparr>,
      \<lparr> col_name = ''updated_at'', col_type = T_TIMESTAMP, col_nullable = False \<rparr>,
      \<lparr> col_name = ''deleted_at'', col_type = T_TIMESTAMP, col_nullable = True \<rparr>]"

definition contact_entity :: descriptor where
  "contact_entity = \<lparr> ent_name = ''contact'', ent_label = ''Contacts'', ent_table = ''contacts'',
     ent_columns = contacts_columns,
     ent_updatable_fields =
       [(''name'', \<lparr> fs_annotation = AnnStr 1 255 None,
          fs_description = ''Full name of the contact.'', fs_nullable = False, fs_filterable = True \<rparr>),
        (''email'', \<lparr> fs_annotation = AnnStr 3 320 (Some EmailPattern),
          fs_description = ''Primary email address. Also the de-duplication key.'', fs_nullable = False,
                     fs_filterable = True \<rparr>),
        (''age'', \<lparr> fs_annotation = AnnInt 0 150,
          fs_description = ''Age in years.'', fs_nullable = True, fs_filterable = True \<rparr>),
        (''status'', \<lparr> fs_annotation = AnnStr 1 50 None,
          fs_description = ''Lifecycle status, e.g. active / inactive / churned.'', fs_nullable = False, fs_filterable = True \<rparr>)],
     ent_dedup_fields = [''email''],
     ent_soft_delete_column = Some ''deleted_at'',
     ent_account_column = ''account_id'' \<rparr>"

definition company_entity :: descriptor where
  "company_entity = \<lparr> ent_name = ''company'', ent_label = ''Companies'', ent_table = ''companies'',
     ent_columns = companies_columns,
     ent_updatable_fields =
       [(''name'', \<lparr> fs_annotation = AnnStr 1 255 None,
          fs_description = ''Registered company name.'', fs_nullable = False, fs_filterable = True \<rparr>),
        (''domain'', \<lparr> fs_annotation = AnnStr 3 255 None,
          fs_description = ''Primary web domain. Doubles as the de-duplication key.'', fs_nullable = True, fs_filterable = True \<rparr>),
        (''industry'', \<lparr> fs_annotation = AnnStr 1 100 None,
          fs_description = ''Industry classification.'', fs_nullable = True, fs_filterable = True \<rparr>),
        (''employee_count'', \<lparr> fs_annotation = AnnInt 0 10000000,
          fs_description = ''Headcount.'', fs_nullable = True,
                              fs_filterable = True \<rparr>),
        (''status'', \<lparr> fs_annotation = AnnStr 1 50 None,
          fs_description = ''Lifecycle status, e.g. active / prospect / churned.'', fs_nullable = False, fs_filterable = True \<rparr>)],
     ent_dedup_fields = [''domain''],
     ent_soft_delete_column = Some ''deleted_at'',
     ent_account_column = ''account_id'' \<rparr>"

text \<open>\<open>FieldSpec.type_name\<close>: the name of the annotated Python type.\<close>

definition type_name :: "field_spec \<Rightarrow> string" where
  "type_name spec = (case fs_annotation spec of AnnStr lo hi p \<Rightarrow> ''str'' | AnnInt lo hi \<Rightarrow> ''int'')"

section \<open>The registry\<close>

type_synonym entity_registry = "(string \<times> descriptor) list"

text \<open>A dict assignment: replace the value of a key in place, or append a new key.\<close>

fun dict_set :: "'k \<Rightarrow> 'v \<Rightarrow> ('k \<times> 'v) list \<Rightarrow> ('k \<times> 'v) list" where
  "dict_set k v [] = [(k, v)]"
| "dict_set k v ((k', v') # xs) = (if k = k' then (k, v) # xs else (k', v') # dict_set k v xs)"

lemma map_of_dict_set [simp]: "map_of (dict_set k v xs) = (map_of xs)(k \<mapsto> v)"
  by (induction xs) (auto simp: fun_eq_iff)

definition register_entity :: "descriptor \<Rightarrow> entity_registry \<Rightarrow> entity_registry result" where
  "register_entity d reg =
     (if ent_name d = [] then Inl (RuntimeError ''must define a name'')
      else case map_of reg (ent_name d) of
        Some d' \<Rightarrow> if d' \<noteq> d then Inl (RuntimeError ''already registered'')
                   else Inr (dict_set (ent_name d) d reg)
      | None \<Rightarrow> Inr (dict_set (ent_name d) d reg))"

definition get_entity :: "entity_registry \<Rightarrow> string \<Rightarrow> descriptor result" where
  "get_entity reg name =
     (case map_of reg name of
        Some d \<Rightarrow> Inr d
      | None \<Rightarrow> Inl (ValidationError (UnknownEntityType name)))"

text \<open>\<open>discover_entities\<close> imports the package's modules in name order, each of which registers
  its descriptor.\<close>

fun discover :: "('d \<Rightarrow> 'reg \<Rightarrow> 'reg result) \<Rightarrow> 'd list \<Rightarrow> 'reg \<Rightarrow> 'reg result" where
  "discover register [] reg = Inr reg"
| "discover register (d # ds) reg =
     (case register d reg of Inl e \<Rightarrow> Inl e | Inr reg' \<Rightarrow> discover register ds reg')"

definition discover_entities :: "entity_registry result" where
  "discover_entities = discover register_entity [company_entity, contact_entity] []"

definition shipped_entities :: entity_registry where
  "shipped_entities = [(''company'', company_entity), (''contact'', contact_entity)]"

lemma discover_entities_shipped: "discover_entities = Inr shipped_entities"
  by (simp add: discover_entities_def register_entity_def shipped_entities_def
        contact_entity_def company_entity_def)

section \<open>What a descriptor promises the rest of the platform\<close>

text \<open>
  The planner, the batch runner and the handlers read a descriptor's columns without checking
  them again. The contract: everything it declares exists in its table, its keys are not
  writable, and a field is nullable exactly when its column is.
\<close>

locale entity_contract =
  fixes ent :: descriptor
  assumes columns_distinct: "distinct (column_names ent)"
    and fields_distinct: "distinct (map fst (ent_updatable_fields ent))"
    and fields_exist: "fname \<in> fst ` set (ent_updatable_fields ent) \<Longrightarrow> fname \<in> set (column_names ent)"
    and keys_exist: "''id'' \<in> set (column_names ent)" "ent_account_column ent \<in> set (column_names ent)"
    and keys_not_writable: "''id'' \<notin> fst ` set (ent_updatable_fields ent)"
      "ent_account_column ent \<notin> fst ` set (ent_updatable_fields ent)"
    and dedup_declared: "set (ent_dedup_fields ent) \<subseteq> fst ` set (ent_updatable_fields ent)"
    and soft_delete_exists: "ent_soft_delete_column ent = Some c \<Longrightarrow>
      c \<noteq> [] \<and> c \<in> set (column_names ent) \<and> c \<notin> fst ` set (ent_updatable_fields ent)"
    and nullability: "(fname, spec) \<in> set (ent_updatable_fields ent) \<Longrightarrow> cl \<in> set (ent_columns ent) \<Longrightarrow>
      col_name cl = fname \<Longrightarrow> col_nullable cl = fs_nullable spec"
begin

lemma readable_exist: "name \<in> set (readable_columns ent) \<Longrightarrow> name \<in> set (column_names ent)"
  using keys_exist soft_delete_exists fields_exist
  by (fastforce simp: readable_columns_def Let_def split: option.splits if_splits)

lemma readable_columns_total: "name \<in> set (readable_columns ent) \<Longrightarrow> \<exists>c. column ent name = Inr c"
proof -
  assume "name \<in> set (readable_columns ent)"
  then have "name \<in> col_name ` set (ent_columns ent)"
    using readable_exist by (auto simp: column_names_def)
  then show ?thesis
    by (auto simp: column_def find_None_iff split: option.splits)
qed

lemma readable_distinct: "distinct (readable_columns ent)"
  using fields_distinct keys_not_writable
  by (auto simp: readable_columns_def Let_def split: option.splits)

end

interpretation contact: entity_contract contact_entity
  by unfold_locales
    (auto simp: contact_entity_def contacts_columns_def column_names_def)

interpretation company: entity_contract company_entity
  by unfold_locales
    (auto simp: company_entity_def companies_columns_def column_names_def)

section \<open>Validation of update values\<close>

fun meets_annotation :: "annotation \<Rightarrow> pyval \<Rightarrow> bool" where
  "meets_annotation (AnnInt ge le) (PInt i) \<longleftrightarrow> ge \<le> i \<and> i \<le> le"
| "meets_annotation (AnnStr mn mx pat) (PStr s) \<longleftrightarrow>
     mn \<le> length s \<and> length s \<le> mx \<and> (case pat of None \<Rightarrow> True | Some p \<Rightarrow> matches_pattern p s)"
| "meets_annotation _ _ \<longleftrightarrow> False"

lemma validate_annotation_meets: "validate_annotation P ann v = Some w \<Longrightarrow> meets_annotation ann w"
  by (cases ann) (auto simp: Let_def split: option.splits if_splits)

lemma validate_update_field_meets:
  "validate_update_field P spec v = Some w \<Longrightarrow> w = PNone \<or> meets_annotation (fs_annotation spec) w"
  by (auto simp: validate_update_field_def dest: validate_annotation_meets split: if_splits)

text \<open>The validated dict, when every check passes.\<close>

lemma validate_updates_InrD:
  assumes "validate_updates P ent updates = Inr vals"
  shows "updates \<noteq> []"
    and "fst ` set updates \<subseteq> fst ` set (ent_updatable_fields ent)"
    and "map fst vals = filter (\<lambda>f. map_of updates f \<noteq> None) (map fst (ent_updatable_fields ent))"
    and "(k, w) \<in> set vals \<Longrightarrow> \<exists>spec. (k, spec) \<in> set (ent_updatable_fields ent) \<and>
           validate_update_field P spec (the (map_of updates k)) = Some w"
proof -
  let ?F = "ent_updatable_fields ent"
  let ?sent = "filter (\<lambda>(f, _). map_of updates f \<noteq> None) ?F"
  let ?chk = "map (\<lambda>(f, spec). (f, validate_update_field P spec (the (map_of updates f)))) ?sent"
  from assms have bad: "filter (\<lambda>(_, r). r = None) ?chk = []"
    and vals: "vals = map (\<lambda>(f, r). (f, the r)) ?chk"
    by (auto simp: validate_updates_def Let_def split: if_splits)
  show "updates \<noteq> []" and "fst ` set updates \<subseteq> fst ` set ?F"
    using assms by (auto simp: validate_updates_def Let_def filter_empty_conv split: if_splits)
  have "map fst vals = map fst ?sent" by (simp add: vals case_prod_beta comp_def)
  also have "\<dots> = filter (\<lambda>f. map_of updates f \<noteq> None) (map fst ?F)"
    by (simp add: filter_map comp_def split_def)
  finally show "map fst vals = filter (\<lambda>f. map_of updates f \<noteq> None) (map fst ?F)" .
  show "\<exists>spec. (k, spec) \<in> set ?F \<and> validate_update_field P spec (the (map_of updates k)) = Some w"
    if "(k, w) \<in> set vals"
    using that bad by (fastforce simp: vals filter_empty_conv)
qed

text \<open>
  (C23) A validated update writes exactly the fields the client sent, each of them declared
  updatable by the entity and each once, with a value that is null or satisfies the field's
  declared range, length and pattern. The primary key and the tenant column are never among
  them.
\<close>

theorem validate_updates_sound:
  assumes "validate_updates P ent updates = Inr vals"
    and "ent \<in> {contact_entity, company_entity}"
  shows "set (map fst vals) = set (map fst updates) \<and> distinct (map fst vals) \<and>
    ''id'' \<notin> set (map fst vals) \<and> ''account_id'' \<notin> set (map fst vals) \<and>
    list_all (\<lambda>(k, v). \<exists>spec. map_of (ent_updatable_fields ent) k = Some spec \<and>
       (v = PNone \<or> meets_annotation (fs_annotation spec) v)) vals"
proof -
  note D = validate_updates_InrD [OF assms(1)]
  have dist: "distinct (map fst (ent_updatable_fields ent))"
    and keys: "''id'' \<notin> fst ` set (ent_updatable_fields ent)"
      "''account_id'' \<notin> fst ` set (ent_updatable_fields ent)"
    using assms(2) by (auto simp: contact_entity_def company_entity_def)
  have eq: "set (map fst vals) = set (map fst updates)"
    using D(2) by (auto simp: D(3) map_of_eq_None_iff)
  have meets: "\<exists>spec. map_of (ent_updatable_fields ent) k = Some spec \<and>
       (v = PNone \<or> meets_annotation (fs_annotation spec) v)" if "(k, v) \<in> set vals" for k v
    using D(4) [OF that] dist by (blast dest: validate_update_field_meets intro: map_of_is_SomeI)
  show ?thesis
    using eq keys D(2) meets dist by (auto simp: D(3) list_all_iff)
qed

text \<open>A concrete pydantic, for evaluating examples: no coercion between kinds.\<close>

definition strict_pydantic :: pydantic where
  "strict_pydantic = \<lparr>
     pd_int = (\<lambda>v. case v of PInt i \<Rightarrow> Some i | _ \<Rightarrow> None),
     pd_str = (\<lambda>v. case v of PStr s \<Rightarrow> Some s | _ \<Rightarrow> None),
     pd_bool = (\<lambda>v. case v of PBool b \<Rightarrow> Some b | _ \<Rightarrow> None),
     pd_uuid = (\<lambda>v. case v of PUuid u \<Rightarrow> Some u | _ \<Rightarrow> None),
     pd_strip = py_strip,
     pd_dump_uuid = PUuid \<rparr>"

theorem validate_updates_sound_witness:
  "validate_updates strict_pydantic contact_entity [(''age'', PInt 41)] = Inr [(''age'', PInt 41)] \<and>
   set (map fst [(''age'', PInt 41)]) = {''age''}"
proof -
  have v: "validate_updates strict_pydantic contact_entity [(''age'', PInt 41)] = Inr [(''age'', PInt 41)]"
    by (simp add: validate_updates_def contact_entity_def validate_update_field_def strict_pydantic_def)
  then show ?thesis
    using validate_updates_sound [OF v] by simp
qed

text \<open>
  Every rejected update is rejected for one of three reasons, reported in this order: no
  field at all, a field the entity does not declare updatable, or a value that its field's
  annotation does not accept.
\<close>

theorem validate_updates_error_iff:
  "(\<exists>e. validate_updates P ent updates = Inl e) \<longleftrightarrow>
   updates = [] \<or>
   (\<exists>k \<in> fst ` set updates. k \<notin> fst ` set (ent_updatable_fields ent)) \<or>
   (\<exists>(k, spec) \<in> set (ent_updatable_fields ent). \<exists>v. map_of updates k = Some v \<and>
      v \<noteq> PNone \<and> validate_annotation P (fs_annotation spec) v = None)"
  (is "?lhs \<longleftrightarrow> ?empty \<or> ?unknown \<or> ?bad")
proof -
  let ?sent = "filter (\<lambda>(f, _). map_of updates f \<noteq> None) (ent_updatable_fields ent)"
  let ?chk = "map (\<lambda>(f, spec). (f, validate_update_field P spec (the (map_of updates f)))) ?sent"
  have unknown: "filter (\<lambda>k. k \<notin> set (map fst (ent_updatable_fields ent))) (map fst updates) \<noteq> [] \<longleftrightarrow> ?unknown"
    by (auto simp: filter_empty_conv)
  have bad: "map fst (filter (\<lambda>(_, r). r = None) ?chk) \<noteq> [] \<longleftrightarrow> ?bad"
    by (fastforce simp: filter_empty_conv validate_update_field_def split: if_splits)
  show ?thesis
    unfolding validate_updates_def Let_def unknown bad by auto
qed

end
