(* ===== verification/Schema.thy ===== *)
theory Schema
  imports Entities
begin

text \<open>
  The database schema twice: the SQLAlchemy metadata of \<open>app/models\<close> (mapped columns, table
  arguments and the naming convention of \<open>app/models/base.py\<close>) and the statements of the first
  Alembic migration. \<open>create_table\<close> and \<open>create_indexes\<close> render the metadata; the migration
  runs against a catalogue of tables and indexes in which a foreign key must refer to an
  existing table.
\<close>

section \<open>Definitions of tables\<close>

datatype sql_type = SqlUuid | SqlVarchar nat | SqlInteger | SqlBigserial | SqlTimestamptz | SqlText | SqlJsonb | SqlUuidArray

datatype sql_default = DefaultText string | DefaultNow

record column_def =
  cd_name :: string
  cd_type :: sql_type
  cd_default :: "sql_default option"
  cd_not_null :: bool

datatype table_constraint =
    PrimaryKey string "string list"
  | ForeignKey string string string string string
  | CheckIn string string "string list"
  | Unique string "string list"

record table_def =
  td_name :: string
  td_columns :: "column_def list"
  td_constraints :: "table_constraint list"

record index_def =
  ix_name :: string
  ix_table :: string
  ix_exprs :: "string list"

section \<open>The metadata\<close>

record orm_column =
  oc_name :: string
  oc_type :: sql_type
  oc_nullable :: bool
  oc_server_default :: "sql_default option"
  oc_primary_key :: bool
  oc_index :: bool
  oc_foreign_key :: "(string \<times> string \<times> string) option"

datatype table_arg =
    CheckStatus string "string list"
  | UniqueConstraint "string list" string
  | Index string "string list"

record orm_table =
  ot_name :: string
  ot_columns :: "orm_column list"
  ot_args :: "table_arg list"

definition mapped_column :: "string \<Rightarrow> sql_type \<Rightarrow> bool \<Rightarrow> sql_default option \<Rightarrow> orm_column" where
  "mapped_column name ty nullable deflt = \<lparr> oc_name = name, oc_type = ty, oc_nullable = nullable,
     oc_server_default = deflt, oc_primary_key = False, oc_index = False, oc_foreign_key = None \<rparr>"

definition uuid_pk :: orm_column where
  "uuid_pk = (mapped_column ''id'' SqlUuid False None)\<lparr> oc_primary_key := True \<rparr>"

definition created_at_col :: orm_column where
  "created_at_col = (mapped_column ''created_at'' SqlTimestamptz False (Some DefaultNow))\<lparr> oc_index := True \<rparr>"

definition updated_at_col :: orm_column where
  "updated_at_col = mapped_column ''updated_at'' SqlTimestamptz False (Some DefaultNow)"

definition foreign_key :: "string \<Rightarrow> string \<Rightarrow> bool \<Rightarrow> orm_column" where
  "foreign_key name target nullable =
     (mapped_column name SqlUuid nullable None)\<lparr> oc_foreign_key := Some (target, ''id'', ''CASCADE'') \<rparr>"

definition counter :: "string \<Rightarrow> orm_column" where
  "counter name = mapped_column name SqlInteger False (Some (DefaultText ''0''))"

definition optional_time :: "string \<Rightarrow> orm_column" where
  "optional_time name = mapped_column name SqlTimestamptz True None"

definition orm_accounts :: orm_table where
  "orm_accounts = \<lparr> ot_name = ''accounts'',
     ot_columns = [uuid_pk, mapped_column ''name'' (SqlVarchar 255) False None,
       mapped_column ''rate_limit_per_minute'' SqlInteger False (Some (DefaultText ''10000'')), created_at_col],
     ot_args = [] \<rparr>"

definition orm_contacts :: orm_table where
  "orm_contacts = \<lparr> ot_name = ''contacts'',
     ot_columns = [uuid_pk, foreign_key ''account_id'' ''accounts'' False,
       mapped_column ''name'' (SqlVarchar 255) False None, mapped_column ''email'' (SqlVarchar 320) False None,
       mapped_column ''age'' SqlInteger True None,
       mapped_column ''status'' (SqlVarchar 50) False (Some (DefaultText ''active'')),
       created_at_col, updated_at_col, optional_time ''deleted_at''],
     ot_args = [Index ''ix_contacts_account_id_id'' [''account_id'', ''id''],
       Index ''ix_contacts_account_status'' [''account_id'', ''status''],
       Index ''ix_contacts_account_email_lower'' [''account_id'', ''lower(email)'']] \<rparr>"

definition orm_companies :: orm_table where
  "orm_companies = \<lparr> ot_name = ''companies'',
     ot_columns = [uuid_pk, foreign_key ''account_id'' ''accounts'' False,
       mapped_column ''name'' (SqlVarchar 255) False None, mapped_column ''domain'' (SqlVarchar 255) True None,
       mapped_column ''industry'' (SqlVarchar 100) True None, mapped_column ''employee_count'' SqlInteger True None,
       mapped_column ''status'' (SqlVarchar 50) False (Some (DefaultText ''active'')),
       created_at_col, updated_at_col, optional_time ''deleted_at''],
     ot_args = [Index ''ix_companies_account_id_id'' [''account_id'', ''id''],
       Index ''ix_companies_account_status'' [''account_id'', ''status''],
       Index ''ix_companies_account_domain_lower'' [''account_id'', ''lower(domain)'']] \<rparr>"

definition orm_bulk_actions :: orm_table where
  "orm_bulk_actions = \<lparr> ot_name = ''bulk_actions'',
     ot_columns = [uuid_pk, foreign_key ''account_id'' ''accounts'' False,
       mapped_column ''entity_type'' (SqlVarchar 64) False None,
       mapped_column ''action_type'' (SqlVarchar 64) False None,
       mapped_column ''status'' (SqlVarchar 32) False (Some (DefaultText (action_status_value QUEUED))),
       mapped_column ''configuration'' SqlJsonb False (Some (DefaultText ''{}'')),
       mapped_column ''batch_size'' SqlInteger False (Some (DefaultText ''1000'')),
       optional_time ''scheduled_at'', counter ''total_entities'', counter ''processed_count'',
       counter ''success_count'', counter ''failure_count'', counter ''skipped_count'',
       counter ''total_batches'', counter ''completed_batches'',
       mapped_column ''error'' SqlText True None, mapped_column ''idempotency_key'' (SqlVarchar 255) True None,
       created_at_col, optional_time ''started_at'', optional_time ''finished_at''],
     ot_args = [CheckStatus ''status_valid'' (map action_status_value all_action_statuses),
       UniqueConstraint [''account_id'', ''idempotency_key''] ''uq_bulk_actions_idempotency'',
       Index ''ix_bulk_actions_account_created'' [''account_id'', ''created_at''],
       Index ''ix_bulk_actions_status'' [''status'']] \<rparr>"

definition all_batch_statuses :: "batch_status list" where
  "all_batch_statuses = [B_PENDING, B_PROCESSING, B_COMPLETED, B_FAILED, B_CANCELLED]"

definition all_log_statuses :: "log_status list" where
  "all_log_statuses = [L_SUCCESS, L_FAILED, L_SKIPPED]"

definition orm_batches :: orm_table where
  "orm_batches = \<lparr> ot_name = ''bulk_action_batches'',
     ot_columns = [uuid_pk, foreign_key ''bulk_action_id'' ''bulk_actions'' False,
       mapped_column ''batch_index'' SqlInteger False None,
       mapped_column ''status'' (SqlVarchar 32) False (Some (DefaultText (batch_status_value B_PENDING))),
       mapped_column ''entity_ids'' SqlUuidArray True None, mapped_column ''cursor_start'' SqlUuid True None,
       mapped_column ''cursor_end'' SqlUuid True None, counter ''entity_count'', counter ''success_count'',
       counter ''failure_count'', counter ''skipped_count'', counter ''attempts'',
       mapped_column ''error'' SqlText True None, created_at_col, optional_time ''started_at'',
       optional_time ''finished_at''],
     ot_args = [CheckStatus ''status_valid'' (map batch_status_value all_batch_statuses),
       UniqueConstraint [''bulk_action_id'', ''batch_index''] ''uq_batch_action_index'',
       Index ''ix_batches_action_status'' [''bulk_action_id'', ''status'']] \<rparr>"

definition orm_logs :: orm_table where
  "orm_logs = \<lparr> ot_name = ''bulk_action_logs'',
     ot_columns = [(mapped_column ''id'' SqlBigserial False None)\<lparr> oc_primary_key := True \<rparr>,
       foreign_key ''bulk_action_id'' ''bulk_actions'' False,
       foreign_key ''batch_id'' ''bulk_action_batches'' True, mapped_column ''entity_id'' SqlUuid True None,
       mapped_column ''status'' (SqlVarchar 16) False None, mapped_column ''reason_code'' (SqlVarchar 64) True None,
       mapped_column ''message'' SqlText True None, mapped_column ''details'' SqlJsonb True None, created_at_col],
     ot_args = [CheckStatus ''status_valid'' (map log_status_value all_log_statuses),
       Index ''ix_logs_action_status_id'' [''bulk_action_id'', ''status'', ''id''],
       Index ''ix_logs_action_entity'' [''bulk_action_id'', ''entity_id'']] \<rparr>"

definition orm_dedup :: orm_table where
  "orm_dedup = \<lparr> ot_name = ''bulk_action_dedup'',
     ot_columns = [(foreign_key ''bulk_action_id'' ''bulk_actions'' False)\<lparr> oc_primary_key := True \<rparr>,
       (mapped_column ''dedup_key'' (SqlVarchar 512) False None)\<lparr> oc_primary_key := True \<rparr>],
     ot_args = [] \<rparr>"

text \<open>\<open>metadata.sorted_tables\<close>: a table after the tables it refers to.\<close>

definition orm_metadata :: "orm_table list" where
  "orm_metadata = [orm_accounts, orm_contacts, orm_companies, orm_bulk_actions, orm_batches, orm_logs, orm_dedup]"

section \<open>Rendering\<close>

definition render_column :: "orm_column \<Rightarrow> column_def" where
  "render_column c = \<lparr> cd_name = oc_name c, cd_type = oc_type c, cd_default = oc_server_default c,
     cd_not_null = (\<not> oc_nullable c) \<rparr>"

fun named_constraint :: "string \<Rightarrow> table_arg \<Rightarrow> table_constraint list" where
  "named_constraint t (CheckStatus name vals) = [CheckIn (''ck_'' @ t @ ''_'' @ name) ''status'' vals]"
| "named_constraint t (UniqueConstraint cols name) = [Unique name cols]"
| "named_constraint t (Index name exprs) = []"

definition foreign_keys :: "orm_table \<Rightarrow> table_constraint list" where
  "foreign_keys t = concat (map (\<lambda>c. case oc_foreign_key c of
       None \<Rightarrow> []
     | Some (target, col, ondelete) \<Rightarrow>
         [ForeignKey (''fk_'' @ ot_name t @ ''_'' @ oc_name c @ ''_'' @ target) (oc_name c) target col ondelete])
     (ot_columns t))"

definition create_table :: "orm_table \<Rightarrow> table_def" where
  "create_table t = \<lparr> td_name = ot_name t, td_columns = map render_column (ot_columns t),
     td_constraints = PrimaryKey (''pk_'' @ ot_name t) (map oc_name (filter oc_primary_key (ot_columns t))) #
       concat (map (named_constraint (ot_name t)) (ot_args t)) @ foreign_keys t \<rparr>"

definition create_indexes :: "orm_table \<Rightarrow> index_def list" where
  "create_indexes t =
     concat (map (\<lambda>a. case a of Index name exprs \<Rightarrow> [\<lparr> ix_name = name, ix_table = ot_name t, ix_exprs = exprs \<rparr>] | _ \<Rightarrow> [])
       (ot_args t)) @
     map (\<lambda>c. \<lparr> ix_name = ''ix_'' @ ot_name t @ ''_'' @ oc_name c, ix_table = ot_name t, ix_exprs = [oc_name c] \<rparr>)
       (filter oc_index (ot_columns t))"

section \<open>The migration\<close>

definition column_ddl :: "string \<Rightarrow> sql_type \<Rightarrow> sql_default option \<Rightarrow> bool \<Rightarrow> column_def" where
  "column_ddl name ty deflt not_null = \<lparr> cd_name = name, cd_type = ty, cd_default = deflt, cd_not_null = not_null \<rparr>"

definition ddl_accounts :: table_def where
  "ddl_accounts = \<lparr> td_name = ''accounts'',
     td_columns = [column_ddl ''id'' SqlUuid None True, column_ddl ''name'' (SqlVarchar 255) None True,
       column_ddl ''rate_limit_per_minute'' SqlInteger (Some (DefaultText ''10000'')) True,
       column_ddl ''created_at'' SqlTimestamptz (Some DefaultNow) True],
     td_constraints = [PrimaryKey ''pk_accounts'' [''id'']] \<rparr>"

definition ddl_contacts :: table_def where
  "ddl_contacts = \<lparr> td_name = ''contacts'',
     td_columns = [column_ddl ''id'' SqlUuid None True, column_ddl ''account_id'' SqlUuid None True,
       column_ddl ''name'' (SqlVarchar 255) None True, column_ddl ''email'' (SqlVarchar 320) None True,
       column_ddl ''age'' SqlInteger None False,
       column_ddl ''status'' (SqlVarchar 50) (Some (DefaultText ''active'')) True,
       column_ddl ''created_at'' SqlTimestamptz (Some DefaultNow) True,
       column_ddl ''updated_at'' SqlTimestamptz (Some DefaultNow) True,
       column_ddl ''deleted_at'' SqlTimestamptz None False],
     td_constraints = [PrimaryKey ''pk_contacts'' [''id''],
       ForeignKey ''fk_contacts_account_id_accounts'' ''account_id'' ''accounts'' ''id'' ''CASCADE''] \<rparr>"

definition ddl_companies :: table_def where
  "ddl_companies = \<lparr> td_name = ''companies'',
     td_columns = [column_ddl ''id'' SqlUuid None True, column_ddl ''account_id'' SqlUuid None True,
       column_ddl ''name'' (SqlVarchar 255) None True, column_ddl ''domain'' (SqlVarchar 255) None False,
       column_ddl ''industry'' (SqlVarchar 100) None False,
       column_ddl ''employee_count'' SqlInteger None False,
       column_ddl ''status'' (SqlVarchar 50) (Some (DefaultText ''active'')) True,
       column_ddl ''created_at'' SqlTimestamptz (Some DefaultNow) True,
       column_ddl ''updated_at'' SqlTimestamptz (Some DefaultNow) True,
       column_ddl ''deleted_at'' SqlTimestamptz None False],
     td_constraints = [PrimaryKey ''pk_companies'' [''id''],
       ForeignKey ''fk_companies_account_id_accounts'' ''account_id'' ''accounts'' ''id'' ''CASCADE''] \<rparr>"

definition ddl_bulk_actions :: table_def where
  "ddl_bulk_actions = \<lparr> td_name = ''bulk_actions'',
     td_columns = [column_ddl ''id'' SqlUuid None True, column_ddl ''account_id'' SqlUuid None True,
       column_ddl ''entity_type'' (SqlVarchar 64) None True,
       column_ddl ''action_type'' (SqlVarchar 64) None True,
       column_ddl ''status'' (SqlVarchar 32) (Some (DefaultText ''queued'')) True,
       column_ddl ''configuration'' SqlJsonb (Some (DefaultText ''{}'')) True,
       column_ddl ''batch_size'' SqlInteger (Some (DefaultText ''1000'')) True,
       column_ddl ''scheduled_at'' SqlTimestamptz None False,
       column_ddl ''total_entities'' SqlInteger (Some (DefaultText ''0'')) True,
       column_ddl ''processed_count'' SqlInteger (Some (DefaultText ''0'')) True,
       column_ddl ''success_count'' SqlInteger (Some (DefaultText ''0'')) True,
       column_ddl ''failure_count'' SqlInteger (Some (DefaultText ''0'')) True,
       column_ddl ''skipped_count'' SqlInteger (Some (DefaultText ''0'')) True,
       column_ddl ''total_batches'' SqlInteger (Some (DefaultText ''0'')) True,
       column_ddl ''completed_batches'' SqlInteger (Some (DefaultText ''0'')) True,
       column_ddl ''error'' SqlText None False,
       column_ddl ''idempotency_key'' (SqlVarchar 255) None False,
       column_ddl ''created_at'' SqlTimestamptz (Some DefaultNow) True,
       column_ddl ''started_at'' SqlTimestamptz None False,
       column_ddl ''finished_at'' SqlTimestamptz None False],
     td_constraints = [PrimaryKey ''pk_bulk_actions'' [''id''],
       CheckIn ''ck_bulk_actions_status_valid'' ''status'' [''scheduled'', ''queued'', ''planning'', ''processing'', ''completed'', ''completed_with_errors'', ''failed'', ''cancelled''],
       Unique ''uq_bulk_actions_idempotency'' [''account_id'', ''idempotency_key''],
       ForeignKey ''fk_bulk_actions_account_id_accounts'' ''account_id'' ''accounts'' ''id'' ''CASCADE''] \<rparr>"

definition ddl_batches :: table_def where
  "ddl_batches = \<lparr> td_name = ''bulk_action_batches'',
     td_columns = [column_ddl ''id'' SqlUuid None True, column_ddl ''bulk_action_id'' SqlUuid None True,
       column_ddl ''batch_index'' SqlInteger None True,
       column_ddl ''status'' (SqlVarchar 32) (Some (DefaultText ''pending'')) True,
       column_ddl ''entity_ids'' SqlUuidArray None False, column_ddl ''cursor_start'' SqlUuid None False,
       column_ddl ''cursor_end'' SqlUuid None False,
       column_ddl ''entity_count'' SqlInteger (Some (DefaultText ''0'')) True,
       column_ddl ''success_count'' SqlInteger (Some (DefaultText ''0'')) True,
       column_ddl ''failure_count'' SqlInteger (Some (DefaultText ''0'')) True,
       column_ddl ''skipped_count'' SqlInteger (Some (DefaultText ''0'')) True,
       column_ddl ''attempts'' SqlInteger (Some (DefaultText ''0'')) True,
       column_ddl ''error'' SqlText None False,
       column_ddl ''created_at'' SqlTimestamptz (Some DefaultNow) True,
       column_ddl ''started_at'' SqlTimestamptz None False,
       column_ddl ''finished_at'' SqlTimestamptz None False],
     td_constraints = [PrimaryKey ''pk_bulk_action_batches'' [''id''],
       CheckIn ''ck_bulk_action_batches_status_valid'' ''status'' [''pending'', ''processing'', ''completed'', ''failed'', ''cancelled''],
       Unique ''uq_batch_action_index'' [''bulk_action_id'', ''batch_index''],
       ForeignKey ''fk_bulk_action_batches_bulk_action_id_bulk_actions'' ''bulk_action_id'' ''bulk_actions'' ''id'' ''CASCADE''] \<rparr>"

definition ddl_logs :: table_def where
  "ddl_logs = \<lparr> td_name = ''bulk_action_logs'',
     td_columns = [column_ddl ''id'' SqlBigserial None True, column_ddl ''bulk_action_id'' SqlUuid None True,
       column_ddl ''batch_id'' SqlUuid None False, column_ddl ''entity_id'' SqlUuid None False,
       column_ddl ''status'' (SqlVarchar 16) None True,
       column_ddl ''reason_code'' (SqlVarchar 64) None False, column_ddl ''message'' SqlText None False,
       column_ddl ''details'' SqlJsonb None False,
       column_ddl ''created_at'' SqlTimestamptz (Some DefaultNow) True],
     td_constraints = [PrimaryKey ''pk_bulk_action_logs'' [''id''],
       CheckIn ''ck_bulk_action_logs_status_valid'' ''status'' [''success'', ''failed'', ''skipped''],
       ForeignKey ''fk_bulk_action_logs_bulk_action_id_bulk_actions'' ''bulk_action_id'' ''bulk_actions'' ''id'' ''CASCADE'',
       ForeignKey ''fk_bulk_action_logs_batch_id_bulk_action_batches'' ''batch_id'' ''bulk_action_batches'' ''id'' ''CASCADE''] \<rparr>"

definition ddl_dedup :: table_def where
  "ddl_dedup = \<lparr> td_name = ''bulk_action_dedup'',
     td_columns = [column_ddl ''bulk_action_id'' SqlUuid None True,
       column_ddl ''dedup_key'' (SqlVarchar 512) None True],
     td_constraints = [PrimaryKey ''pk_bulk_action_dedup'' [''bulk_action_id'', ''dedup_key''],
       ForeignKey ''fk_bulk_action_dedup_bulk_action_id_bulk_actions'' ''bulk_action_id'' ''bulk_actions'' ''id'' ''CASCADE''] \<rparr>"

definition migration_tables :: "table_def list" where
  "migration_tables = [ddl_accounts, ddl_contacts, ddl_companies, ddl_bulk_actions, ddl_batches, ddl_logs, ddl_dedup]"

definition migration_indexes :: "index_def list" where
  "migration_indexes =
    [\<lparr> ix_name = ''ix_accounts_created_at'', ix_table = ''accounts'', ix_exprs = [''created_at''] \<rparr>,
     \<lparr> ix_name = ''ix_contacts_account_id_id'', ix_table = ''contacts'', ix_exprs = [''account_id'', ''id''] \<rparr>,
     \<lparr> ix_name = ''ix_contacts_account_status'', ix_table = ''contacts'', ix_exprs = [''account_id'', ''status''] \<rparr>,
     \<lparr> ix_name = ''ix_contacts_account_email_lower'', ix_table = ''contacts'', ix_exprs = [''account_id'', ''lower(email)''] \<rparr>,
     \<lparr> ix_name = ''ix_contacts_created_at'', ix_table = ''contacts'', ix_exprs = [''created_at''] \<rparr>,
     \<lparr> ix_name = ''ix_companies_account_id_id'', ix_table = ''companies'', ix_exprs = [''account_id'', ''id''] \<rparr>,
     \<lparr> ix_name = ''ix_companies_account_status'', ix_table = ''companies'', ix_exprs = [''account_id'', ''status''] \<rparr>,
     \<lparr> ix_name = ''ix_companies_account_domain_lower'', ix_table = ''companies'', ix_exprs = [''account_id'', ''lower(domain)''] \<rparr>,
     \<lparr> ix_name = ''ix_companies_created_at'', ix_table = ''companies'', ix_exprs = [''created_at''] \<rparr>,
     \<lparr> ix_name = ''ix_bulk_actions_account_created'', ix_table = ''bulk_actions'', ix_exprs = [''account_id'', ''created_at''] \<rparr>,
     \<lparr> ix_name = ''ix_bulk_actions_status'', ix_table = ''bulk_actions'', ix_exprs = [''status''] \<rparr>,
     \<lparr> ix_name = ''ix_bulk_actions_created_at'', ix_table = ''bulk_actions'', ix_exprs = [''created_at''] \<rparr>,
     \<lparr> ix_name = ''ix_batches_action_status'', ix_table = ''bulk_action_batches'', ix_exprs = [''bulk_action_id'', ''status''] \<rparr>,
     \<lparr> ix_name = ''ix_bulk_action_batches_created_at'', ix_table = ''bulk_action_batches'', ix_exprs = [''created_at''] \<rparr>,
     \<lparr> ix_name = ''ix_logs_action_status_id'', ix_table = ''bulk_action_logs'', ix_exprs = [''bulk_action_id'', ''status'', ''id''] \<rparr>,
     \<lparr> ix_name = ''ix_logs_action_entity'', ix_table = ''bulk_action_logs'', ix_exprs = [''bulk_action_id'', ''entity_id''] \<rparr>,
     \<lparr> ix_name = ''ix_bulk_action_logs_created_at'', ix_table = ''bulk_action_logs'', ix_exprs = [''created_at''] \<rparr>]"

definition drop_order :: "string list" where
  "drop_order = [''bulk_action_dedup'', ''bulk_action_logs'', ''bulk_action_batches'', ''bulk_actions'', ''companies'', ''contacts'', ''accounts'']"

text \<open>The catalogue the statements run against.\<close>

record catalogue =
  ct_tables :: "table_def list"
  ct_indexes :: "index_def list"

definition referenced :: "table_def \<Rightarrow> string list" where
  "referenced t = concat (map (\<lambda>c. case c of ForeignKey n col target tcol od \<Rightarrow> [target] | _ \<Rightarrow> []) (td_constraints t))"

definition exec_create_table :: "table_def \<Rightarrow> catalogue \<Rightarrow> catalogue result" where
  "exec_create_table t c =
     (if td_name t \<in> set (map td_name (ct_tables c)) then Inl (DriverError ''relation already exists'')
      else if \<not> set (referenced t) \<subseteq> set (map td_name (ct_tables c)) then Inl (DriverError ''relation does not exist'')
      else Inr (c\<lparr> ct_tables := ct_tables c @ [t] \<rparr>))"

definition exec_create_index :: "index_def \<Rightarrow> catalogue \<Rightarrow> catalogue result" where
  "exec_create_index i c =
     (if ix_name i \<in> set (map ix_name (ct_indexes c)) then Inl (DriverError ''relation already exists'')
      else if ix_table i \<notin> set (map td_name (ct_tables c)) then Inl (DriverError ''relation does not exist'')
      else Inr (c\<lparr> ct_indexes := ct_indexes c @ [i] \<rparr>))"

text \<open>\<open>DROP TABLE IF EXISTS t CASCADE\<close>: the table goes with its indexes and with the foreign keys that
  refer to it.\<close>

definition drop_table :: "string \<Rightarrow> catalogue \<Rightarrow> catalogue" where
  "drop_table name c =
     c\<lparr> ct_tables := map (\<lambda>t. t\<lparr> td_constraints := filter (\<lambda>k. case k of
            ForeignKey n col target tcol od \<Rightarrow> target \<noteq> name | _ \<Rightarrow> True) (td_constraints t) \<rparr>)
          (filter (\<lambda>t. td_name t \<noteq> name) (ct_tables c)),
        ct_indexes := filter (\<lambda>i. ix_table i \<noteq> name) (ct_indexes c) \<rparr>"

fun exec_all :: "('s \<Rightarrow> catalogue \<Rightarrow> catalogue result) \<Rightarrow> 's list \<Rightarrow> catalogue \<Rightarrow> catalogue result" where
  "exec_all f [] c = Inr c"
| "exec_all f (x # xs) c = (case f x c of Inl e \<Rightarrow> Inl e | Inr c' \<Rightarrow> exec_all f xs c')"

definition upgrade :: "catalogue \<Rightarrow> catalogue result" where
  "upgrade c =
     (case exec_all exec_create_table migration_tables c of
        Inl e \<Rightarrow> Inl e
      | Inr c' \<Rightarrow> exec_all exec_create_index migration_indexes c')"

definition downgrade :: "catalogue \<Rightarrow> catalogue" where
  "downgrade c = fold drop_table drop_order c"

section \<open>Descriptors and columns\<close>

text \<open>Every value a validated update can carry fits the column: strings within the declared length,
  integers within 32 bits.\<close>

fun column_takes :: "sql_type \<Rightarrow> annotation \<Rightarrow> bool" where
  "column_takes (SqlVarchar n) (AnnStr lo hi p) \<longleftrightarrow> hi \<le> n"
| "column_takes SqlInteger (AnnInt lo hi) \<longleftrightarrow> - (2 ^ 31) \<le> lo \<and> hi < 2 ^ 31"
| "column_takes _ _ \<longleftrightarrow> False"

definition field_fits :: "orm_table \<Rightarrow> string \<times> field_spec \<Rightarrow> bool" where
  "field_fits t f \<longleftrightarrow> (case find (\<lambda>c. oc_name c = fst f) (ot_columns t) of
       None \<Rightarrow> False
     | Some c \<Rightarrow> column_takes (oc_type c) (fs_annotation (snd f)) \<and> oc_nullable c = fs_nullable (snd f))"

definition column_type :: "sql_type \<Rightarrow> sqltype option" where
  "column_type t = (case t of SqlUuid \<Rightarrow> Some T_UUID | SqlVarchar n \<Rightarrow> Some T_VARCHAR | SqlInteger \<Rightarrow> Some T_INTEGER
     | SqlTimestamptz \<Rightarrow> Some T_TIMESTAMP | _ \<Rightarrow> None)"

definition described :: "orm_table \<Rightarrow> descriptor \<Rightarrow> bool" where
  "described t ent \<longleftrightarrow> ent_table ent = ot_name t \<and>
     map (\<lambda>c. (col_name c, Some (col_type c), col_nullable c)) (ent_columns ent) =
       map (\<lambda>c. (oc_name c, column_type (oc_type c), oc_nullable c)) (ot_columns t) \<and>
     list_all (field_fits t) (ent_updatable_fields ent)"

section \<open>Properties\<close>

lemma migration_renders_metadata:
  "migration_tables = map create_table orm_metadata" "migration_indexes = concat (map create_indexes orm_metadata)"
  by code_simp+

lemma upgrade_from_nothing:
  "upgrade \<lparr> ct_tables = [], ct_indexes = [] \<rparr> = Inr \<lparr> ct_tables = migration_tables, ct_indexes = migration_indexes \<rparr>"
  by code_simp

lemma downgrade_leaves_nothing:
  "downgrade \<lparr> ct_tables = migration_tables, ct_indexes = migration_indexes \<rparr> = \<lparr> ct_tables = [], ct_indexes = [] \<rparr>"
  by code_simp

lemma descriptors_match:
  "described orm_contacts contact_entity" "described orm_companies company_entity"
  by code_simp+


end
