(* ===== verification/Filters.thy ===== *)
theory Filters
  imports Entities
begin

text \<open>
  \<open>app/domain/filters.py\<close>: a JSON filter object becomes a conjunction of predicates over the
  columns of an entity's table. The predicates are evaluated in SQL's three-valued logic
  (\<open>None\<close> is UNKNOWN): a row is selected when its WHERE clause is \<open>Some True\<close>.

  The database and its driver are not part of the repository. Which values the driver accepts
  as a parameter for a column of a given type, the order the database puts on the values of a
  column, and its \<open>lower()\<close> are the fields of the parameter record \<open>sql_driver\<close>.
\<close>

record sql_driver =
  drv_binds :: "sqltype \<Rightarrow> pyval \<Rightarrow> bool"
  drv_less :: "pyval \<Rightarrow> pyval \<Rightarrow> bool"
  drv_lower :: "string \<Rightarrow> string"

datatype sql_pred =
    SEq string pyval
  | SNe string pyval
  | SGt string pyval
  | SGe string pyval
  | SLt string pyval
  | SLe string pyval
  | SIn string "pyval list"
  | SNotIn string "pyval list"
  | SLowerLike string string
  | SIsNull string
  | SIsNotNull string
  | SAccount uuid

section \<open>Python's rendering of a value\<close>

text \<open>Filter values come from JSON, so only the JSON kinds matter here. \<open>repr\<close> of a string: quoted, with the escapes Python uses below code point 256.\<close>

definition hex2 :: "nat \<Rightarrow> string" where
  "hex2 n = [hex_char (n div 16), hex_char (n mod 16)]"

definition repr_char :: "char \<Rightarrow> char \<Rightarrow> string" where
  "repr_char quote c =
     (let n = code c in
      if c = quote \<or> n = 92 then [char_of (92::nat), c]
      else if n = 9 then [char_of (92::nat), CHR ''t'']
      else if n = 10 then [char_of (92::nat), CHR ''n'']
      else if n = 13 then [char_of (92::nat), CHR ''r'']
      else if n < 32 \<or> 127 \<le> n \<and> n \<le> 160 \<or> n = 173 then [char_of (92::nat), CHR ''x''] @ hex2 n
      else [c])"

definition repr_str :: "string \<Rightarrow> string" where
  "repr_str s =
     (let quote = (if char_of (39::nat) \<in> set s \<and> char_of (34::nat) \<notin> set s
                   then char_of (34::nat) else char_of (39::nat))
      in quote # concat (map (repr_char quote) s) @ [quote])"

fun join :: "string \<Rightarrow> string list \<Rightarrow> string" where
  "join sep [] = []"
| "join sep [x] = x"
| "join sep (x # xs) = x @ sep @ join sep xs"

fun py_repr :: "pyval \<Rightarrow> string" where
  "py_repr PNone = ''None''"
| "py_repr (PBool b) = (if b then ''True'' else ''False'')"
| "py_repr (PInt i) = int_str i"
| "py_repr (PStr s) = repr_str s"
| "py_repr (PTime t) = ''datetime('' @ int_str t @ '')''"
| "py_repr (PUuid u) = ''UUID('' @ repr_str (uuid_str u) @ '')''"
| "py_repr (PList xs) = ''['' @ join '', '' (map py_repr xs) @ '']''"
| "py_repr (PDict d) = ''{'' @ join '', '' (map (\<lambda>(k, v). repr_str k @ '': '' @ py_repr v) d) @ ''}''"

fun py_str :: "pyval \<Rightarrow> string" where
  "py_str (PStr s) = s"
| "py_str (PUuid u) = uuid_str u"
| "py_str v = py_repr v"

section \<open>Compiling a filter\<close>

definition operators :: "string list" where
  "operators = [''eq'', ''ne'', ''gt'', ''gte'', ''lt'', ''lte'', ''in'', ''not_in'', ''contains'',
     ''is_null'']"

text \<open>\<open>column == None\<close> compiles to IS NULL and \<open>column != None\<close> to IS NOT NULL.\<close>

definition eq_pred :: "string \<Rightarrow> pyval \<Rightarrow> sql_pred" where
  "eq_pred col v = (if v = PNone then SIsNull col else SEq col v)"

definition ne_pred :: "string \<Rightarrow> pyval \<Rightarrow> sql_pred" where
  "ne_pred col v = (if v = PNone then SIsNotNull col else SNe col v)"

definition apply_op :: "string \<Rightarrow> string \<Rightarrow> pyval \<Rightarrow> sql_pred result" where
  "apply_op col opr value =
     (if opr = ''eq'' then Inr (eq_pred col value)
      else if opr = ''ne'' then Inr (ne_pred col value)
      else if opr = ''gt'' then Inr (SGt col value)
      else if opr = ''gte'' then Inr (SGe col value)
      else if opr = ''lt'' then Inr (SLt col value)
      else if opr = ''lte'' then Inr (SLe col value)
      else if opr = ''in'' then
        (case value of
           PList (x # xs) \<Rightarrow> Inr (SIn col (x # xs))
         | _ \<Rightarrow> Inl (ValidationError InRequiresList))
      else if opr = ''not_in'' then
        (case value of
           PList (x # xs) \<Rightarrow> Inr (SNotIn col (x # xs))
         | _ \<Rightarrow> Inl (ValidationError NotInRequiresList))
      else if opr = ''contains'' then Inr (SLowerLike col (''%'' @ py_lower (py_str value) @ ''%''))
      else if opr = ''is_null'' then
        Inr (if py_truth value then SIsNull col else SIsNotNull col)
      else Inl (ValidationError (UnsupportedOperator opr)))"

definition allowed_fields :: "descriptor \<Rightarrow> string list" where
  "allowed_fields ent =
     filter (\<lambda>f. f \<in> set (column_names ent))
       (fromkeys (map fst (filterable_fields ent) @ [''status'', ''created_at'', ''updated_at'']))"

definition check_condition :: "descriptor \<Rightarrow> string \<times> pyval \<Rightarrow> unit result" where
  "check_condition ent fc =
     (case fc of (fname, condition) \<Rightarrow>
        if fname \<notin> set (allowed_fields ent) then Inl (ValidationError (FieldNotFilterable fname))
        else case condition of
            PDict ops \<Rightarrow>
              (let unknown = filter (\<lambda>o'. o' \<notin> set operators) (map fst ops) in
               if unknown \<noteq> [] then Inl (ValidationError (UnsupportedOperators fname (sort unknown)))
               else Inr ())
          | _ \<Rightarrow> Inr ())"

text \<open>Run a check over a list, stopping at the first error; \<open>rmap\<close> collects the results.\<close>

fun rall :: "('a \<Rightarrow> unit result) \<Rightarrow> 'a list \<Rightarrow> unit result" where
  "rall f [] = Inr ()"
| "rall f (x # xs) = (case f x of Inl e \<Rightarrow> Inl e | Inr _ \<Rightarrow> rall f xs)"

fun rmap :: "('a \<Rightarrow> 'b result) \<Rightarrow> 'a list \<Rightarrow> 'b list result" where
  "rmap f [] = Inr []"
| "rmap f (x # xs) =
     (case f x of
        Inl e \<Rightarrow> Inl e
      | Inr y \<Rightarrow> (case rmap f xs of Inl e \<Rightarrow> Inl e | Inr ys \<Rightarrow> Inr (y # ys)))"

lemma rall_Inr: "rall f xs = Inr () \<longleftrightarrow> (\<forall>x \<in> set xs. f x = Inr ())"
  by (induction xs) (auto split: sum.splits)

lemma rmap_Inr: "rmap f xs = Inr ys \<longleftrightarrow> list_all2 (\<lambda>x y. f x = Inr y) xs ys"
proof (induction xs arbitrary: ys)
  case Nil
  then show ?case by auto
next
  case (Cons x xs)
  have "rmap f (x # xs) = Inr ys \<longleftrightarrow> (\<exists>y zs. ys = y # zs \<and> f x = Inr y \<and> rmap f xs = Inr zs)"
    by (auto split: sum.splits)
  then show ?case by (auto simp: Cons.IH list_all2_Cons1)
qed

lemma rmap_Inl: "rmap f xs = Inl e \<Longrightarrow> \<exists>x \<in> set xs. f x = Inl e"
  by (induction xs) (auto split: sum.splits)

definition validate_filter :: "descriptor \<Rightarrow> pydict option \<Rightarrow> unit result" where
  "validate_filter ent filters =
     (case filters of
        None \<Rightarrow> Inr ()
      | Some fs \<Rightarrow> if fs = [] then Inr () else rall (check_condition ent) fs)"

definition condition_preds :: "descriptor \<Rightarrow> string \<times> pyval \<Rightarrow> sql_pred list result" where
  "condition_preds ent fc =
     (case fc of (fname, condition) \<Rightarrow>
        (case column ent fname of
           Inl e \<Rightarrow> Inl e
         | Inr c \<Rightarrow>
             (case condition of
                PDict ops \<Rightarrow> rmap (\<lambda>(opr, value). apply_op (col_name c) opr value) ops
              | _ \<Rightarrow> rmap (\<lambda>value. apply_op (col_name c) ''eq'' value) [condition])))"

definition build_predicates :: "descriptor \<Rightarrow> pydict option \<Rightarrow> sql_pred list result" where
  "build_predicates ent filters =
     (case filters of
        None \<Rightarrow> Inr []
      | Some fs \<Rightarrow>
          if fs = [] then Inr []
          else case validate_filter ent filters of
              Inl e \<Rightarrow> Inl e
            | Inr _ \<Rightarrow> (case rmap (condition_preds ent) fs of Inl e \<Rightarrow> Inl e | Inr pss \<Rightarrow> Inr (concat pss)))"

definition selection_clause ::
  "descriptor \<Rightarrow> uuid \<Rightarrow> pydict option \<Rightarrow> bool \<Rightarrow> sql_pred list result" where
  "selection_clause ent account_id filters include_deleted =
     (case build_predicates ent filters of
        Inl e \<Rightarrow> Inl e
      | Inr ps \<Rightarrow>
          Inr (SAccount account_id #
               (case ent_soft_delete_column ent of
                  Some c \<Rightarrow> if c \<noteq> [] \<and> \<not> include_deleted then [SIsNull c] else []
                | None \<Rightarrow> []) @ ps))"

section \<open>Evaluating a WHERE clause\<close>

fun like :: "string \<Rightarrow> string \<Rightarrow> bool" where
  "like [] t = (t = [])"
| "like (c # p) t =
     (if c = CHR ''%'' then like p t \<or> (case t of [] \<Rightarrow> False | _ # t' \<Rightarrow> like (c # p) t')
      else if c = CHR ''_'' then (case t of [] \<Rightarrow> False | _ # t' \<Rightarrow> like p t')
      else if code c = 92 then
        (case p of [] \<Rightarrow> False | d # p' \<Rightarrow> (case t of [] \<Rightarrow> False | x # t' \<Rightarrow> x = d \<and> like p' t'))
      else (case t of [] \<Rightarrow> False | x # t' \<Rightarrow> x = c \<and> like p t'))"

declare like.simps(2) [simp del]

fun tv_not :: "bool option \<Rightarrow> bool option" where
  "tv_not None = None"
| "tv_not (Some b) = Some (\<not> b)"

fun tv_and :: "bool option \<Rightarrow> bool option \<Rightarrow> bool option" where
  "tv_and (Some False) _ = Some False"
| "tv_and _ (Some False) = Some False"
| "tv_and (Some True) b = b"
| "tv_and None b = None"

fun tv_or :: "bool option \<Rightarrow> bool option \<Rightarrow> bool option" where
  "tv_or (Some True) _ = Some True"
| "tv_or _ (Some True) = Some True"
| "tv_or (Some False) b = b"
| "tv_or None b = None"

text \<open>A comparison with NULL on either side is UNKNOWN.\<close>

definition tv_cmp :: "(pyval \<Rightarrow> pyval \<Rightarrow> bool) \<Rightarrow> pyval \<Rightarrow> pyval \<Rightarrow> bool option" where
  "tv_cmp f x y = (if x = PNone \<or> y = PNone then None else Some (f x y))"

fun eval_pred :: "sql_driver \<Rightarrow> crm_row \<Rightarrow> sql_pred \<Rightarrow> bool option" where
  "eval_pred D r (SEq c v) = tv_cmp py_eq (row_get r c) v"
| "eval_pred D r (SNe c v) = tv_not (tv_cmp py_eq (row_get r c) v)"
| "eval_pred D r (SGt c v) = tv_cmp (\<lambda>x y. drv_less D y x) (row_get r c) v"
| "eval_pred D r (SGe c v) = tv_cmp (\<lambda>x y. \<not> drv_less D x y) (row_get r c) v"
| "eval_pred D r (SLt c v) = tv_cmp (drv_less D) (row_get r c) v"
| "eval_pred D r (SLe c v) = tv_cmp (\<lambda>x y. \<not> drv_less D y x) (row_get r c) v"
| "eval_pred D r (SIn c vs) = foldr (\<lambda>v. tv_or (tv_cmp py_eq (row_get r c) v)) vs (Some False)"
| "eval_pred D r (SNotIn c vs) = tv_not (foldr (\<lambda>v. tv_or (tv_cmp py_eq (row_get r c) v)) vs (Some False))"
| "eval_pred D r (SLowerLike c p) =
     (case row_get r c of PStr s \<Rightarrow> Some (like p (drv_lower D s)) | _ \<Rightarrow> None)"
| "eval_pred D r (SIsNull c) = Some (row_get r c = PNone)"
| "eval_pred D r (SIsNotNull c) = Some (row_get r c \<noteq> PNone)"
| "eval_pred D r (SAccount a) = Some (row_account_id r = a)"

definition eval_where :: "sql_driver \<Rightarrow> sql_pred list \<Rightarrow> crm_row \<Rightarrow> bool" where
  "eval_where D ps r \<longleftrightarrow> foldr (\<lambda>p. tv_and (eval_pred D r p)) ps (Some True) = Some True"

text \<open>Whether the driver can bind a predicate's parameters to its column's type; \<open>lower()\<close> is
  defined on text only.\<close>

definition type_of_column :: "descriptor \<Rightarrow> string \<Rightarrow> sqltype option" where
  "type_of_column ent name =
     map_option col_type (find (\<lambda>c. col_name c = name) (ent_columns ent))"

definition binds :: "sql_driver \<Rightarrow> descriptor \<Rightarrow> string \<Rightarrow> pyval \<Rightarrow> bool" where
  "binds D ent col v =
     (v = PNone \<or> (case type_of_column ent col of None \<Rightarrow> False | Some t \<Rightarrow> drv_binds D t v))"

fun pred_binds :: "sql_driver \<Rightarrow> descriptor \<Rightarrow> sql_pred \<Rightarrow> bool" where
  "pred_binds D ent (SEq c v) = binds D ent c v"
| "pred_binds D ent (SNe c v) = binds D ent c v"
| "pred_binds D ent (SGt c v) = binds D ent c v"
| "pred_binds D ent (SGe c v) = binds D ent c v"
| "pred_binds D ent (SLt c v) = binds D ent c v"
| "pred_binds D ent (SLe c v) = binds D ent c v"
| "pred_binds D ent (SIn c vs) = list_all (binds D ent c) vs"
| "pred_binds D ent (SNotIn c vs) = list_all (binds D ent c) vs"
| "pred_binds D ent (SLowerLike c p) = (type_of_column ent c = Some T_VARCHAR)"
| "pred_binds D ent _ = True"

text \<open>\<open>SELECT \<dots> WHERE ps ORDER BY id\<close> over the rows of a table.\<close>

definition select_rows ::
  "sql_driver \<Rightarrow> descriptor \<Rightarrow> sql_pred list \<Rightarrow> crm_row list \<Rightarrow> crm_row list result" where
  "select_rows D ent ps rows =
     (if list_all (pred_binds D ent) ps then Inr (sort_key row_id (filter (eval_where D ps) rows))
      else Inl (DriverError ''cannot bind a parameter''))"

section \<open>Properties\<close>

lemma tv_and_True: "tv_and a b = Some True \<longleftrightarrow> a = Some True \<and> b = Some True"
  by (cases "(a, b)" rule: tv_and.cases) auto

lemma eval_where_iff: "eval_where D ps r \<longleftrightarrow> (\<forall>p \<in> set ps. eval_pred D r p = Some True)"
  unfolding eval_where_def by (induction ps) (auto simp: tv_and_True)

lemma select_rows_mem:
  "select_rows D ent ps rows = Inr rs \<Longrightarrow>
   r \<in> set rs \<longleftrightarrow> r \<in> set rows \<and> (\<forall>p \<in> set ps. eval_pred D r p = Some True)"
  by (auto simp: select_rows_def eval_where_iff split: if_splits)

lemma select_rows_distinct:
  "select_rows D ent ps rows = Inr rs \<Longrightarrow> distinct (map row_id rows) \<Longrightarrow>
   distinct (map row_id rs) \<and> sorted (map row_id rs)"
proof -
  assume "select_rows D ent ps rows = Inr rs" and d: "distinct (map row_id rows)"
  then have rs: "rs = sort_key row_id (filter (eval_where D ps) rows)"
    by (simp add: select_rows_def split: if_splits)
  have "distinct (map row_id (filter (eval_where D ps) rows))" using d by (rule distinct_map_filter)
  then have "distinct (map row_id rs)"
    unfolding rs by (metis distinct_map distinct_sort set_sort)
  then show ?thesis by (simp add: rs)
qed


lemma allowed_fields_columns: "f \<in> set (allowed_fields ent) \<Longrightarrow> \<exists>c. column ent f = Inr c"
  by (force simp: allowed_fields_def column_def column_names_def find_None_iff split: option.splits)

lemma apply_op_errors:
  "opr \<in> set operators \<Longrightarrow> apply_op col opr v = Inl e \<Longrightarrow>
   e \<in> {ValidationError InRequiresList, ValidationError NotInRequiresList}"
  by (auto simp: apply_op_def operators_def split: if_splits pyval.splits list.splits)

lemma condition_preds_errors:
  assumes "check_condition ent fc = Inr ()" and "condition_preds ent fc = Inl e"
  shows "e \<in> {ValidationError InRequiresList, ValidationError NotInRequiresList}"
proof -
  obtain f cond where fc: "fc = (f, cond)" by (cases fc)
  with assms(1) have "f \<in> set (allowed_fields ent)" by (auto simp: check_condition_def split: if_splits)
  then obtain c where c: "column ent f = Inr c" using allowed_fields_columns by blast
  show ?thesis
  proof (cases "\<exists>ops. cond = PDict ops")
    case True
    then obtain ops where ops: "cond = PDict ops" by blast
    with assms(1) fc have "\<forall>o' \<in> fst ` set ops. o' \<in> set operators"
      by (auto simp: check_condition_def Let_def filter_empty_conv split: if_splits)
    moreover obtain x where "x \<in> set ops" and "apply_op (col_name c) (fst x) (snd x) = Inl e"
      using assms(2) by (auto simp: condition_preds_def fc c ops dest!: rmap_Inl)
    ultimately show ?thesis by (intro apply_op_errors [of "fst x"]) auto
  next
    case False
    then have "condition_preds ent fc = Inr [eq_pred (col_name c) cond]"
      by (cases cond) (simp_all add: condition_preds_def fc c apply_op_def)
    with assms(2) show ?thesis by simp
  qed
qed

text \<open>
  Compiling a filter that passed validation can fail in one way only: an \<open>in\<close> or
  \<open>not_in\<close> operator whose operand is not a non-empty list. Fields and operators are never
  rejected late.
\<close>

theorem validated_filter_compiles:
  assumes "validate_filter ent filters = Inr ()" and "build_predicates ent filters = Inl e"
  shows "e = ValidationError InRequiresList \<or> e = ValidationError NotInRequiresList"
proof -
  obtain fs where fs: "filters = Some fs" "fs \<noteq> []" and "rmap (condition_preds ent) fs = Inl e"
    using assms by (auto simp: build_predicates_def split: option.splits if_splits sum.splits)
  moreover from fs assms(1) have "\<forall>fc \<in> set fs. check_condition ent fc = Inr ()"
    by (auto simp: validate_filter_def rall_Inr)
  ultimately show ?thesis
    using condition_preds_errors by (fastforce dest: rmap_Inl)
qed

text \<open>
  And that way exists: an empty \<open>in\<close> list on any filterable field passes the submission
  check and is rejected only when the clause is built, in the worker.
\<close>

theorem empty_in_list_passes_validation:
  assumes "f \<in> set (allowed_fields ent)"
  shows "validate_filter ent (Some [(f, PDict [(''in'', PList [])])]) = Inr () \<and>
    build_predicates ent (Some [(f, PDict [(''in'', PList [])])]) =
      Inl (ValidationError InRequiresList)"
proof -
  obtain c where "column ent f = Inr c" using allowed_fields_columns [OF assms] by blast
  with assms show ?thesis
    by (simp add: validate_filter_def check_condition_def build_predicates_def condition_preds_def
        apply_op_def operators_def)
qed

lemma contact_allowed: "''status'' \<in> set (allowed_fields contact_entity)"
  by (simp add: allowed_fields_def contact_entity_def contacts_columns_def column_names_def
      filterable_fields_def fromkeys_def)

theorem empty_in_list_passes_validation_witness:
  "validate_filter contact_entity (Some [(''status'', PDict [(''in'', PList [])])]) = Inr () \<and>
   build_predicates contact_entity (Some [(''status'', PDict [(''in'', PList [])])]) =
     Inl (ValidationError InRequiresList)"
  by (rule empty_in_list_passes_validation [OF contact_allowed])

theorem validated_filter_compiles_witness:
  "build_predicates contact_entity (Some [(''status'', PDict [(''in'', PList [])])]) =
     Inl (ValidationError InRequiresList) \<and>
   (ValidationError InRequiresList = ValidationError InRequiresList \<or>
    ValidationError InRequiresList = ValidationError NotInRequiresList)"
proof -
  have v: "validate_filter contact_entity (Some [(''status'', PDict [(''in'', PList [])])]) = Inr ()"
    using contact_allowed by (simp add: validate_filter_def check_condition_def operators_def)
  have b: "build_predicates contact_entity (Some [(''status'', PDict [(''in'', PList [])])]) =
     Inl (ValidationError InRequiresList)"
    unfolding build_predicates_def v
    by (simp add: condition_preds_def column_def contact_entity_def contacts_columns_def apply_op_def v)
  show ?thesis using b validated_filter_compiles [OF v b] by blast
qed

section \<open>LIKE\<close>

definition like_literal :: "string \<Rightarrow> bool" where
  "like_literal p \<longleftrightarrow> list_all (\<lambda>c. c \<noteq> CHR ''%'' \<and> c \<noteq> CHR ''_'' \<and> code c \<noteq> 92) p"

lemma like_percent: "like (CHR ''%'' # p) t \<longleftrightarrow> (\<exists>a b. t = a @ b \<and> like p b)"
proof (induction t)
  case Nil
  then show ?case by (simp add: like.simps(2))
next
  case (Cons x t)
  have "like (CHR ''%'' # p) (x # t) \<longleftrightarrow> like p (x # t) \<or> (\<exists>a b. t = a @ b \<and> like p b)"
    using Cons by (subst like.simps(2)) simp
  also have "\<dots> \<longleftrightarrow> (\<exists>a b. x # t = a @ b \<and> like p b)"
    by (auto simp: Cons_eq_append_conv)
  finally show ?case .
qed

lemma like_literal_append:
  "like_literal p \<Longrightarrow> like (p @ q) t \<longleftrightarrow> (\<exists>b. t = p @ b \<and> like q b)"
proof (induction p arbitrary: t)
  case Nil
  then show ?case by simp
next
  case (Cons c p)
  then show ?case by (cases t) (auto simp: like_literal_def like.simps(2) [of c])
qed

lemma like_percent_only: "like ''%'' t"
  unfolding like_percent by (rule exI [of _ t]) simp

text \<open>
  \<open>contains\<close> is the case-insensitive substring test for every needle free of LIKE's special
  characters.
\<close>

theorem contains_is_substring:
  assumes "like_literal (py_lower s)" and "row_get r col = PStr t" and "drv_lower D t = py_lower t"
  shows "apply_op col ''contains'' (PStr s) = Inr (SLowerLike col (''%'' @ py_lower s @ ''%'')) \<and>
    (eval_pred D r (SLowerLike col (''%'' @ py_lower s @ ''%'')) = Some True \<longleftrightarrow>
     (\<exists>a b. py_lower t = a @ py_lower s @ b))"
proof -
  have "like (''%'' @ py_lower s @ ''%'') u \<longleftrightarrow> (\<exists>a b. u = a @ py_lower s @ b)" for u
    using assms(1) by (auto simp: like_percent like_literal_append like_percent_only)
  with assms(2,3) show ?thesis by (simp add: apply_op_def)
qed

text \<open>
  The needle is not escaped: \<open>contains\<close> of a single underscore selects every row whose
  column is a non-empty string, whether or not it holds an underscore.
\<close>

theorem contains_underscore_matches_any:
  assumes "row_get r col = PStr t" and "drv_lower D t \<noteq> []"
  shows "apply_op col ''contains'' (PStr ''_'') = Inr (SLowerLike col ''%_%'') \<and>
    eval_pred D r (SLowerLike col ''%_%'') = Some True"
proof -
  obtain x u where "drv_lower D t = x # u" using assms(2) by (cases "drv_lower D t") auto
  then have "like ''%_%'' (drv_lower D t)"
    using like_percent_only [of u]
    by (auto simp: like_percent [of "''_%''"] like.simps(2) [of "CHR ''_''"] intro: exI [of _ "[]"])
  moreover have "py_lower ''_'' = ''_''" by (simp add: py_lower_def lower_char_def code_def)
  ultimately show ?thesis using assms(1) by (simp add: apply_op_def)
qed

text \<open>A concrete driver, for evaluating examples: parameters must be of the column's kind.\<close>

definition plain_driver :: sql_driver where
  "plain_driver = \<lparr>
     drv_binds = (\<lambda>t v. case v of
        PInt _ \<Rightarrow> t = T_INTEGER | PStr _ \<Rightarrow> t = T_VARCHAR | PTime _ \<Rightarrow> t = T_TIMESTAMP
      | PUuid _ \<Rightarrow> t = T_UUID | _ \<Rightarrow> False),
     drv_less = (\<lambda>x y. case (x, y) of
        (PInt i, PInt j) \<Rightarrow> i < j | (PStr s, PStr t) \<Rightarrow> s < t | (PTime s, PTime t) \<Rightarrow> s < t
      | _ \<Rightarrow> False),
     drv_lower = py_lower \<rparr>"

definition example_contact :: "uuid \<Rightarrow> uuid \<Rightarrow> string \<Rightarrow> string \<Rightarrow> crm_row" where
  "example_contact i acc email status = \<lparr> row_id = i, row_account_id = acc,
     row_cols = [(''name'', PStr ''Ada''), (''email'', PStr email), (''age'', PInt 36),
       (''status'', PStr status), (''created_at'', PTime 0), (''updated_at'', PTime 0),
       (''deleted_at'', PNone)] \<rparr>"


theorem contains_is_substring_witness:
  "eval_pred plain_driver (example_contact 1 7 ''Ada@b.c'' ''active'')
     (SLowerLike ''email'' (''%'' @ py_lower ''ADA'' @ ''%'')) = Some True"
proof -
  let ?r = "example_contact 1 7 ''Ada@b.c'' ''active''"
  have l: "py_lower ''ADA'' = ''ada''" and t: "py_lower ''Ada@b.c'' = ''ada@b.c''" by code_simp+
  have "\<exists>a b. py_lower ''Ada@b.c'' = a @ py_lower ''ADA'' @ b"
    unfolding l t by (intro exI [of _ "[]"] exI [of _ "''@b.c''"]) simp
  moreover have "like_literal (py_lower ''ADA'')"
    unfolding l like_literal_def by (simp add: code_def)
  moreover have "row_get ?r ''email'' = PStr ''Ada@b.c''"
    by (simp add: example_contact_def row_get_def)
  ultimately show ?thesis
    using contains_is_substring [of "''ADA''" ?r "''email''" "''Ada@b.c''" plain_driver]
    by (simp add: plain_driver_def)
qed

theorem contains_underscore_matches_any_witness:
  "eval_pred plain_driver (example_contact 1 7 ''ada@b.c'' ''active'') (SLowerLike ''email'' ''%_%'') =
     Some True"
  using contains_underscore_matches_any [of "example_contact 1 7 ''ada@b.c'' ''active''" "''email''"
      "''ada@b.c''" plain_driver]
  by (simp add: example_contact_def row_get_def plain_driver_def py_lower_def)

end
