(* ===== verification/Actions.thy ===== *)
theory Actions
  imports Filters "HOL-Library.Multiset"
begin

text \<open>
  Bulk action handlers: \<open>app/domain/actions/\<close>. A handler is a record of what the class declares
  and overrides; what \<open>BulkActionHandler\<close> shares between handlers are functions on the parsed
  configuration. The statements a handler sends are modelled on the table itself
  (\<open>sql_update\<close>, \<open>sql_delete\<close>), with the checks PostgreSQL makes on the values. The locale
  \<open>action_handler\<close> is the contract the batch runner relies on: one outcome per row handed over,
  writes only to those rows, in the account and table of the context.
\<close>

section \<open>Outcomes\<close>

record entity_row =
  er_id :: uuid
  er_values :: pydict

definition er_get :: "entity_row \<Rightarrow> string \<Rightarrow> pyval" where
  "er_get r key = (case map_of (er_values r) key of None \<Rightarrow> PNone | Some v \<Rightarrow> v)"

record entity_outcome =
  eo_entity_id :: "uuid option"
  eo_status :: log_status
  eo_reason_code :: "log_reason option"
  eo_message :: "string option"
  eo_details :: "pydict option"

definition details_or_none :: "pydict \<Rightarrow> pydict option" where
  "details_or_none details = (if details = [] then None else Some details)"

definition outcome_success :: "uuid \<Rightarrow> log_reason \<Rightarrow> pydict \<Rightarrow> entity_outcome" where
  "outcome_success entity_id reason details =
     \<lparr> eo_entity_id = Some entity_id, eo_status = L_SUCCESS, eo_reason_code = Some reason,
       eo_message = None, eo_details = details_or_none details \<rparr>"

definition outcome_failed ::
  "uuid option \<Rightarrow> log_reason \<Rightarrow> string \<Rightarrow> pydict \<Rightarrow> entity_outcome" where
  "outcome_failed entity_id reason message details =
     \<lparr> eo_entity_id = entity_id, eo_status = L_FAILED, eo_reason_code = Some reason,
       eo_message = Some message, eo_details = details_or_none details \<rparr>"

definition outcome_skipped ::
  "uuid option \<Rightarrow> log_reason \<Rightarrow> string \<Rightarrow> pydict \<Rightarrow> entity_outcome" where
  "outcome_skipped entity_id reason message details =
     \<lparr> eo_entity_id = entity_id, eo_status = L_SKIPPED, eo_reason_code = Some reason,
       eo_message = Some message, eo_details = details_or_none details \<rparr>"

text \<open>The properties of \<open>BatchResult\<close>, whose only field is the list of outcomes.\<close>

definition count_status :: "log_status \<Rightarrow> entity_outcome list \<Rightarrow> nat" where
  "count_status s outcomes = length (filter (\<lambda>oc. eo_status oc = s) outcomes)"

definition result_success_count :: "entity_outcome list \<Rightarrow> nat" where
  "result_success_count outcomes = count_status L_SUCCESS outcomes"

definition result_failure_count :: "entity_outcome list \<Rightarrow> nat" where
  "result_failure_count outcomes = count_status L_FAILED outcomes"

definition result_skipped_count :: "entity_outcome list \<Rightarrow> nat" where
  "result_skipped_count outcomes = count_status L_SKIPPED outcomes"

definition result_processed_count :: "entity_outcome list \<Rightarrow> nat" where
  "result_processed_count outcomes = length outcomes"

lemmas result_counts = result_success_count_def result_failure_count_def result_skipped_count_def
  result_processed_count_def

lemma count_status_append [simp]: "count_status s (xs @ ys) = count_status s xs + count_status s ys"
  by (simp add: count_status_def)

lemma count_status_Nil [simp]: "count_status s [] = 0"
  by (simp add: count_status_def)

lemma result_counts_add:
  "result_success_count os + result_failure_count os + result_skipped_count os = result_processed_count os"
  unfolding result_counts count_status_def
proof (induction os)
  case (Cons x xs)
  then show ?case by (cases "eo_status x") auto
qed simp

section \<open>Configurations\<close>

record bulk_update_config =
  uc_updates :: pydict
  uc_filter :: "pydict option"
  uc_entity_ids :: "uuid list option"
  uc_deduplicate_by :: "string option"

record bulk_delete_config =
  dc_filter :: "pydict option"
  dc_entity_ids :: "uuid list option"
  dc_hard :: bool
  dc_deduplicate_by :: "string option"

datatype config = BulkUpdateConfig bulk_update_config | BulkDeleteConfig bulk_delete_config

text \<open>\<open>getattr(config, \<dots>, None)\<close>: both configurations have the three attributes.\<close>

fun selection_filters :: "config \<Rightarrow> pydict option" where
  "selection_filters (BulkUpdateConfig c) = uc_filter c"
| "selection_filters (BulkDeleteConfig c) = dc_filter c"

fun explicit_ids :: "config \<Rightarrow> uuid list option" where
  "explicit_ids (BulkUpdateConfig c) = uc_entity_ids c"
| "explicit_ids (BulkDeleteConfig c) = dc_entity_ids c"

fun dedup_field :: "config \<Rightarrow> string option" where
  "dedup_field (BulkUpdateConfig c) = uc_deduplicate_by c"
| "dedup_field (BulkDeleteConfig c) = dc_deduplicate_by c"

text \<open>The same model validator in both classes.\<close>

definition require_a_target_set :: "pydict option \<Rightarrow> uuid list option \<Rightarrow> unit result" where
  "require_a_target_set flt ids =
     (if flt = None \<and> ids = None then Inl (ValueError ''Provide either `entity_ids` or `filter`'')
      else if flt \<noteq> None \<and> ids \<noteq> None then
        Inl (ValueError ''Provide `entity_ids` or `filter`, not both.'')
      else if ids = Some [] then Inl (ValueError ''`entity_ids` must not be empty.'')
      else Inr ())"

text \<open>Reading the typed fields of a payload: \<open>dict[str, Any] | None\<close>, \<open>list[UUID] | None\<close>,
  \<open>str | None\<close> and \<open>bool\<close>, with the declared defaults.\<close>

definition field_dict_opt :: "pydict \<Rightarrow> string \<Rightarrow> pydict option result" where
  "field_dict_opt payload k =
     (case map_of payload k of
        None \<Rightarrow> Inr None
      | Some PNone \<Rightarrow> Inr None
      | Some (PDict d) \<Rightarrow> Inr (Some d)
      | Some _ \<Rightarrow> Inl (ValueError k))"

definition field_uuids_opt :: "pydantic \<Rightarrow> pydict \<Rightarrow> string \<Rightarrow> uuid list option result" where
  "field_uuids_opt P payload k =
     (case map_of payload k of
        None \<Rightarrow> Inr None
      | Some PNone \<Rightarrow> Inr None
      | Some (PList vs) \<Rightarrow>
          if list_all (\<lambda>v. pd_uuid P v \<noteq> None) vs then Inr (Some (map (\<lambda>v. the (pd_uuid P v)) vs))
          else Inl (ValueError k)
      | Some _ \<Rightarrow> Inl (ValueError k))"

definition field_str_opt :: "pydantic \<Rightarrow> pydict \<Rightarrow> string \<Rightarrow> string option result" where
  "field_str_opt P payload k =
     (case map_of payload k of
        None \<Rightarrow> Inr None
      | Some PNone \<Rightarrow> Inr None
      | Some v \<Rightarrow> (case pd_str P v of None \<Rightarrow> Inl (ValueError k) | Some s \<Rightarrow> Inr (Some s)))"

definition field_bool :: "pydantic \<Rightarrow> pydict \<Rightarrow> string \<Rightarrow> bool result" where
  "field_bool P payload k =
     (case map_of payload k of
        None \<Rightarrow> Inr False
      | Some v \<Rightarrow> (case pd_bool P v of None \<Rightarrow> Inl (ValueError k) | Some b \<Rightarrow> Inr b))"

definition extra_forbid :: "string list \<Rightarrow> pydict \<Rightarrow> unit result" where
  "extra_forbid names payload =
     (if list_all (\<lambda>(k, _). k \<in> set names) payload then Inr () else Inl (ValueError ''extra_forbidden''))"

definition rbind :: "'a result \<Rightarrow> ('a \<Rightarrow> 'b result) \<Rightarrow> 'b result" where
  "rbind r f = (case r of Inl e \<Rightarrow> Inl e | Inr a \<Rightarrow> f a)"

lemma rbind_simps [simp]: "rbind (Inl e) f = Inl e" "rbind (Inr a) f = f a"
  by (simp_all add: rbind_def)

lemma rbind_Inr: "rbind r f = Inr b \<longleftrightarrow> (\<exists>a. r = Inr a \<and> f a = Inr b)"
  by (cases r) auto

text \<open>\<open>BulkUpdateConfig(**payload)\<close> and \<open>BulkDeleteConfig(**payload)\<close>; pydantic's error is a
  subclass of \<open>ValueError\<close>.\<close>

definition parse_update_config :: "pydantic \<Rightarrow> pydict \<Rightarrow> config result" where
  "parse_update_config P payload =
     rbind (extra_forbid [''updates'', ''filter'', ''entity_ids'', ''deduplicate_by''] payload) (\<lambda>_.
     rbind (case map_of payload ''updates'' of Some (PDict u) \<Rightarrow> Inr u | _ \<Rightarrow> Inl (ValueError ''updates'')) (\<lambda>u.
     rbind (field_dict_opt payload ''filter'') (\<lambda>flt.
     rbind (field_uuids_opt P payload ''entity_ids'') (\<lambda>ids.
     rbind (field_str_opt P payload ''deduplicate_by'') (\<lambda>dd.
     rbind (require_a_target_set flt ids) (\<lambda>_.
       Inr (BulkUpdateConfig \<lparr> uc_updates = u, uc_filter = flt, uc_entity_ids = ids,
              uc_deduplicate_by = dd \<rparr>)))))))"

definition parse_delete_config :: "pydantic \<Rightarrow> pydict \<Rightarrow> config result" where
  "parse_delete_config P payload =
     rbind (extra_forbid [''filter'', ''entity_ids'', ''hard'', ''deduplicate_by''] payload) (\<lambda>_.
     rbind (field_dict_opt payload ''filter'') (\<lambda>flt.
     rbind (field_uuids_opt P payload ''entity_ids'') (\<lambda>ids.
     rbind (field_bool P payload ''hard'') (\<lambda>hard.
     rbind (field_str_opt P payload ''deduplicate_by'') (\<lambda>dd.
     rbind (require_a_target_set flt ids) (\<lambda>_.
       Inr (BulkDeleteConfig \<lparr> dc_filter = flt, dc_entity_ids = ids, dc_hard = hard,
              dc_deduplicate_by = dd \<rparr>)))))))"

text \<open>\<open>model_dump(mode="json")\<close>: what is stored with the action and parsed again by the workers.\<close>

definition dump_opt :: "('a \<Rightarrow> pyval) \<Rightarrow> 'a option \<Rightarrow> pyval" where
  "dump_opt f x = (case x of None \<Rightarrow> PNone | Some a \<Rightarrow> f a)"

fun model_dump :: "pydantic \<Rightarrow> config \<Rightarrow> pydict" where
  "model_dump P (BulkUpdateConfig c) =
     [(''updates'', PDict (uc_updates c)), (''filter'', dump_opt PDict (uc_filter c)),
      (''entity_ids'', dump_opt (\<lambda>ids. PList (map (pd_dump_uuid P) ids)) (uc_entity_ids c)),
      (''deduplicate_by'', dump_opt PStr (uc_deduplicate_by c))]"
| "model_dump P (BulkDeleteConfig c) =
     [(''filter'', dump_opt PDict (dc_filter c)),
      (''entity_ids'', dump_opt (\<lambda>ids. PList (map (pd_dump_uuid P) ids)) (dc_entity_ids c)),
      (''hard'', PBool (dc_hard c)), (''deduplicate_by'', dump_opt PStr (dc_deduplicate_by c))]"

section \<open>The statements of the handlers\<close>

text \<open>\<open>UPDATE table SET vals WHERE id = ANY(ids) AND account_id = account RETURNING id\<close>. The values
  are bound before anything is written, and a NULL for a NOT NULL column is an error as soon as
  one row is hit.\<close>

definition targeted :: "uuid list \<Rightarrow> uuid \<Rightarrow> crm_row \<Rightarrow> bool" where
  "targeted ids account_id r \<longleftrightarrow> row_id r \<in> set ids \<and> row_account_id r = account_id"

definition column_nullable :: "descriptor \<Rightarrow> string \<Rightarrow> bool" where
  "column_nullable ent name =
     (case find (\<lambda>c. col_name c = name) (ent_columns ent) of None \<Rightarrow> False | Some c \<Rightarrow> col_nullable c)"

definition sql_update ::
  "sql_driver \<Rightarrow> descriptor \<Rightarrow> uuid list \<Rightarrow> uuid \<Rightarrow> pydict \<Rightarrow> db \<Rightarrow> (uuid list \<times> db) result" where
  "sql_update D ent ids account_id vals d =
     (let rows = db_crm d (ent_table ent);
          hit = filter (targeted ids account_id) rows;
          nulls = filter (\<lambda>(k, v). v = PNone \<and> \<not> column_nullable ent k) vals
      in if \<not> list_all (\<lambda>(k, v). binds D ent k v) vals then Inl (DriverError ''cannot bind a parameter'')
         else if hit \<noteq> [] \<and> nulls \<noteq> [] then Inl (NotNullViolation (fst (hd nulls)))
         else Inr (map row_id hit,
           d\<lparr> db_crm := (db_crm d)(ent_table ent :=
                upd_where (targeted ids account_id) (row_set vals) rows) \<rparr>))"

definition sql_delete :: "descriptor \<Rightarrow> uuid list \<Rightarrow> uuid \<Rightarrow> db \<Rightarrow> uuid list \<times> db" where
  "sql_delete ent ids account_id d =
     (let rows = db_crm d (ent_table ent)
      in (map row_id (filter (targeted ids account_id) rows),
          d\<lparr> db_crm := (db_crm d)(ent_table ent :=
               filter (\<lambda>r. \<not> targeted ids account_id r) rows) \<rparr>))"

record action_context =
  ctx_entity :: descriptor
  ctx_account_id :: uuid
  ctx_bulk_action_id :: uuid
  ctx_batch_id :: uuid
  ctx_config :: config

text \<open>One outcome per id sent to the statement, by whether RETURNING gave it back.\<close>

definition report :: "(uuid \<Rightarrow> entity_outcome) \<Rightarrow> string \<Rightarrow> uuid list \<Rightarrow> uuid list \<Rightarrow> entity_outcome list" where
  "report ok missing hit ids =
     map (\<lambda>i. if i \<in> set hit then ok i
               else outcome_failed (Some i) R_ENTITY_NOT_FOUND missing []) ids"

section \<open>Bulk update\<close>

definition holds_values :: "pydict \<Rightarrow> entity_row \<Rightarrow> bool" where
  "holds_values vals row \<longleftrightarrow> list_all (\<lambda>(k, v). py_eq (er_get row k) v) vals"

definition update_validate_config :: "pydantic \<Rightarrow> descriptor \<Rightarrow> pydict \<Rightarrow> config result" where
  "update_validate_config P ent payload =
     (case parse_update_config P payload of
        Inr (BulkUpdateConfig c) \<Rightarrow>
          rbind (validate_updates P ent (uc_updates c)) (\<lambda>coerced.
          rbind (validate_filter ent (uc_filter c)) (\<lambda>_.
            (case uc_deduplicate_by c of
               None \<Rightarrow> Inr (BulkUpdateConfig (c\<lparr> uc_updates := coerced \<rparr>))
             | Some f \<Rightarrow>
                 if f \<noteq> [] \<and> f \<notin> set (map fst (ent_updatable_fields ent))
                 then Inl (ValidationError (CannotDeduplicateBy f))
                 else if f \<noteq> [] \<and> f \<notin> set (ent_dedup_fields ent)
                 then Inl (ValidationError (NotADedupKey f))
                 else Inr (BulkUpdateConfig (c\<lparr> uc_updates := coerced \<rparr>)))))
      | _ \<Rightarrow> Inl (ValidationError (InvalidPayload ''update'')))"

definition update_execute ::
  "sql_driver \<Rightarrow> time \<Rightarrow> action_context \<Rightarrow> entity_row list \<Rightarrow> db \<Rightarrow> (entity_outcome list \<times> db) result" where
  "update_execute D now ctx rows d =
     (if rows = [] then Inr ([], d)
      else case ctx_config ctx of
          BulkDeleteConfig _ \<Rightarrow> Inl (RuntimeError ''config has no attribute updates'')
        | BulkUpdateConfig c \<Rightarrow>
            (let ent = ctx_entity ctx;
                 skipped = map (\<lambda>row. outcome_skipped (Some (er_id row)) R_NO_CHANGE
                     ''Entity already holds the requested values.'' [])
                   (filter (holds_values (uc_updates c)) rows);
                 to_write = map er_id (filter (\<lambda>row. \<not> holds_values (uc_updates c) row) rows);
                 values = (if ''updated_at'' \<in> set (column_names ent)
                           then dict_set ''updated_at'' (PTime now) (uc_updates c) else uc_updates c)
             in if to_write = [] then Inr (skipped, d)
                else case sql_update D ent to_write (ctx_account_id ctx) values d of
                    Inl e \<Rightarrow> Inl e
                  | Inr (updated, d') \<Rightarrow>
                      Inr (skipped @ report
                             (\<lambda>i. outcome_success i R_UPDATED [(''updates'', PDict (uc_updates c))])
                             ''Entity no longer exists or left the target set before the update ran.''
                             updated to_write, d')))"

section \<open>Bulk delete\<close>

definition delete_validate_config :: "pydantic \<Rightarrow> descriptor \<Rightarrow> pydict \<Rightarrow> config result" where
  "delete_validate_config P ent payload =
     (case parse_delete_config P payload of
        Inr (BulkDeleteConfig c) \<Rightarrow>
          rbind (validate_filter ent (dc_filter c)) (\<lambda>_.
            if \<not> dc_hard c \<and> ent_soft_delete_column ent = None
            then Inl (ValidationError NoSoftDeleteColumn)
            else case dc_deduplicate_by c of
                None \<Rightarrow> Inr (BulkDeleteConfig c)
              | Some f \<Rightarrow>
                  if f \<noteq> [] \<and> f \<notin> set (ent_dedup_fields ent) then Inl (ValidationError (NotADedupKey f))
                  else Inr (BulkDeleteConfig c))
      | _ \<Rightarrow> Inl (ValidationError (InvalidPayload ''delete'')))"

definition delete_execute ::
  "sql_driver \<Rightarrow> time \<Rightarrow> action_context \<Rightarrow> entity_row list \<Rightarrow> db \<Rightarrow> (entity_outcome list \<times> db) result" where
  "delete_execute D now ctx rows d =
     (if rows = [] then Inr ([], d)
      else case ctx_config ctx of
          BulkUpdateConfig _ \<Rightarrow> Inl (RuntimeError ''config has no attribute hard'')
        | BulkDeleteConfig c \<Rightarrow>
            (let ent = ctx_entity ctx;
                 ids = map er_id rows;
                 affected =
                   (case (dc_hard c, ent_soft_delete_column ent) of
                      (False, Some col) \<Rightarrow>
                        sql_update D ent ids (ctx_account_id ctx)
                          (if ''updated_at'' \<in> set (column_names ent)
                           then dict_set ''updated_at'' (PTime now) [(col, PTime now)]
                           else [(col, PTime now)]) d
                    | _ \<Rightarrow> Inr (sql_delete ent ids (ctx_account_id ctx) d))
             in case affected of
                  Inl e \<Rightarrow> Inl e
                | Inr (hit, d') \<Rightarrow>
                    Inr (report (\<lambda>i. outcome_success i R_DELETED [(''hard'', PBool (dc_hard c))])
                           ''Entity no longer exists or left the target set before the delete ran.''
                           hit ids, d')))"

section \<open>Handlers and their registry\<close>

text \<open>\<open>h_class\<close> is the identity of the handler's class, which the registry compares; no list of
  supported entities means \<open>"*"\<close>.\<close>

record handler =
  h_class :: string
  h_action_type :: string
  h_description :: string
  h_supported_entities :: "string list option"
  h_include_deleted :: bool
  h_config_model :: "pydantic \<Rightarrow> pydict \<Rightarrow> config result"
  h_validate_config :: "pydantic \<Rightarrow> descriptor \<Rightarrow> pydict \<Rightarrow> config result"
  h_execute :: "sql_driver \<Rightarrow> time \<Rightarrow> action_context \<Rightarrow> entity_row list \<Rightarrow> db \<Rightarrow>
    (entity_outcome list \<times> db) result"

definition update_handler :: handler where
  "update_handler = \<lparr> h_class = ''BulkUpdateAction'', h_action_type = ''update'',
     h_description = ''Set one or more fields to the same value across every entity in the target set.'',
     h_supported_entities = None, h_include_deleted = False, h_config_model = parse_update_config,
     h_validate_config = update_validate_config, h_execute = update_execute \<rparr>"

definition delete_handler :: handler where
  "delete_handler = \<lparr> h_class = ''BulkDeleteAction'', h_action_type = ''delete'',
     h_description = ''Soft-delete (or, with `hard: true`, permanently remove) every entity in the target set.'',
     h_supported_entities = None, h_include_deleted = False, h_config_model = parse_delete_config,
     h_validate_config = delete_validate_config, h_execute = delete_execute \<rparr>"

definition supports :: "handler \<Rightarrow> string \<Rightarrow> bool" where
  "supports h entity_name =
     (case h_supported_entities h of None \<Rightarrow> True | Some names \<Rightarrow> entity_name \<in> set names)"

type_synonym action_registry = "(string \<times> handler) list"

definition register_action :: "handler \<Rightarrow> action_registry \<Rightarrow> action_registry result" where
  "register_action h reg =
     (if h_action_type h = [] then Inl (RuntimeError ''must define an `action_type`.'')
      else case map_of reg (h_action_type h) of
          Some h' \<Rightarrow>
            if h_class h' \<noteq> h_class h then Inl (RuntimeError ''already registered'')
            else Inr (dict_set (h_action_type h) h reg)
        | None \<Rightarrow> Inr (dict_set (h_action_type h) h reg))"

definition get_action :: "action_registry \<Rightarrow> string \<Rightarrow> string option \<Rightarrow> handler result" where
  "get_action reg action_type entity_name =
     (case map_of reg action_type of
        None \<Rightarrow> Inl (ValidationError (UnknownActionType action_type))
      | Some h \<Rightarrow>
          (case entity_name of
             None \<Rightarrow> Inr h
           | Some n \<Rightarrow> if supports h n then Inr h
                        else Inl (ValidationError (ActionDoesNotSupport action_type n))))"

definition discover_actions :: "action_registry result" where
  "discover_actions = discover register_action [delete_handler, update_handler] []"

definition shipped_actions :: action_registry where
  "shipped_actions = [(''delete'', delete_handler), (''update'', update_handler)]"

lemma discover_actions_shipped: "discover_actions = Inr shipped_actions"
  by (simp add: discover_actions_def register_action_def shipped_actions_def delete_handler_def
      update_handler_def)

lemma shipped_action_cases:
  "get_action shipped_actions t n = Inr h \<Longrightarrow> h = update_handler \<or> h = delete_handler"
  by (auto simp: get_action_def shipped_actions_def split: option.splits if_splits)

section \<open>What the statements do\<close>

lemma sql_update_InrD:
  assumes "sql_update D ent ids acc vals d = Inr (hit, d')"
  shows "hit = map row_id (filter (targeted ids acc) (db_crm d (ent_table ent)))"
    and "d' = d\<lparr> db_crm := (db_crm d)(ent_table ent :=
           upd_where (targeted ids acc) (row_set vals) (db_crm d (ent_table ent))) \<rparr>"
  using assms by (auto simp: sql_update_def Let_def split: if_splits)

text \<open>The effect both statements have in common, seen from the rest of the platform.\<close>

definition writes_within :: "string \<Rightarrow> uuid list \<Rightarrow> uuid \<Rightarrow> db \<Rightarrow> db \<Rightarrow> bool" where
  "writes_within t ids acc d d' \<longleftrightarrow>
     d' = d\<lparr> db_crm := db_crm d' \<rparr> \<and>
     (\<forall>t'. t' \<noteq> t \<longrightarrow> db_crm d' t' = db_crm d t') \<and>
     filter (\<lambda>r. \<not> targeted ids acc r) (db_crm d' t) = filter (\<lambda>r. \<not> targeted ids acc r) (db_crm d t) \<and>
     (\<forall>t'. distinct (map row_id (db_crm d t')) \<longrightarrow> distinct (map row_id (db_crm d' t'))) \<and>
     (\<forall>r' \<in> set (db_crm d' t). \<exists>r \<in> set (db_crm d t).
        row_id r = row_id r' \<and> row_account_id r = row_account_id r')"

lemma targeted_row_set [simp]: "targeted ids acc (row_set vals r) = targeted ids acc r"
  by (simp add: targeted_def)

interpretation row_update: keyed_update row_id "row_set vals" for vals
  by unfold_locales simp

lemma writes_within_refl: "writes_within t ids acc d d"
  by (auto simp: writes_within_def)

lemma filter_not_upd_where:
  "(\<And>r. p (f r) = p r) \<Longrightarrow> filter (\<lambda>r. \<not> p r) (upd_where p f rows) = filter (\<lambda>r. \<not> p r) rows"
  by (induction rows) auto

lemma sql_update_within:
  assumes "sql_update D ent ids acc vals d = Inr (hit, d')"
  shows "writes_within (ent_table ent) ids acc d d'"
  unfolding sql_update_InrD(2) [OF assms] writes_within_def
  by (auto simp: row_update.keys_kept filter_not_upd_where set_upd_where)

lemma sql_delete_within:
  "sql_delete ent ids acc d = (hit, d') \<Longrightarrow> writes_within (ent_table ent) ids acc d d'"
  by (auto simp: sql_delete_def writes_within_def Let_def distinct_map_filter)

lemma writes_within_mono:
  assumes "writes_within t ids acc d d'" and "set ids \<subseteq> set ids'"
  shows "writes_within t ids' acc d d'"
proof -
  have imp: "\<not> targeted ids' acc r \<Longrightarrow> \<not> targeted ids acc r" for r
    using assms(2) by (auto simp: targeted_def)
  have "filter (\<lambda>r. \<not> targeted ids' acc r) xs =
      filter (\<lambda>r. \<not> targeted ids' acc r) (filter (\<lambda>r. \<not> targeted ids acc r) xs)" for xs
    using imp by (auto intro: filter_cong)
  then have "filter (\<lambda>r. \<not> targeted ids' acc r) (db_crm d' t) = filter (\<lambda>r. \<not> targeted ids' acc r) (db_crm d t)"
    using assms(1) by (metis (no_types, lifting) writes_within_def)
  with assms(1) show ?thesis by (simp add: writes_within_def)
qed

lemma writes_within_other_tenant:
  assumes "writes_within t ids acc d d'" and "acc' \<noteq> acc"
  shows "filter (\<lambda>r. row_account_id r = acc') (db_crm d' u) = filter (\<lambda>r. row_account_id r = acc') (db_crm d u)"
proof (cases "u = t")
  case True
  have sub: "filter (\<lambda>r. row_account_id r = acc') xs =
      filter (\<lambda>r. row_account_id r = acc') (filter (\<lambda>r. \<not> targeted ids acc r) xs)" for xs
    using assms(2) by (auto simp: targeted_def intro!: filter_cong)
  have "filter (\<lambda>r. \<not> targeted ids acc r) (db_crm d' t) = filter (\<lambda>r. \<not> targeted ids acc r) (db_crm d t)"
    using assms(1) by (simp add: writes_within_def)
  then show ?thesis unfolding True by (subst (1 2) sub) simp
next
  case False
  with assms(1) show ?thesis by (simp add: writes_within_def)
qed

lemma report_ids: "(\<And>i. eo_entity_id (ok i) = Some i) \<Longrightarrow> map eo_entity_id (report ok msg hit ids) = map Some ids"
  by (simp add: report_def outcome_failed_def)

lemma outcome_sel [simp]:
  "eo_entity_id (outcome_success i r det) = Some i" "eo_status (outcome_success i r det) = L_SUCCESS"
  "eo_entity_id (outcome_failed j r m det) = j" "eo_status (outcome_failed j r m det) = L_FAILED"
  "eo_entity_id (outcome_skipped j r m det) = j" "eo_status (outcome_skipped j r m det) = L_SKIPPED"
  by (simp_all add: outcome_success_def outcome_failed_def outcome_skipped_def)

section \<open>The contract of a handler\<close>

locale action_handler =
  fixes h :: handler and D :: sql_driver and now :: time
  assumes one_outcome: "h_execute h D now ctx rows d = Inr (outs, d') \<Longrightarrow>
      mset (map eo_entity_id outs) = mset (map (\<lambda>r. Some (er_id r)) rows)"
    and within: "h_execute h D now ctx rows d = Inr (outs, d') \<Longrightarrow>
      writes_within (ent_table (ctx_entity ctx)) (map er_id rows) (ctx_account_id ctx) d d'"
    and success_hit: "h_execute h D now ctx rows d = Inr (outs, d') \<Longrightarrow> oc \<in> set outs \<Longrightarrow>
      eo_status oc = L_SUCCESS \<Longrightarrow>
      \<exists>r \<in> set (db_crm d (ent_table (ctx_entity ctx))).
        eo_entity_id oc = Some (row_id r) \<and> row_account_id r = ctx_account_id ctx"
begin

lemma outcome_per_row:
  "h_execute h D now ctx rows d = Inr (outs, d') \<Longrightarrow> length outs = length rows"
  by (drule one_outcome) (metis length_map size_mset)

lemma control_plane_untouched:
  assumes "h_execute h D now ctx rows d = Inr (outs, d')"
  shows "db_accounts d' = db_accounts d" "db_actions d' = db_actions d" "db_batches d' = db_batches d"
    "db_logs d' = db_logs d" "db_dedup d' = db_dedup d"
proof -
  have "d' = d\<lparr> db_crm := db_crm d' \<rparr>" using within [OF assms] by (simp add: writes_within_def)
  then show "db_accounts d' = db_accounts d" "db_actions d' = db_actions d" "db_batches d' = db_batches d"
    "db_logs d' = db_logs d" "db_dedup d' = db_dedup d" by (metis db.select_convs db.update_convs db.surjective)+
qed

lemma other_tenant_kept:
  "h_execute h D now ctx rows d = Inr (outs, d') \<Longrightarrow> acc \<noteq> ctx_account_id ctx \<Longrightarrow>
   filter (\<lambda>r. row_account_id r = acc) (db_crm d' t) = filter (\<lambda>r. row_account_id r = acc) (db_crm d t)"
  by (rule writes_within_other_tenant [OF within])

end

text \<open>What a run of the update handler did: the rows split by whether they already held the
  values, and one statement for the others.\<close>

definition with_updated_at :: "descriptor \<Rightarrow> time \<Rightarrow> pydict \<Rightarrow> pydict" where
  "with_updated_at ent now vals =
     (if ''updated_at'' \<in> set (column_names ent) then dict_set ''updated_at'' (PTime now) vals else vals)"

lemma update_execute_InrE:
  assumes "update_execute D now ctx rows d = Inr (outs, d')" and "rows \<noteq> []"
  obtains c where "ctx_config ctx = BulkUpdateConfig c"
    and "list_all (holds_values (uc_updates c)) rows" and "d' = d"
    and "outs = map (\<lambda>row. outcome_skipped (Some (er_id row)) R_NO_CHANGE
       ''Entity already holds the requested values.'' []) rows"
  | c hit where "ctx_config ctx = BulkUpdateConfig c"
    and "\<not> list_all (holds_values (uc_updates c)) rows"
    and "sql_update D (ctx_entity ctx) (map er_id (filter (\<lambda>row. \<not> holds_values (uc_updates c) row) rows))
       (ctx_account_id ctx) (with_updated_at (ctx_entity ctx) now (uc_updates c)) d = Inr (hit, d')"
    and "outs = map (\<lambda>row. outcome_skipped (Some (er_id row)) R_NO_CHANGE
         ''Entity already holds the requested values.'' []) (filter (holds_values (uc_updates c)) rows) @
       report (\<lambda>i. outcome_success i R_UPDATED [(''updates'', PDict (uc_updates c))])
         ''Entity no longer exists or left the target set before the update ran.''
         hit (map er_id (filter (\<lambda>row. \<not> holds_values (uc_updates c) row) rows))"
proof (cases "ctx_config ctx")
  case (BulkDeleteConfig c)
  with assms show ?thesis by (simp add: update_execute_def)
next
  case (BulkUpdateConfig c)
  show ?thesis
  proof (cases "list_all (holds_values (uc_updates c)) rows")
    case True
    then have "filter (\<lambda>row. \<not> holds_values (uc_updates c) row) rows = []"
      and "filter (holds_values (uc_updates c)) rows = rows"
      by (auto simp: list_all_iff filter_empty_conv filter_id_conv)
    with assms BulkUpdateConfig show ?thesis
      by (intro that(1)) (auto simp: update_execute_def True)
  next
    case False
    then have "filter (\<lambda>row. \<not> holds_values (uc_updates c) row) rows \<noteq> []"
      by (auto simp: list_all_iff filter_empty_conv)
    with assms BulkUpdateConfig obtain hit where
      "sql_update D (ctx_entity ctx) (map er_id (filter (\<lambda>row. \<not> holds_values (uc_updates c) row) rows))
        (ctx_account_id ctx) (with_updated_at (ctx_entity ctx) now (uc_updates c)) d = Inr (hit, d')"
      and "outs = map (\<lambda>row. outcome_skipped (Some (er_id row)) R_NO_CHANGE
         ''Entity already holds the requested values.'' []) (filter (holds_values (uc_updates c)) rows) @
       report (\<lambda>i. outcome_success i R_UPDATED [(''updates'', PDict (uc_updates c))])
         ''Entity no longer exists or left the target set before the update ran.''
         hit (map er_id (filter (\<lambda>row. \<not> holds_values (uc_updates c) row) rows))"
      by (auto simp: update_execute_def with_updated_at_def Let_def split: sum.splits)
    with BulkUpdateConfig False show ?thesis by (rule that(2))
  qed
qed

lemma report_success:
  "oc \<in> set (report ok msg hit ids) \<Longrightarrow> eo_status oc = L_SUCCESS \<Longrightarrow> \<exists>i \<in> set hit. oc = ok i \<and> i \<in> set ids"
  by (auto simp: report_def split: if_splits)

lemma mset_split: "mset (map f (filter p xs)) + mset (map f (filter (\<lambda>x. \<not> p x) xs)) = mset (map f xs)"
  by (induction xs) auto

interpretation upd: action_handler update_handler D now for D now
proof unfold_locales
  fix ctx rows d outs d'
  assume "h_execute update_handler D now ctx rows d = Inr (outs, d')"
  then have ex: "update_execute D now ctx rows d = Inr (outs, d')" by (simp add: update_handler_def)
  have triv: "rows = [] \<Longrightarrow> outs = [] \<and> d' = d" using ex by (auto simp: update_execute_def)
  show "mset (map eo_entity_id outs) = mset (map (\<lambda>r. Some (er_id r)) rows)"
  proof (cases "rows = []")
    case False
    from ex this show ?thesis
    proof (cases rule: update_execute_InrE)
      case (2 c hit)
      have "map eo_entity_id outs = map (\<lambda>r. Some (er_id r)) (filter (holds_values (uc_updates c)) rows) @
          map (\<lambda>r. Some (er_id r)) (filter (\<lambda>r. \<not> holds_values (uc_updates c) r) rows)"
        by (simp add: 2(4) report_ids comp_def)
      then show ?thesis by (simp only: mset_append mset_split)
    qed (simp add: comp_def)
  qed (simp add: triv)
  show "writes_within (ent_table (ctx_entity ctx)) (map er_id rows) (ctx_account_id ctx) d d'"
  proof (cases "rows = []")
    case False
    from ex this show ?thesis
    proof (cases rule: update_execute_InrE)
      case (2 c hit)
      show ?thesis by (rule writes_within_mono [OF sql_update_within [OF 2(3)]]) auto
    qed (simp add: writes_within_refl)
  qed (simp add: triv writes_within_refl)
next
  fix ctx rows d outs d' oc
  assume "h_execute update_handler D now ctx rows d = Inr (outs, d')"
    and oc: "oc \<in> set outs" "eo_status oc = L_SUCCESS"
  then have ex: "update_execute D now ctx rows d = Inr (outs, d')" by (simp add: update_handler_def)
  have "rows \<noteq> []" using ex oc(1) by (auto simp: update_execute_def)
  with ex show "\<exists>r \<in> set (db_crm d (ent_table (ctx_entity ctx))).
      eo_entity_id oc = Some (row_id r) \<and> row_account_id r = ctx_account_id ctx"
  proof (cases rule: update_execute_InrE)
    case (2 c hit)
    from oc obtain i where "i \<in> set hit" and "eo_entity_id oc = Some i"
      by (auto simp: 2(4) dest: report_success)
    then show ?thesis by (auto simp: sql_update_InrD(1) [OF 2(3)] targeted_def)
  qed (use oc in auto)
qed

lemma delete_execute_InrE:
  assumes "delete_execute D now ctx rows d = Inr (outs, d')" and "rows \<noteq> []"
  obtains c hit where "ctx_config ctx = BulkDeleteConfig c"
    and "outs = report (\<lambda>i. outcome_success i R_DELETED [(''hard'', PBool (dc_hard c))])
       ''Entity no longer exists or left the target set before the delete ran.'' hit (map er_id rows)"
    and "hit = map row_id (filter (targeted (map er_id rows) (ctx_account_id ctx))
       (db_crm d (ent_table (ctx_entity ctx))))"
    and "dc_hard c \<or> ent_soft_delete_column (ctx_entity ctx) = None \<Longrightarrow>
       sql_delete (ctx_entity ctx) (map er_id rows) (ctx_account_id ctx) d = (hit, d')"
    and "\<And>col. \<not> dc_hard c \<Longrightarrow> ent_soft_delete_column (ctx_entity ctx) = Some col \<Longrightarrow>
       sql_update D (ctx_entity ctx) (map er_id rows) (ctx_account_id ctx)
         (with_updated_at (ctx_entity ctx) now [(col, PTime now)]) d = Inr (hit, d')"
proof (cases "ctx_config ctx")
  case (BulkUpdateConfig c)
  with assms show ?thesis by (simp add: delete_execute_def)
next
  case (BulkDeleteConfig c)
  show ?thesis
  proof (cases "dc_hard c \<or> ent_soft_delete_column (ctx_entity ctx) = None")
    case True
    with assms BulkDeleteConfig show ?thesis
      by (intro that [of c]) (auto simp: delete_execute_def sql_delete_def Let_def split: bool.splits option.splits)
  next
    case False
    then obtain col where "ent_soft_delete_column (ctx_entity ctx) = Some col" and "\<not> dc_hard c" by auto
    with assms BulkDeleteConfig obtain hit where u: "sql_update D (ctx_entity ctx) (map er_id rows)
        (ctx_account_id ctx) (with_updated_at (ctx_entity ctx) now [(col, PTime now)]) d = Inr (hit, d')"
      and "outs = report (\<lambda>i. outcome_success i R_DELETED [(''hard'', PBool (dc_hard c))])
       ''Entity no longer exists or left the target set before the delete ran.'' hit (map er_id rows)"
      by (auto simp: delete_execute_def with_updated_at_def Let_def split: sum.splits)
    with False BulkDeleteConfig \<open>ent_soft_delete_column _ = Some col\<close> show ?thesis
      by (intro that [of c hit]) (auto simp: sql_update_InrD(1) [OF u])
  qed
qed

interpretation del: action_handler delete_handler D now for D now
proof unfold_locales
  fix ctx rows d outs d'
  assume "h_execute delete_handler D now ctx rows d = Inr (outs, d')"
  then have ex: "delete_execute D now ctx rows d = Inr (outs, d')" by (simp add: delete_handler_def)
  have triv: "rows = [] \<Longrightarrow> outs = [] \<and> d' = d" using ex by (auto simp: delete_execute_def)
  show "mset (map eo_entity_id outs) = mset (map (\<lambda>r. Some (er_id r)) rows)"
  proof (cases "rows = []")
    case False
    from ex this show ?thesis
      by (cases rule: delete_execute_InrE) (simp add: report_ids comp_def flip: mset_map)
  qed (simp add: triv)
  show "writes_within (ent_table (ctx_entity ctx)) (map er_id rows) (ctx_account_id ctx) d d'"
  proof (cases "rows = []")
    case False
    from ex this show ?thesis
    proof (cases rule: delete_execute_InrE)
      case (1 c hit)
      then show ?thesis
        by (cases "ent_soft_delete_column (ctx_entity ctx)"; cases "dc_hard c")
          (auto dest: sql_update_within sql_delete_within)
    qed
  qed (simp add: triv writes_within_refl)
next
  fix ctx rows d outs d' oc
  assume "h_execute delete_handler D now ctx rows d = Inr (outs, d')"
    and oc: "oc \<in> set outs" "eo_status oc = L_SUCCESS"
  then have ex: "delete_execute D now ctx rows d = Inr (outs, d')" by (simp add: delete_handler_def)
  have "rows \<noteq> []" using ex oc(1) by (auto simp: delete_execute_def)
  with ex show "\<exists>r \<in> set (db_crm d (ent_table (ctx_entity ctx))).
      eo_entity_id oc = Some (row_id r) \<and> row_account_id r = ctx_account_id ctx"
  proof (cases rule: delete_execute_InrE)
    case (1 c hit)
    from oc obtain i where "i \<in> set hit" and "eo_entity_id oc = Some i"
      by (auto simp: 1(2) dest: report_success)
    then show ?thesis by (auto simp: 1(3) targeted_def)
  qed
qed

section \<open>Properties of the handlers\<close>

lemma shipped_handler: "get_action shipped_actions t n = Inr h \<Longrightarrow> action_handler h D now"
  using shipped_action_cases upd.action_handler_axioms del.action_handler_axioms by blast

text \<open>
  (C17) Every handler the registry offers reports exactly one outcome for each row it was given,
  and whatever it writes stays in the table of its entity and in the account of its context:
  other tables, other accounts' rows and the platform's own tables are left as they were.
\<close>

theorem shipped_handlers_contract:
  assumes "get_action shipped_actions t n = Inr h"
    and "h_execute h D now ctx rows d = Inr (outs, d')"
  shows "mset (map eo_entity_id outs) = mset (map (\<lambda>r. Some (er_id r)) rows) \<and>
    (\<forall>acc t'. acc \<noteq> ctx_account_id ctx \<longrightarrow>
       filter (\<lambda>r. row_account_id r = acc) (db_crm d' t') = filter (\<lambda>r. row_account_id r = acc) (db_crm d t')) \<and>
    (\<forall>t'. t' \<noteq> ent_table (ctx_entity ctx) \<longrightarrow> db_crm d' t' = db_crm d t') \<and>
    db_accounts d' = db_accounts d \<and> db_actions d' = db_actions d \<and> db_batches d' = db_batches d \<and>
    db_logs d' = db_logs d \<and> db_dedup d' = db_dedup d"
proof -
  from shipped_handler [OF assms(1)] have "action_handler h D now" .
  then show ?thesis
    using action_handler.one_outcome [OF _ assms(2)] action_handler.other_tenant_kept [OF _ assms(2)]
      action_handler.within [OF _ assms(2)] action_handler.control_plane_untouched [OF _ assms(2)]
    by (simp add: writes_within_def)
qed

lemma map_of_with_updated_at:
  "k \<noteq> ''updated_at'' \<Longrightarrow> map_of (with_updated_at ent now vals) k = map_of vals k"
  by (simp add: with_updated_at_def)

text \<open>
  An update reported as successful did happen: the entity exists in the account and holds
  every requested value.
\<close>

theorem update_success_holds_values:
  assumes "update_execute D now ctx rows d = Inr (outs, d')"
    and "ctx_config ctx = BulkUpdateConfig c" and "map_of (uc_updates c) k = Some v"
    and "k \<notin> {''id'', ''account_id'', ''updated_at''}"
    and "oc \<in> set outs" and "eo_status oc = L_SUCCESS"
  shows "\<exists>r \<in> set (db_crm d' (ent_table (ctx_entity ctx))).
    eo_entity_id oc = Some (row_id r) \<and> row_account_id r = ctx_account_id ctx \<and> row_get r k = v"
proof -
  have "rows \<noteq> []" using assms(1,5) by (auto simp: update_execute_def)
  with assms(1) show ?thesis
  proof (cases rule: update_execute_InrE)
    case (2 c' hit)
    let ?vals = "with_updated_at (ctx_entity ctx) now (uc_updates c')"
    from assms(5,6) obtain i where i: "i \<in> set hit" "eo_entity_id oc = Some i"
      by (auto simp: 2(4) dest: report_success)
    then obtain r where r: "r \<in> set (db_crm d (ent_table (ctx_entity ctx)))" "i = row_id r"
      and tg: "targeted (map er_id (filter (\<lambda>row. \<not> holds_values (uc_updates c') row) rows)) (ctx_account_id ctx) r"
      by (auto simp: sql_update_InrD(1) [OF 2(3)])
    then have "row_set ?vals r \<in> set (db_crm d' (ent_table (ctx_entity ctx)))"
      by (auto simp: sql_update_InrD(2) [OF 2(3)] set_upd_where image_iff)
    moreover have "row_get (row_set ?vals r) k = v"
      using assms(2-4) 2(1) by (simp add: row_get_set map_of_with_updated_at)
    ultimately show ?thesis
      using tg i r(2) by (intro bexI [of _ "row_set ?vals r"]) (auto simp: targeted_def)
  qed (use assms(5,6) in auto)
qed

text \<open>
  (C24) A hard delete removes exactly the targeted rows of the account; a soft delete removes
  none, and stamps the soft-delete column of exactly those rows, so that a selection that does
  not ask for deleted rows no longer sees them.
\<close>

theorem delete_execute_effect:
  assumes "delete_execute D now ctx rows d = Inr (outs, d')" and "rows \<noteq> []"
    and "ctx_config ctx = BulkDeleteConfig c"
    and "ent_soft_delete_column (ctx_entity ctx) = Some col"
    and "col \<notin> {''id'', ''account_id'', ''updated_at''}"
  shows "(dc_hard c \<longrightarrow> db_crm d' (ent_table (ctx_entity ctx)) =
       filter (\<lambda>r. \<not> targeted (map er_id rows) (ctx_account_id ctx) r) (db_crm d (ent_table (ctx_entity ctx)))) \<and>
    (\<not> dc_hard c \<longrightarrow>
       map row_id (db_crm d' (ent_table (ctx_entity ctx))) = map row_id (db_crm d (ent_table (ctx_entity ctx))) \<and>
       filter (\<lambda>r. \<not> targeted (map er_id rows) (ctx_account_id ctx) r) (db_crm d' (ent_table (ctx_entity ctx))) =
       filter (\<lambda>r. \<not> targeted (map er_id rows) (ctx_account_id ctx) r) (db_crm d (ent_table (ctx_entity ctx))) \<and>
       (\<forall>r \<in> set (db_crm d' (ent_table (ctx_entity ctx))).
          targeted (map er_id rows) (ctx_account_id ctx) r \<longrightarrow> eval_pred D r (SIsNull col) = Some False))"
  using assms(1,2)
proof (cases rule: delete_execute_InrE)
  case (1 c' hit)
  have c: "c' = c" using 1(1) assms(3) by simp
  show ?thesis
  proof (cases "dc_hard c")
    case True
    with 1(4) c show ?thesis by (auto simp: sql_delete_def Let_def)
  next
    case False
    let ?vals = "with_updated_at (ctx_entity ctx) now [(col, PTime now)]"
    note u = 1(5) [unfolded c, OF False assms(4)]
    have "row_get (row_set ?vals r) col = PTime now" for r
      using assms(5) by (simp add: row_get_set map_of_with_updated_at)
    then show ?thesis
      using False sql_update_within [OF u]
      by (auto simp: sql_update_InrD(2) [OF u] row_update.keys_kept writes_within_def set_upd_where split: if_splits)
  qed
qed

lemma not_nullable_field:
  assumes "ent \<in> {contact_entity, company_entity}" and "(f, spec) \<in> set (ent_updatable_fields ent)"
    and "\<not> fs_nullable spec"
  shows "\<not> column_nullable ent f" and "f \<noteq> ''updated_at''"
  using assms
  by (auto simp: column_nullable_def contact_entity_def company_entity_def contacts_columns_def
      companies_columns_def)

text \<open>
  A null for a required field passes the submission check of every shipped entity, because
  the update model makes each field optional, and then fails in the worker: as soon as the batch
  holds one row of the account that has to change, the UPDATE violates NOT NULL.
\<close>

theorem null_update_accepted_then_fails:
  assumes "ent \<in> {contact_entity, company_entity}" and "(f, spec) \<in> set (ent_updatable_fields ent)"
    and "\<not> fs_nullable spec"
    and "ctx_entity ctx = ent" and "ctx_config ctx = BulkUpdateConfig c" and "uc_updates c = [(f, PNone)]"
    and "er_get row f \<noteq> PNone" and "drv_binds D T_TIMESTAMP (PTime now)"
    and "r \<in> set (db_crm d (ent_table ent))" and "row_id r = er_id row"
    and "row_account_id r = ctx_account_id ctx"
  shows "validate_updates P ent [(f, PNone)] = Inr [(f, PNone)] \<and>
    update_execute D now ctx [row] d = Inl (NotNullViolation f)"
proof
  show "validate_updates P ent [(f, PNone)] = Inr [(f, PNone)]"
    using assms(1,2)
    by (auto simp: validate_updates_def validate_update_field_def contact_entity_def company_entity_def)
  have "\<not> holds_values [(f, PNone)] row"
    using assms(7) by (cases "er_get row f") (simp_all add: holds_values_def)
  moreover have ne: "filter (targeted [er_id row] (ctx_account_id ctx)) (db_crm d (ent_table ent)) \<noteq> []"
    using assms(9-11) by (auto simp: filter_empty_conv targeted_def)
  moreover have t: "type_of_column ent ''updated_at'' = Some T_TIMESTAMP" "''updated_at'' \<in> set (column_names ent)"
    using assms(1) by (auto simp: type_of_column_def contact_entity_def company_entity_def
        contacts_columns_def companies_columns_def column_names_def)
  moreover note not_nullable_field [OF assms(1-3)]
  ultimately show "update_execute D now ctx [row] d = Inl (NotNullViolation f)"
    using assms(4-6,8) by (auto simp: update_execute_def sql_update_def binds_def Let_def)
qed

fun has_target_set :: "config \<Rightarrow> bool" where
  "has_target_set (BulkUpdateConfig c) \<longleftrightarrow> require_a_target_set (uc_filter c) (uc_entity_ids c) = Inr ()"
| "has_target_set (BulkDeleteConfig c) \<longleftrightarrow> require_a_target_set (dc_filter c) (dc_entity_ids c) = Inr ()"

fun parser_of :: "config \<Rightarrow> pydantic \<Rightarrow> pydict \<Rightarrow> config result" where
  "parser_of (BulkUpdateConfig _) = parse_update_config"
| "parser_of (BulkDeleteConfig _) = parse_delete_config"

lemma field_dict_opt_dump: "map_of p k = Some (dump_opt PDict x) \<Longrightarrow> field_dict_opt p k = Inr x"
  by (cases x) (simp_all add: field_dict_opt_def dump_opt_def)

lemma field_str_opt_dump:
  "(\<And>s. pd_str P (PStr s) = Some s) \<Longrightarrow> map_of p k = Some (dump_opt PStr x) \<Longrightarrow> field_str_opt P p k = Inr x"
  by (cases x) (simp_all add: field_str_opt_def dump_opt_def)

lemma field_uuids_opt_dump:
  "(\<And>u. pd_uuid P (pd_dump_uuid P u) = Some u) \<Longrightarrow>
   map_of p k = Some (dump_opt (\<lambda>ids. PList (map (pd_dump_uuid P) ids)) x) \<Longrightarrow> field_uuids_opt P p k = Inr x"
  by (cases x) (simp_all add: field_uuids_opt_def dump_opt_def list_all_iff comp_def)

lemma parse_model_dump:
  assumes "\<And>u. pd_uuid P (pd_dump_uuid P u) = Some u" and "\<And>s. pd_str P (PStr s) = Some s"
    and "\<And>b. pd_bool P (PBool b) = Some b" and "has_target_set c"
  shows "parser_of c P (model_dump P c) = Inr c"
proof (cases c)
  case (BulkUpdateConfig u)
  let ?p = "model_dump P (BulkUpdateConfig u)"
  have "field_dict_opt ?p ''filter'' = Inr (uc_filter u)"
    and "field_uuids_opt P ?p ''entity_ids'' = Inr (uc_entity_ids u)"
    and "field_str_opt P ?p ''deduplicate_by'' = Inr (uc_deduplicate_by u)"
    by (auto intro!: field_dict_opt_dump field_uuids_opt_dump field_str_opt_dump simp: assms(1,2))
  moreover have "map_of ?p ''updates'' = Some (PDict (uc_updates u))"
    and "extra_forbid [''updates'', ''filter'', ''entity_ids'', ''deduplicate_by''] ?p = Inr ()"
    by (simp_all add: extra_forbid_def)
  ultimately show ?thesis
    using assms(4) unfolding BulkUpdateConfig parser_of.simps parse_update_config_def
    by (simp del: model_dump.simps)
next
  case (BulkDeleteConfig u)
  let ?p = "model_dump P (BulkDeleteConfig u)"
  have "field_dict_opt ?p ''filter'' = Inr (dc_filter u)"
    and "field_uuids_opt P ?p ''entity_ids'' = Inr (dc_entity_ids u)"
    and "field_str_opt P ?p ''deduplicate_by'' = Inr (dc_deduplicate_by u)"
    by (auto intro!: field_dict_opt_dump field_uuids_opt_dump field_str_opt_dump simp: assms(1,2))
  moreover have "field_bool P ?p ''hard'' = Inr (dc_hard u)"
    and "extra_forbid [''filter'', ''entity_ids'', ''hard'', ''deduplicate_by''] ?p = Inr ()"
    by (simp_all add: extra_forbid_def field_bool_def assms(3))
  ultimately show ?thesis
    using assms(4) unfolding BulkDeleteConfig parser_of.simps parse_delete_config_def
    by (simp del: model_dump.simps)
qed

text \<open>
  What an action stores is what its workers read: parsing the JSON dump of a configuration
  that the model accepts gives the same configuration back, for any pydantic that reads back the
  UUIDs, strings and booleans it writes.
\<close>

theorem config_roundtrip:
  assumes "\<And>u. pd_uuid P (pd_dump_uuid P u) = Some u" and "\<And>s. pd_str P (PStr s) = Some s"
    and "\<And>b. pd_bool P (PBool b) = Some b" and "has_target_set c"
  shows "parser_of c P (model_dump P c) = Inr c"
  using parse_model_dump [OF assms] .

section \<open>Examples\<close>

definition example_db :: db where
  "example_db = \<lparr> db_accounts = [\<lparr> acc_id = 7, acc_name = ''acme'', acc_rate_limit_per_minute = 600,
       acc_created_at = 0 \<rparr>],
     db_crm = (\<lambda>t. if t = ''contacts'' then
         [example_contact 1 7 ''a@b.c'' ''active'', example_contact 2 7 ''b@b.c'' ''active'',
          example_contact 3 8 ''c@b.c'' ''active''] else []),
     db_actions = [], db_batches = [], db_logs = [], db_dedup = [] \<rparr>"

definition example_row :: "uuid \<Rightarrow> string \<Rightarrow> entity_row" where
  "example_row i email = \<lparr> er_id = i, er_values = [(''id'', PUuid i), (''name'', PStr ''Ada''),
     (''email'', PStr email), (''age'', PInt 36), (''status'', PStr ''active''), (''deleted_at'', PNone)] \<rparr>"

definition example_update :: "pydict \<Rightarrow> bulk_update_config" where
  "example_update updates = \<lparr> uc_updates = updates, uc_filter = Some [], uc_entity_ids = None,
     uc_deduplicate_by = None \<rparr>"

definition example_delete :: "bool \<Rightarrow> bulk_delete_config" where
  "example_delete hard = \<lparr> dc_filter = Some [], dc_entity_ids = None, dc_hard = hard,
     dc_deduplicate_by = None \<rparr>"

definition example_ctx :: "config \<Rightarrow> action_context" where
  "example_ctx c = \<lparr> ctx_entity = contact_entity, ctx_account_id = 7, ctx_bulk_action_id = 100,
     ctx_batch_id = 200, ctx_config = c \<rparr>"

lemmas example_simps = example_db_def example_row_def example_update_def example_delete_def
  example_ctx_def example_contact_def contact_entity_def contacts_columns_def column_names_def
  plain_driver_def

lemma example_update_run:
  "\<exists>d'. update_execute plain_driver 5 (example_ctx (BulkUpdateConfig (example_update [(''age'', PInt 40)])))
     [example_row 1 ''a@b.c'', example_row 3 ''c@b.c''] example_db =
   Inr ([outcome_success 1 R_UPDATED [(''updates'', PDict [(''age'', PInt 40)])],
         outcome_failed (Some 3) R_ENTITY_NOT_FOUND
           ''Entity no longer exists or left the target set before the update ran.'' []], d')"
  by (simp add: example_simps update_execute_def holds_values_def er_get_def sql_update_def Let_def
      binds_def type_of_column_def targeted_def report_def column_nullable_def)

theorem shipped_handlers_contract_witness:
  "\<exists>outs d'. h_execute update_handler plain_driver 5
       (example_ctx (BulkUpdateConfig (example_update [(''age'', PInt 40)])))
       [example_row 1 ''a@b.c'', example_row 3 ''c@b.c''] example_db = Inr (outs, d') \<and>
     mset (map eo_entity_id outs) = {#Some 1, Some 3#} \<and> db_logs d' = []"
proof -
  have g: "get_action shipped_actions ''update'' (Some ''contact'') = Inr update_handler"
    by (simp add: get_action_def shipped_actions_def supports_def update_handler_def)
  obtain outs d' where ex: "h_execute update_handler plain_driver 5
      (example_ctx (BulkUpdateConfig (example_update [(''age'', PInt 40)])))
      [example_row 1 ''a@b.c'', example_row 3 ''c@b.c''] example_db = Inr (outs, d')"
    using example_update_run by (auto simp: update_handler_def)
  show ?thesis
    using ex shipped_handlers_contract [OF g ex] by (auto simp: example_row_def example_db_def)
qed

theorem update_success_holds_values_witness:
  "\<exists>outs d' r. update_execute plain_driver 5 (example_ctx (BulkUpdateConfig (example_update [(''age'', PInt 40)])))
     [example_row 1 ''a@b.c'', example_row 3 ''c@b.c''] example_db = Inr (outs, d') \<and>
     r \<in> set (db_crm d' ''contacts'') \<and> row_id r = 1 \<and> row_get r ''age'' = PInt 40"
proof -
  let ?ctx = "example_ctx (BulkUpdateConfig (example_update [(''age'', PInt 40)]))"
  let ?ok = "outcome_success 1 R_UPDATED [(''updates'', PDict [(''age'', PInt 40)])]"
  obtain outs d' where ex: "update_execute plain_driver 5 ?ctx
      [example_row 1 ''a@b.c'', example_row 3 ''c@b.c''] example_db = Inr (outs, d')" and "?ok \<in> set outs"
    using example_update_run by auto
  then show ?thesis
    using update_success_holds_values [OF ex, of "example_update [(''age'', PInt 40)]" "''age''" "PInt 40" ?ok]
    by (auto simp: example_ctx_def example_update_def contact_entity_def)
qed

theorem delete_execute_effect_witness:
  "\<exists>outs d'. delete_execute plain_driver 5 (example_ctx (BulkDeleteConfig (example_delete False)))
     [example_row 1 ''a@b.c''] example_db = Inr (outs, d') \<and>
     map row_id (db_crm d' ''contacts'') = map row_id (db_crm example_db ''contacts'')"
proof -
  let ?ctx = "example_ctx (BulkDeleteConfig (example_delete False))"
  obtain outs d' where ex: "delete_execute plain_driver 5 ?ctx [example_row 1 ''a@b.c''] example_db = Inr (outs, d')"
    by (simp add: example_simps delete_execute_def sql_update_def Let_def binds_def type_of_column_def
        targeted_def column_nullable_def)
  show ?thesis
    using ex delete_execute_effect [OF ex, of "example_delete False" "''deleted_at''"]
    by (auto simp: example_ctx_def example_delete_def contact_entity_def)
qed

theorem null_update_accepted_then_fails_witness:
  "validate_updates strict_pydantic contact_entity [(''name'', PNone)] = Inr [(''name'', PNone)] \<and>
   update_execute plain_driver 5 (example_ctx (BulkUpdateConfig (example_update [(''name'', PNone)])))
     [example_row 1 ''a@b.c''] example_db = Inl (NotNullViolation ''name'')"
  by (rule null_update_accepted_then_fails [where r = "example_contact 1 7 ''a@b.c'' ''active''"
      and c = "example_update [(''name'', PNone)]"
      and spec = "\<lparr> fs_annotation = AnnStr 1 255 None, fs_description = ''Full name of the contact.'', fs_nullable = False, fs_filterable = True \<rparr>"])
    (simp_all add: example_simps er_get_def)

theorem config_roundtrip_witness:
  "parse_delete_config strict_pydantic (model_dump strict_pydantic (BulkDeleteConfig (example_delete True))) =
   Inr (BulkDeleteConfig (example_delete True))"
  using config_roundtrip [of strict_pydantic "BulkDeleteConfig (example_delete True)"]
  by (simp add: strict_pydantic_def example_delete_def require_a_target_set_def)

end
