(* ===== verification/Dedup.thy ===== *)
theory Dedup
  imports Actions
begin

text \<open>
  De-duplication: \<open>app/services/dedup.py\<close>. The ledger \<open>bulk_action_dedup\<close> is the list of its
  (action, key) pairs. \<open>partition_duplicates\<close> groups a batch by normalised key, claims the keys
  with one INSERT ON CONFLICT DO NOTHING and keeps the first row of each group it won.
\<close>

definition normalise :: "pyval \<Rightarrow> string option" where
  "normalise value =
     (if value = PNone then None
      else let text = py_lower (py_strip (py_str value)) in if text = [] then None else Some text)"

record dedup_result =
  dr_unique_rows :: "entity_row list"
  dr_duplicates :: "(entity_row \<times> string) list"
  dr_missing_key_rows :: "entity_row list"

text \<open>\<open>keyed.setdefault(key, []).append(row)\<close> over the rows that have a key.\<close>

fun setdefault_append :: "'k \<Rightarrow> 'v \<Rightarrow> ('k \<times> 'v list) list \<Rightarrow> ('k \<times> 'v list) list" where
  "setdefault_append k v [] = [(k, [v])]"
| "setdefault_append k v ((k', vs) # xs) =
     (if k = k' then (k', vs @ [v]) # xs else (k', vs) # setdefault_append k v xs)"

fun group_rows ::
  "string \<Rightarrow> entity_row list \<Rightarrow> (string \<times> entity_row list) list \<Rightarrow> entity_row list \<Rightarrow>
   (string \<times> entity_row list) list \<times> entity_row list" where
  "group_rows fld [] keyed missing = (keyed, missing)"
| "group_rows fld (row # rows) keyed missing =
     (case normalise (er_get row fld) of
        None \<Rightarrow> group_rows fld rows keyed (missing @ [row])
      | Some key \<Rightarrow> group_rows fld rows (setdefault_append key row keyed) missing)"

text \<open>The loop over \<open>keyed.items()\<close>.\<close>

fun split_groups ::
  "string list \<Rightarrow> (string \<times> entity_row list) list \<Rightarrow> entity_row list \<Rightarrow> (entity_row \<times> string) list \<Rightarrow>
   entity_row list \<times> (entity_row \<times> string) list" where
  "split_groups claimed [] uniq dups = (uniq, dups)"
| "split_groups claimed ((key, grp) # rest) uniq dups =
     (if key \<in> set claimed
      then split_groups claimed rest (uniq @ [hd grp]) (dups @ map (\<lambda>row. (row, key)) (tl grp))
      else split_groups claimed rest uniq (dups @ map (\<lambda>row. (row, key)) grp))"

definition partition_duplicates :: "uuid \<Rightarrow> entity_row list \<Rightarrow> string \<Rightarrow> db \<Rightarrow> dedup_result \<times> db" where
  "partition_duplicates bulk_action_id rows fld d =
     (let (keyed, missing) = group_rows fld rows [] [] in
      if keyed = [] then
        (\<lparr> dr_unique_rows = missing, dr_duplicates = [], dr_missing_key_rows = missing \<rparr>, d)
      else
        let new = map (\<lambda>k. (bulk_action_id, k)) (sort (map fst keyed));
            claimed = map snd (ins_fresh id (db_dedup d) new);
            (uniq, dups) = split_groups claimed keyed missing []
        in (\<lparr> dr_unique_rows = uniq, dr_duplicates = dups, dr_missing_key_rows = missing \<rparr>,
            d\<lparr> db_dedup := ins_ignore id (db_dedup d) new \<rparr>))"

section \<open>Normalisation\<close>

lemma normalise_PStr: "normalise (PStr s) = Some k \<Longrightarrow> k = py_lower (py_strip s) \<and> k \<noteq> []"
  by (auto simp: normalise_def Let_def split: if_splits)

text \<open>
  Normalising a key is idempotent, and two strings that differ only by letter case and
  surrounding white space have the same key.
\<close>

theorem normalise_canonical:
  assumes "normalise (PStr s) = Some k"
  shows "normalise (PStr k) = Some k \<and>
    (py_lower (py_strip t) = py_lower (py_strip s) \<longrightarrow> normalise (PStr t) = Some k)"
proof -
  from normalise_PStr [OF assms] have k: "k = py_lower (py_strip s)" "k \<noteq> []" by auto
  have "py_lower (py_strip k) = k" by (simp add: k(1) py_strip_lower)
  with k show ?thesis by (auto simp: normalise_def Let_def)
qed

theorem normalise_canonical_witness:
  "normalise (PStr '' Ada@B.c '') = Some ''ada@b.c'' \<and> normalise (PStr ''ada@b.c'') = Some ''ada@b.c''"
proof -
  have n: "normalise (PStr '' Ada@B.c '') = Some ''ada@b.c''" by code_simp
  then show ?thesis using normalise_canonical [OF n] by blast
qed

section \<open>Grouping\<close>

definition key_of :: "string \<Rightarrow> entity_row \<Rightarrow> string option" where
  "key_of fld row = normalise (er_get row fld)"

definition group_of :: "('k \<times> 'v list) list \<Rightarrow> 'k \<Rightarrow> 'v list" where
  "group_of keyed k = (case map_of keyed k of None \<Rightarrow> [] | Some vs \<Rightarrow> vs)"

definition grouped :: "string \<Rightarrow> (string \<times> entity_row list) list \<Rightarrow> bool" where
  "grouped fld keyed \<longleftrightarrow> distinct (map fst keyed) \<and>
     list_all (\<lambda>(k, grp). grp \<noteq> [] \<and> list_all (\<lambda>row. key_of fld row = Some k) grp) keyed"

lemma grouped_Cons:
  "grouped fld ((k, grp) # keyed) \<longleftrightarrow> grouped fld keyed \<and> k \<notin> fst ` set keyed \<and> grp \<noteq> [] \<and>
     list_all (\<lambda>row. key_of fld row = Some k) grp"
  by (auto simp: grouped_def)

lemma grouped_Nil [simp]: "grouped fld []"
  by (simp add: grouped_def)

lemma keys_setdefault_append: "fst ` set (setdefault_append k v keyed) = insert k (fst ` set keyed)"
  by (induction k v keyed rule: setdefault_append.induct) (simp_all add: insert_commute)

lemma group_of_setdefault_append:
  "group_of (setdefault_append k v keyed) k' = group_of keyed k' @ (if k' = k then [v] else [])"
  by (induction k v keyed rule: setdefault_append.induct) (auto simp: group_of_def)

lemma grouped_setdefault_append:
  "grouped fld keyed \<Longrightarrow> key_of fld v = Some k \<Longrightarrow> grouped fld (setdefault_append k v keyed)"
  by (induction k v keyed rule: setdefault_append.induct)
    (simp_all add: grouped_Cons keys_setdefault_append)

lemma group_rows_spec:
  assumes "group_rows fld rows keyed missing = (keyed', missing')" and "grouped fld keyed"
  shows "grouped fld keyed' \<and>
    missing' = missing @ filter (\<lambda>r. key_of fld r = None) rows \<and>
    (\<forall>k. group_of keyed' k = group_of keyed k @ filter (\<lambda>r. key_of fld r = Some k) rows)"
  using assms
proof (induction rows arbitrary: keyed missing)
  case (Cons row rows)
  show ?case
  proof (cases "key_of fld row")
    case None
    with Cons.prems have "group_rows fld rows keyed (missing @ [row]) = (keyed', missing')"
      by (simp add: key_of_def)
    from Cons.IH [OF this Cons.prems(2)] None show ?thesis by simp
  next
    case (Some k)
    with Cons.prems have "group_rows fld rows (setdefault_append k row keyed) missing = (keyed', missing')"
      by (simp add: key_of_def)
    from Cons.IH [OF this grouped_setdefault_append [OF Cons.prems(2) Some]] Some show ?thesis
      by (auto simp: group_of_setdefault_append)
  qed
qed simp

lemma split_groups_spec:
  "split_groups claimed keyed uniq dups =
    (uniq @ map (\<lambda>(k, grp). hd grp) (filter (\<lambda>(k, grp). k \<in> set claimed) keyed),
     dups @ concat (map (\<lambda>(k, grp). map (\<lambda>row. (row, k)) (if k \<in> set claimed then tl grp else grp)) keyed))"
  by (induction claimed keyed uniq dups rule: split_groups.induct) auto

lemma group_of_Cons: "group_of ((k, grp) # keyed) k' = (if k = k' then grp else group_of keyed k')"
  by (simp add: group_of_def)

lemma group_of_absent: "k \<notin> fst ` set keyed \<Longrightarrow> group_of keyed k = []"
  by (simp add: group_of_def map_of_eq_None_iff [THEN iffD2])

lemma group_of_present: "grouped fld keyed \<Longrightarrow> k \<in> fst ` set keyed \<longleftrightarrow> group_of keyed k \<noteq> []"
proof (induction keyed)
  case (Cons kg keyed)
  then show ?case by (cases kg) (simp add: grouped_Cons group_of_Cons)
qed (simp add: group_of_def)

text \<open>The winners and losers of one key among the groups.\<close>

lemma winners_of_key:
  assumes "grouped fld keyed"
  shows "filter (\<lambda>r. key_of fld r = Some k) (map (\<lambda>(k, grp). hd grp) (filter (\<lambda>(k, grp). k \<in> C) keyed)) =
    (if k \<in> C then take 1 (group_of keyed k) else [])"
  using assms
proof (induction keyed)
  case Nil
  then show ?case by (simp add: group_of_def)
next
  case (Cons kg keyed)
  obtain k' grp where kg: "kg = (k', grp)" by (cases kg)
  with Cons.prems have g: "grouped fld keyed" "k' \<notin> fst ` set keyed" "grp \<noteq> []" "key_of fld (hd grp) = Some k'"
    by (auto simp: grouped_Cons list_all_iff)
  have "take 1 grp = [hd grp]" using g(3) by (cases grp) auto
  with Cons.IH [OF g(1)] g show ?case
    by (auto simp: kg group_of_Cons group_of_absent)
qed

lemma groups_partition:
  "grouped fld keyed \<Longrightarrow>
   mset (map (\<lambda>(k, grp). hd grp) (filter (\<lambda>(k, grp). k \<in> C) keyed)) +
   mset (map fst (concat (map (\<lambda>(k, grp). map (\<lambda>row. (row, k)) (if k \<in> C then tl grp else grp)) keyed))) =
   mset (concat (map snd keyed))"
proof (induction keyed)
  case (Cons kg keyed)
  obtain k grp where kg: "kg = (k, grp)" by (cases kg)
  with Cons.prems obtain r rs where "grp = r # rs" by (cases grp) (auto simp: grouped_Cons)
  with Cons kg show ?case by (auto simp: grouped_Cons comp_def)
qed simp

lemma groups_mset:
  assumes "grouped fld keyed"
  shows "mset (concat (map snd keyed)) =
    mset (filter (\<lambda>r. key_of fld r \<noteq> None) (concat (map snd keyed)))"
proof -
  have "list_all (\<lambda>r. key_of fld r \<noteq> None) (concat (map snd keyed))"
    using assms by (fastforce simp: grouped_def list_all_iff)
  then have "filter (\<lambda>r. key_of fld r \<noteq> None) (concat (map snd keyed)) = concat (map snd keyed)"
    by (simp add: filter_id_conv list_all_iff)
  then show ?thesis by simp
qed

lemma filter_group_concat:
  "grouped fld keyed \<Longrightarrow> filter (\<lambda>r. key_of fld r = Some k) (concat (map snd keyed)) = group_of keyed k"
proof (induction keyed)
  case Nil
  then show ?case by (simp add: group_of_def)
next
  case (Cons kg keyed)
  obtain k' grp where kg: "kg = (k', grp)" by (cases kg)
  with Cons.prems have g: "grouped fld keyed" "k' \<notin> fst ` set keyed" "list_all (\<lambda>r. key_of fld r = Some k') grp"
    by (auto simp: grouped_Cons)
  have "filter (\<lambda>r. key_of fld r = Some k) grp = (if k = k' then grp else [])"
    using g(3) by (auto simp: list_all_iff filter_id_conv filter_empty_conv)
  with Cons.IH [OF g(1)] g(2) show ?case by (auto simp: kg group_of_Cons group_of_absent)
qed

lemma mset_by_filters:
  assumes "\<And>k. filter (\<lambda>r. f r = Some k) xs = filter (\<lambda>r. f r = Some k) ys"
  shows "mset (filter (\<lambda>r. f r \<noteq> None) xs) = mset (filter (\<lambda>r. f r \<noteq> None) ys)"
proof (rule multiset_eqI)
  fix x
  show "count (mset (filter (\<lambda>r. f r \<noteq> None) xs)) x = count (mset (filter (\<lambda>r. f r \<noteq> None) ys)) x"
  proof (cases "f x")
    case (Some k)
    then have "count (mset (filter (\<lambda>r. f r \<noteq> None) zs)) x = count (mset (filter (\<lambda>r. f r = Some k) zs)) x" for zs
      by (induction zs) auto
    then show ?thesis using assms [of k] by (simp only:)
  qed (simp add: count_eq_zero_iff [THEN iffD2])
qed

text \<open>Everything the rest of the platform needs to know about a call, whichever branch it took.\<close>

lemma partition_duplicates_spec:
  assumes "partition_duplicates aid rows fld d = (res, d')"
  shows "filter (\<lambda>r. key_of fld r = None) (dr_unique_rows res) = filter (\<lambda>r. key_of fld r = None) rows"
    and "filter (\<lambda>r. key_of fld r = Some k) (dr_unique_rows res) =
      (if (aid, k) \<in> set (db_dedup d) then [] else take 1 (filter (\<lambda>r. key_of fld r = Some k) rows))"
    and "mset (dr_unique_rows res) + mset (map fst (dr_duplicates res)) = mset rows"
    and "set (db_dedup d') = set (db_dedup d) \<union> {(aid, k) | k. \<exists>r \<in> set rows. key_of fld r = Some k}"
    and "distinct (db_dedup d) \<Longrightarrow> distinct (db_dedup d')"
    and "d' = d\<lparr> db_dedup := db_dedup d' \<rparr>"
proof -
  obtain keyed missing where g: "group_rows fld rows [] [] = (keyed, missing)"
    by (cases "group_rows fld rows [] []")
  from group_rows_spec [OF this] have gr: "grouped fld keyed"
    and miss: "missing = filter (\<lambda>r. key_of fld r = None) rows"
    and grp: "\<And>k. group_of keyed k = filter (\<lambda>r. key_of fld r = Some k) rows"
    by (simp_all add: group_of_def)
  have keys: "k \<in> fst ` set keyed \<longleftrightarrow> (\<exists>r \<in> set rows. key_of fld r = Some k)" for k
    unfolding group_of_present [OF gr] grp by (auto simp: filter_empty_conv)
  define new where "new = map (\<lambda>k. (aid, k)) (sort (map fst keyed))"
  define C where "C = set (map snd (ins_fresh id (db_dedup d) new))"
  let ?uniq = "missing @ map (\<lambda>(k, grp). hd grp) (filter (\<lambda>(k, grp). k \<in> C) keyed)"
  let ?dups = "concat (map (\<lambda>(k, grp). map (\<lambda>row. (row, k)) (if k \<in> C then tl grp else grp)) keyed)"
  have res: "dr_unique_rows res = ?uniq" "dr_duplicates res = ?dups"
    and led: "db_dedup d' = ins_ignore id (db_dedup d) new"
    and frame: "d' = d\<lparr> db_dedup := db_dedup d' \<rparr>"
    using assms by (auto simp: partition_duplicates_def g C_def new_def split_groups_spec Let_def split: if_splits)
  have "fst ` set keyed = {k. \<exists>r \<in> set rows. key_of fld r = Some k}" using keys by blast
  then have snew: "set new = {(aid, k) | k. \<exists>r \<in> set rows. key_of fld r = Some k}"
    by (auto simp: new_def)
  have "set (ins_fresh id (db_dedup d) new) = set new - set (db_dedup d)"
    using ins_fresh_keys [of id "db_dedup d" new] by simp
  moreover have "k \<in> snd ` ({(aid, k) | k. P k} - L) \<longleftrightarrow> P k \<and> (aid, k) \<notin> L" for k L and P :: "string \<Rightarrow> bool"
  proof
    show "P k \<and> (aid, k) \<notin> L" if "k \<in> snd ` ({(aid, k) | k. P k} - L)" using that by auto
    show "k \<in> snd ` ({(aid, k) | k. P k} - L)" if "P k \<and> (aid, k) \<notin> L"
      by (rule image_eqI [of _ _ "(aid, k)"]) (use that in auto)
  qed
  ultimately have C: "k \<in> C \<longleftrightarrow> (\<exists>r \<in> set rows. key_of fld r = Some k) \<and> (aid, k) \<notin> set (db_dedup d)" for k
    by (simp add: C_def snew)
  have won: "filter (\<lambda>r. key_of fld r = None) (map (\<lambda>(k, grp). hd grp) (filter (\<lambda>(k, grp). k \<in> C) keyed)) = []"
    using gr by (fastforce simp: grouped_def list_all_iff filter_empty_conv)
  show "filter (\<lambda>r. key_of fld r = None) (dr_unique_rows res) = filter (\<lambda>r. key_of fld r = None) rows"
    unfolding res filter_append won miss by simp
  have "filter (\<lambda>r. key_of fld r = Some k) missing = []" by (auto simp: miss filter_empty_conv)
  moreover have "filter (\<lambda>r. key_of fld r = Some k) rows = []" if "\<not> (\<exists>r \<in> set rows. key_of fld r = Some k)"
    using that by (auto simp: filter_empty_conv)
  ultimately show "filter (\<lambda>r. key_of fld r = Some k) (dr_unique_rows res) =
      (if (aid, k) \<in> set (db_dedup d) then [] else take 1 (filter (\<lambda>r. key_of fld r = Some k) rows))"
    unfolding res filter_append winners_of_key [OF gr] grp by (auto simp: C)
  have "mset (concat (map snd keyed)) = mset (filter (\<lambda>r. key_of fld r \<noteq> None) rows)"
    unfolding groups_mset [OF gr]
    by (rule mset_by_filters) (simp add: filter_group_concat [OF gr] grp)
  then show "mset (dr_unique_rows res) + mset (map fst (dr_duplicates res)) = mset rows"
    using groups_partition [OF gr, of C] mset_split [of "\<lambda>r. r" "\<lambda>r. key_of fld r = None" rows]
    by (simp add: res miss add.assoc)
  show "set (db_dedup d') = set (db_dedup d) \<union> {(aid, k) | k. \<exists>r \<in> set rows. key_of fld r = Some k}"
    using ins_ignore_keys [of id "db_dedup d" new] by (simp add: led snew)
  show "distinct (db_dedup d')" if "distinct (db_dedup d)"
    using ins_ignore_distinct [of id "db_dedup d" new] that by (simp add: led)
  show "d' = d\<lparr> db_dedup := db_dedup d' \<rparr>" by (rule frame)
qed

section \<open>One winner per key, however the batches are split\<close>

text \<open>The batches of an action, run one after another against the ledger they share.\<close>

fun dedup_run :: "uuid \<Rightarrow> string \<Rightarrow> entity_row list list \<Rightarrow> db \<Rightarrow> dedup_result list \<times> db" where
  "dedup_run aid fld [] d = ([], d)"
| "dedup_run aid fld (rows # batches) d =
     (let (res, d') = partition_duplicates aid rows fld d; (rest, d'') = dedup_run aid fld batches d'
      in (res # rest, d''))"

definition winners :: "dedup_result list \<Rightarrow> entity_row list" where
  "winners results = concat (map dr_unique_rows results)"

lemma dedup_run_winners:
  assumes "dedup_run aid fld batches d = (results, d')"
  shows "filter (\<lambda>r. key_of fld r = Some k) (winners results) =
    (if (aid, k) \<in> set (db_dedup d) then []
     else take 1 (filter (\<lambda>r. key_of fld r = Some k) (concat batches)))"
  using assms
proof (induction batches arbitrary: d results)
  case Nil
  then show ?case by (simp add: winners_def)
next
  case (Cons rows batches)
  obtain res d1 where p: "partition_duplicates aid rows fld d = (res, d1)" by (cases "partition_duplicates aid rows fld d")
  moreover obtain rest where r: "dedup_run aid fld batches d1 = (rest, d')" and results: "results = res # rest"
    using Cons.prems p by (auto split: prod.splits)
  let ?f = "filter (\<lambda>r. key_of fld r = Some k)"
  have "?f (winners results) = ?f (dr_unique_rows res) @ ?f (winners rest)"
    by (simp add: winners_def results)
  moreover have "?f rows = []" if "(aid, k) \<notin> set (db_dedup d1)"
    using that partition_duplicates_spec(4) [OF p] by (auto simp: filter_empty_conv)
  moreover have "take (Suc 0) (?f rows @ xs) = take (Suc 0) (?f rows)" if "?f rows \<noteq> []" for xs
    using that by (cases "?f rows") auto
  moreover have "?f rows \<noteq> []" if "(aid, k) \<in> set (db_dedup d1)" "(aid, k) \<notin> set (db_dedup d)"
    using that partition_duplicates_spec(4) [OF p] by (auto simp: filter_empty_conv)
  ultimately show ?case
    using Cons.IH [OF r] partition_duplicates_spec(2,4) [OF p] by auto
qed

text \<open>
  (C11) Across all the batches of an action, in whatever order they run, every row is either kept
  or reported as a duplicate and never both; a row without a key is always kept; and of the rows
  that share a key exactly one is kept over the whole action, the first one met. Skipping is
  therefore never lost or doubled by how the target set was cut into batches.
\<close>

theorem dedup_one_winner_per_key:
  assumes "dedup_run aid fld batches d = (results, d')"
    and "\<forall>k. (aid, k) \<notin> set (db_dedup d)"
  shows "filter (\<lambda>r. key_of fld r = Some k) (winners results) =
       take 1 (filter (\<lambda>r. key_of fld r = Some k) (concat batches)) \<and>
    filter (\<lambda>r. key_of fld r = None) (winners results) = filter (\<lambda>r. key_of fld r = None) (concat batches) \<and>
    mset (winners results) + mset (map fst (concat (map dr_duplicates results))) = mset (concat batches)"
proof -
  have "filter (\<lambda>r. key_of fld r = None) (winners results) = filter (\<lambda>r. key_of fld r = None) (concat batches) \<and>
    mset (winners results) + mset (map fst (concat (map dr_duplicates results))) = mset (concat batches)"
    using assms(1)
  proof (induction batches arbitrary: d results)
    case Nil
    then show ?case by (simp add: winners_def)
  next
    case (Cons rows batches)
    obtain res d1 where p: "partition_duplicates aid rows fld d = (res, d1)"
      by (cases "partition_duplicates aid rows fld d")
    moreover obtain rest where r: "dedup_run aid fld batches d1 = (rest, d')" and results: "results = res # rest"
      using Cons.prems p by (auto split: prod.splits)
    ultimately show ?case
      using Cons.IH [OF r] partition_duplicates_spec(1,3) [OF p] by (simp add: winners_def)
        (metis (no_types, lifting) add.assoc add.left_commute)
  qed
  then show ?thesis using dedup_run_winners [OF assms(1), of k] assms(2) by simp
qed

theorem dedup_one_winner_per_key_witness:
  "\<exists>results d'. dedup_run 100 ''email'' [[example_row 1 ''A@b.c''], [example_row 2 ''a@b.c'']] example_db = (results, d') \<and>
     filter (\<lambda>r. key_of ''email'' r = Some ''a@b.c'') (winners results) = [example_row 1 ''A@b.c'']"
proof -
  let ?bs = "[[example_row 1 ''A@b.c''], [example_row 2 ''a@b.c'']]"
  obtain results d' where run: "dedup_run 100 ''email'' ?bs example_db = (results, d')"
    by (cases "dedup_run 100 ''email'' ?bs example_db")
  have k: "key_of ''email'' (example_row 1 ''A@b.c'') = Some ''a@b.c''" by code_simp
  have free: "\<forall>k. (100, k) \<notin> set (db_dedup example_db)" by (simp add: example_db_def)
  show ?thesis
    using run dedup_one_winner_per_key [OF run free, of "''a@b.c''"] k by auto
qed

text \<open>
  The ledger after a call holds the keys it held before and the keys of the batch, and a
  second call with the same rows, as a redelivered batch would make after a commit, keeps no
  keyed row and leaves the ledger as it is.
\<close>

theorem dedup_second_attempt:
  assumes "partition_duplicates aid rows fld d = (res, d1)"
    and "partition_duplicates aid rows fld d1 = (res2, d2)"
  shows "set (db_dedup d1) = set (db_dedup d) \<union> {(aid, k) | k. \<exists>r \<in> set rows. key_of fld r = Some k} \<and>
    set (db_dedup d2) = set (db_dedup d1) \<and>
    dr_unique_rows res2 = filter (\<lambda>r. key_of fld r = None) rows"
proof -
  note S = partition_duplicates_spec [OF assms(1)] and S2 = partition_duplicates_spec [OF assms(2)]
  have "key_of fld r = None" if "r \<in> set (dr_unique_rows res2)" for r
  proof (rule ccontr)
    assume "key_of fld r \<noteq> None"
    then obtain k where k: "key_of fld r = Some k" by blast
    have "r \<in># mset rows" using that S2(3) by (metis set_mset_mset union_iff)
    then have "(aid, k) \<in> set (db_dedup d1)" using k by (auto simp: S(4))
    with S2(2) [of k] that k show False by (auto simp: filter_empty_conv)
  qed
  then have "filter (\<lambda>r. key_of fld r = None) (dr_unique_rows res2) = dr_unique_rows res2"
    by (simp add: filter_id_conv)
  with S2(1) show ?thesis unfolding S(4) S2(4) by auto
qed

theorem dedup_second_attempt_witness:
  "\<exists>res2. fst (partition_duplicates 100 [example_row 1 ''a@b.c''] ''email''
      (snd (partition_duplicates 100 [example_row 1 ''a@b.c''] ''email'' example_db))) = res2 \<and>
    dr_unique_rows res2 = []"
proof -
  let ?rows = "[example_row 1 ''a@b.c'']"
  obtain res d1 where a: "partition_duplicates 100 ?rows ''email'' example_db = (res, d1)"
    by (cases "partition_duplicates 100 ?rows ''email'' example_db")
  obtain res2 d2 where b: "partition_duplicates 100 ?rows ''email'' d1 = (res2, d2)"
    by (cases "partition_duplicates 100 ?rows ''email'' d1")
  have "key_of ''email'' (example_row 1 ''a@b.c'') = Some ''a@b.c''" by code_simp
  then show ?thesis using dedup_second_attempt [OF a b] a b by simp
qed

end
