(* ===== verification/Progress.thy ===== *)
theory Progress
  imports Dedup
begin

text \<open>
  The audit log (\<open>app/services/logs.py\<close>) and progress accounting with the lifecycle
  transitions (\<open>app/services/progress.py\<close>). Every UPDATE is one \<open>update_actions\<close>, its WHERE
  clauses the predicate. Statuses are the enum members whose value the column stores.
\<close>

section \<open>Logs\<close>

text \<open>\<open>bigserial\<close>: ids grow in insertion order.\<close>

definition next_log_id :: "db \<Rightarrow> nat" where
  "next_log_id d = Suc (foldr max (map bl_id (db_logs d)) 0)"

definition log_of_outcome :: "uuid \<Rightarrow> uuid option \<Rightarrow> time \<Rightarrow> nat \<Rightarrow> entity_outcome \<Rightarrow> log_row" where
  "log_of_outcome bulk_action_id batch_id now i oc =
     \<lparr> bl_id = i, bl_bulk_action_id = bulk_action_id, bl_batch_id = batch_id,
       bl_entity_id = eo_entity_id oc, bl_status = eo_status oc, bl_reason_code = eo_reason_code oc,
       bl_message = eo_message oc, bl_details = eo_details oc, bl_created_at = now \<rparr>"

definition write_outcomes :: "uuid \<Rightarrow> uuid option \<Rightarrow> time \<Rightarrow> entity_outcome list \<Rightarrow> db \<Rightarrow> db" where
  "write_outcomes bulk_action_id batch_id now outcomes d =
     (if outcomes = [] then d
      else d\<lparr> db_logs := db_logs d @
        map (\<lambda>(i, oc). log_of_outcome bulk_action_id batch_id now i oc)
          (enumerate (next_log_id d) outcomes) \<rparr>)"

definition logs_of :: "db \<Rightarrow> uuid \<Rightarrow> log_row list" where
  "logs_of d aid = filter (\<lambda>l. bl_bulk_action_id l = aid) (db_logs d)"

definition count_logs :: "db \<Rightarrow> uuid \<Rightarrow> log_status \<Rightarrow> nat" where
  "count_logs d aid s = length (filter (\<lambda>l. bl_status l = s) (logs_of d aid))"

lemma write_outcomes_frame [simp, frame_simps]:
  "db_accounts (write_outcomes aid bid now os d) = db_accounts d"
  "db_crm (write_outcomes aid bid now os d) = db_crm d"
  "db_actions (write_outcomes aid bid now os d) = db_actions d"
  "db_batches (write_outcomes aid bid now os d) = db_batches d"
  "db_dedup (write_outcomes aid bid now os d) = db_dedup d"
  by (simp_all add: write_outcomes_def)

lemma new_logs_statuses:
  "map bl_status (map (\<lambda>(i, oc). log_of_outcome aid bid now i oc) (enumerate k os)) = map eo_status os"
  by (induction os arbitrary: k) (simp_all add: log_of_outcome_def)

lemma logs_of_write_outcomes:
  "map bl_status (logs_of (write_outcomes aid bid now os d) aid') =
   map bl_status (logs_of d aid') @ (if aid' = aid then map eo_status os else [])"
proof -
  let ?new = "map (\<lambda>(i, oc). log_of_outcome aid bid now i oc) (enumerate (next_log_id d) os)"
  have "list_all (\<lambda>l. bl_bulk_action_id l = aid) ?new"
    by (auto simp: list_all_iff in_set_enumerate_eq log_of_outcome_def)
  then have "filter (\<lambda>l. bl_bulk_action_id l = aid') ?new = (if aid' = aid then ?new else [])"
    by (auto simp: list_all_iff filter_id_conv filter_empty_conv)
  then show ?thesis
    using new_logs_statuses [of aid bid now "next_log_id d" os]
    by (auto simp: logs_of_def write_outcomes_def)
qed

lemma count_logs_write_outcomes:
  "count_logs (write_outcomes aid bid now os d) aid' s =
   count_logs d aid' s + (if aid' = aid then count_status s os else 0)"
proof -
  have c: "length (filter (\<lambda>l. bl_status l = s) xs) = length (filter (\<lambda>x. x = s) (map bl_status xs))" for xs
    by (simp add: filter_map comp_def)
  show ?thesis
    unfolding count_logs_def c logs_of_write_outcomes
    by (simp add: count_status_def filter_map comp_def)
qed

lemma length_logs_write_outcomes:
  "length (logs_of (write_outcomes aid bid now os d) aid') =
   length (logs_of d aid') + (if aid' = aid then length os else 0)"
  using arg_cong [OF logs_of_write_outcomes [of aid bid now os d aid'], of length] by simp

lemma next_log_id_bound: "i \<in> bl_id ` set (db_logs d) \<Longrightarrow> i < next_log_id d"
proof -
  have "x \<in> set xs \<Longrightarrow> x \<le> foldr max xs 0" for x :: nat and xs by (induction xs) auto
  then show "i \<in> bl_id ` set (db_logs d) \<Longrightarrow> i < next_log_id d"
    by (simp add: next_log_id_def less_Suc_eq_le)
qed

lemma write_outcomes_ids [wf_intros]:
  assumes "sorted_wrt (<) (map bl_id (db_logs d))"
  shows "sorted_wrt (<) (map bl_id (db_logs (write_outcomes aid bid now os d)))"
proof -
  have "map bl_id (map (\<lambda>(i, oc). log_of_outcome aid bid now i oc) (enumerate k os)) = [k..<k + length os]" for k
    by (induction os arbitrary: k) (simp_all add: log_of_outcome_def upt_conv_Cons del: upt_Suc)
  then show ?thesis
    using assms next_log_id_bound [of _ d]
    by (fastforce simp: write_outcomes_def sorted_wrt_append simp del: map_map)
qed

section \<open>Lifecycle transitions\<close>

definition mark_started :: "uuid \<Rightarrow> time \<Rightarrow> db \<Rightarrow> db" where
  "mark_started action_id now =
     update_actions (\<lambda>a. ba_id a = action_id \<and> ba_status a \<in> set [QUEUED, SCHEDULED, PLANNING])
       (\<lambda>a. a\<lparr> ba_status := PROCESSING, ba_started_at := Some now \<rparr>)"

text \<open>The counters move by \<open>SET n = n + delta\<close>; the refreshed row is returned.\<close>

definition add_counts :: "nat \<Rightarrow> nat \<Rightarrow> nat \<Rightarrow> nat \<Rightarrow> bool \<Rightarrow> bulk_action \<Rightarrow> bulk_action" where
  "add_counts processed success failure skipped batch_done a =
     a\<lparr> ba_processed_count := ba_processed_count a + processed,
        ba_success_count := ba_success_count a + success,
        ba_failure_count := ba_failure_count a + failure,
        ba_skipped_count := ba_skipped_count a + skipped,
        ba_completed_batches := ba_completed_batches a + (if batch_done then 1 else 0) \<rparr>"

definition record_batch_completion ::
  "uuid \<Rightarrow> nat \<Rightarrow> nat \<Rightarrow> nat \<Rightarrow> nat \<Rightarrow> bool \<Rightarrow> db \<Rightarrow> bulk_action option \<times> db" where
  "record_batch_completion action_id processed success failure skipped batch_done d =
     (let d' = update_actions (\<lambda>a. ba_id a = action_id)
                 (add_counts processed success failure skipped batch_done) d
      in (load_action d' action_id, d'))"

definition finalize_if_complete :: "uuid \<Rightarrow> time \<Rightarrow> db \<Rightarrow> action_status option \<times> db" where
  "finalize_if_complete action_id now d =
     (let complete = (\<lambda>a. ba_id a = action_id \<and> ba_total_batches a \<le> ba_completed_batches a \<and>
                          ba_status a = PROCESSING)
      in case find complete (db_actions d) of
           None \<Rightarrow> (None, d)
         | Some row \<Rightarrow>
             (let status = (if 0 < ba_failure_count row then COMPLETED_WITH_ERRORS else COMPLETED);
                  hit = filter complete (db_actions d);
                  d' = update_actions complete (\<lambda>a. a\<lparr> ba_status := status, ba_finished_at := Some now \<rparr>) d
              in (if hit \<noteq> [] then Some status else None, d')))"

definition fail_action :: "uuid \<Rightarrow> string \<Rightarrow> time \<Rightarrow> db \<Rightarrow> db" where
  "fail_action action_id err now =
     update_actions (\<lambda>a. ba_id a = action_id \<and> action_status_value (ba_status a) \<notin> set terminal_values)
       (\<lambda>a. a\<lparr> ba_status := FAILED, ba_error := Some (take 2000 err), ba_finished_at := Some now \<rparr>)"

definition is_cancelled :: "uuid \<Rightarrow> db \<Rightarrow> bool" where
  "is_cancelled action_id d = (map_option ba_status (load_action d action_id) = Some CANCELLED)"

text \<open>The payload published to subscribers. The percentage is exact here: rounding half to even
  at two decimals, without the error of binary floating point.\<close>

definition round_half_even :: "rat \<Rightarrow> int" where
  "round_half_even r =
     (let f = \<lfloor>r\<rfloor>; x = r - of_int f in
      if x < 1 / 2 then f else if 1 / 2 < x then f + 1 else if even f then f else f + 1)"

definition progress_percent :: "nat \<Rightarrow> nat \<Rightarrow> rat" where
  "progress_percent processed tot =
     (if tot = 0 then 0 else of_int (round_half_even (of_nat processed / of_nat tot * 100 * 100)) / 100)"

record progress =
  pp_id :: string
  pp_status :: string
  pp_total_entities :: nat
  pp_processed_count :: nat
  pp_success_count :: nat
  pp_failure_count :: nat
  pp_skipped_count :: nat
  pp_total_batches :: nat
  pp_completed_batches :: nat
  pp_progress_percent :: rat

definition progress_payload :: "bulk_action \<Rightarrow> progress" where
  "progress_payload a = \<lparr> pp_id = uuid_str (ba_id a), pp_status = action_status_value (ba_status a),
     pp_total_entities = ba_total_entities a, pp_processed_count = ba_processed_count a,
     pp_success_count = ba_success_count a, pp_failure_count = ba_failure_count a,
     pp_skipped_count = ba_skipped_count a, pp_total_batches = ba_total_batches a,
     pp_completed_batches = ba_completed_batches a,
     pp_progress_percent = progress_percent (ba_processed_count a) (ba_total_entities a) \<rparr>"

section \<open>Updates of one action\<close>

text \<open>Every statement above updates one action, found by its id, and keeps its identity.\<close>

interpretation started: keyed_update ba_id "\<lambda>a. a\<lparr> ba_status := s, ba_started_at := t \<rparr>" for s t
  by unfold_locales simp

interpretation counted: keyed_update ba_id "add_counts p s f k b" for p s f k b
  by unfold_locales (simp add: add_counts_def)

interpretation finished: keyed_update ba_id "\<lambda>a. a\<lparr> ba_status := s, ba_finished_at := t \<rparr>" for s t
  by unfold_locales simp

interpretation failed: keyed_update ba_id "\<lambda>a. a\<lparr> ba_status := s, ba_error := e, ba_finished_at := t \<rparr>" for s e t
  by unfold_locales simp

lemma load_mark_started:
  "load_action (mark_started aid now d) aid =
   map_option (\<lambda>a. if ba_status a \<in> {QUEUED, SCHEDULED, PLANNING}
     then a\<lparr> ba_status := PROCESSING, ba_started_at := Some now \<rparr> else a) (load_action d aid)"
  by (simp add: load_action_def mark_started_def update_actions_def started.find_guarded)

lemma load_mark_started_other: "b \<noteq> aid \<Longrightarrow> load_action (mark_started aid now d) b = load_action d b"
  by (simp add: load_action_def mark_started_def update_actions_def started.find_other)

lemma load_counted:
  "load_action (update_actions (\<lambda>a. ba_id a = aid) (add_counts p s f k b) d) aid =
   map_option (add_counts p s f k b) (load_action d aid)"
  by (simp add: load_action_def update_actions_def counted.find_updated)

lemma load_fail_action:
  "load_action (fail_action aid err now d) aid =
   map_option (\<lambda>a. if is_terminal (ba_status a) then a
     else a\<lparr> ba_status := FAILED, ba_error := Some (take 2000 err), ba_finished_at := Some now \<rparr>)
     (load_action d aid)"
  by (simp add: load_action_def fail_action_def update_actions_def failed.find_guarded terminal_values_iff
      if_distrib [of Not] cong: if_cong) (metis (mono_tags, lifting) option.map_cong)

text \<open>The final status an action would be given now, if it is complete.\<close>

definition final_status :: "bulk_action \<Rightarrow> action_status option" where
  "final_status a =
     (if ba_total_batches a \<le> ba_completed_batches a \<and> ba_status a = PROCESSING
      then Some (if 0 < ba_failure_count a then COMPLETED_WITH_ERRORS else COMPLETED) else None)"

lemma find_conj_key:
  assumes "distinct (map key xs)"
  shows "find (\<lambda>x. key x = k \<and> q x) xs = (case find (\<lambda>x. key x = k) xs of None \<Rightarrow> None
     | Some x \<Rightarrow> if q x then Some x else None)"
  using assms
proof (induction xs)
  case (Cons x xs)
  have "key x = k \<Longrightarrow> find (\<lambda>x. key x = k \<and> q x) xs = None"
    using Cons.prems by (auto simp: find_None_iff) (metis imageI)
  with Cons show ?case by auto
qed simp

text \<open>\<open>finalize_if_complete\<close> as one case distinction on the action it closes.\<close>

lemma finalize_eq:
  assumes "distinct (map ba_id (db_actions d))"
  shows "finalize_if_complete aid now d =
    (case load_action d aid of
       None \<Rightarrow> (None, d)
     | Some a \<Rightarrow>
        (case final_status a of
           None \<Rightarrow> (None, d)
         | Some s \<Rightarrow> (Some s, update_actions (\<lambda>b. ba_id b = aid)
              (\<lambda>b. b\<lparr> ba_status := s, ba_finished_at := Some now \<rparr>) d)))"
proof (cases "find (\<lambda>a. ba_id a = aid) (db_actions d)")
  case None
  then show ?thesis
    by (simp add: finalize_if_complete_def load_action_def find_conj_key [OF assms])
next
  case (Some a)
  show ?thesis
  proof (cases "final_status a")
    case None
    with Some show ?thesis
      by (auto simp: finalize_if_complete_def load_action_def find_conj_key [OF assms] final_status_def
          split: if_splits)
  next
    case (Some s)
    have a: "a \<in> set (db_actions d)" "ba_id a = aid"
      using find_Some_mem [OF \<open>find _ _ = Some a\<close>] by auto
    have same: "b \<in> set (db_actions d) \<Longrightarrow> ba_id b = aid \<Longrightarrow> b = a" for b
      using a assms by (metis eq_key_imp_eq_value distinct_map inj_onD)
    have q: "ba_total_batches a \<le> ba_completed_batches a" "ba_status a = PROCESSING"
      and s: "s = (if 0 < ba_failure_count a then COMPLETED_WITH_ERRORS else COMPLETED)"
      using Some by (auto simp: final_status_def split: if_splits)
    have "upd_where (\<lambda>b. ba_id b = aid \<and> ba_total_batches b \<le> ba_completed_batches b \<and> ba_status b = PROCESSING)
        g (db_actions d) = upd_where (\<lambda>b. ba_id b = aid) g (db_actions d)" for g
      using same q by (auto simp: upd_where_def)
    moreover have "filter (\<lambda>b. ba_id b = aid \<and> ba_total_batches b \<le> ba_completed_batches b \<and>
        ba_status b = PROCESSING) (db_actions d) \<noteq> []"
      using a q by (auto simp: filter_empty_conv)
    ultimately show ?thesis
      using \<open>find _ _ = Some a\<close> Some q s
      by (simp add: finalize_if_complete_def load_action_def find_conj_key [OF assms] update_actions_def)
  qed
qed

section \<open>Properties\<close>

lemma load_finished:
  "load_action (update_actions (\<lambda>b. ba_id b = aid) (\<lambda>b. b\<lparr> ba_status := s, ba_finished_at := t \<rparr>) d) aid =
   map_option (\<lambda>b. b\<lparr> ba_status := s, ba_finished_at := t \<rparr>) (load_action d aid)"
  by (simp add: load_action_def update_actions_def finished.find_updated)

lemma finished_ids:
  "map ba_id (db_actions (update_actions p (\<lambda>b. b\<lparr> ba_status := s, ba_finished_at := t \<rparr>) d)) =
   map ba_id (db_actions d)"
  by (simp add: update_actions_def finished.keys_kept)

text \<open>
  (C12) Closing an action happens once: the call that gets a status back found the action in
  \<open>processing\<close> with every batch reported, leaves it in that terminal status, and any later call
  gets nothing and changes nothing. A call that gets nothing changes nothing.
\<close>

theorem finalize_exactly_once:
  assumes "distinct (map ba_id (db_actions d))"
    and "finalize_if_complete aid now d = (res, d')"
  shows "case res of
      None \<Rightarrow> d' = d
    | Some s \<Rightarrow> (\<exists>a. load_action d aid = Some a \<and> ba_status a = PROCESSING \<and>
         ba_total_batches a \<le> ba_completed_batches a \<and>
         s = (if 0 < ba_failure_count a then COMPLETED_WITH_ERRORS else COMPLETED) \<and>
         load_action d' aid = Some (a\<lparr> ba_status := s, ba_finished_at := Some now \<rparr>)) \<and>
         finalize_if_complete aid now' d' = (None, d')"
proof (cases res)
  case None
  with assms(2) show ?thesis by (auto simp: finalize_eq [OF assms(1)] split: option.splits)
next
  case (Some s)
  then obtain a where a: "load_action d aid = Some a" "final_status a = Some s"
    and d': "d' = update_actions (\<lambda>b. ba_id b = aid) (\<lambda>b. b\<lparr> ba_status := s, ba_finished_at := Some now \<rparr>) d"
    using assms(2) by (auto simp: finalize_eq [OF assms(1)] split: option.splits)
  have dist: "distinct (map ba_id (db_actions d'))" using assms(1) by (simp add: d' finished_ids)
  have l: "load_action d' aid = Some (a\<lparr> ba_status := s, ba_finished_at := Some now \<rparr>)"
    by (simp add: d' load_finished a)
  have "s \<noteq> PROCESSING" using a(2) by (auto simp: final_status_def split: if_splits)
  then have "finalize_if_complete aid now' d' = (None, d')"
    by (simp add: finalize_eq [OF dist] l final_status_def)
  with Some a l show ?thesis by (auto simp: final_status_def split: if_splits)
qed

definition example_action :: "action_status \<Rightarrow> config \<Rightarrow> bulk_action" where
  "example_action st c = \<lparr> ba_id = 100, ba_account_id = 7, ba_entity_type = ''contact'',
     ba_action_type = (case c of BulkUpdateConfig _ \<Rightarrow> ''update'' | BulkDeleteConfig _ \<Rightarrow> ''delete''),
     ba_status = st, ba_configuration = model_dump strict_pydantic c, ba_batch_size = 10,
     ba_scheduled_at = None, ba_total_entities = 0, ba_processed_count = 0, ba_success_count = 0,
     ba_failure_count = 0, ba_skipped_count = 0, ba_total_batches = 0, ba_completed_batches = 0,
     ba_error = None, ba_idempotency_key = None, ba_created_at = 0, ba_started_at = None,
     ba_finished_at = None \<rparr>"

theorem finalize_exactly_once_witness:
  "\<exists>d'. finalize_if_complete 100 9
      (example_db\<lparr> db_actions := [example_action PROCESSING (BulkDeleteConfig (example_delete True))] \<rparr>) =
      (Some COMPLETED, d') \<and> finalize_if_complete 100 10 d' = (None, d')"
proof -
  let ?d = "example_db\<lparr> db_actions := [example_action PROCESSING (BulkDeleteConfig (example_delete True))] \<rparr>"
  have dist: "distinct (map ba_id (db_actions ?d))" by simp
  obtain d' where f: "finalize_if_complete 100 9 ?d = (Some COMPLETED, d')"
    by (simp add: finalize_if_complete_def example_action_def)
  show ?thesis using f finalize_exactly_once [OF dist f, of 10] by auto
qed

text \<open>
  No update is lost: the counter deltas of two batches give the same table in either order,
  and together they are one delta of their sums.
\<close>

theorem counter_deltas_commute:
  "snd (record_batch_completion a p1 s1 f1 k1 b1 (snd (record_batch_completion b p2 s2 f2 k2 b2 d))) =
     snd (record_batch_completion b p2 s2 f2 k2 b2 (snd (record_batch_completion a p1 s1 f1 k1 b1 d))) \<and>
   fst (record_batch_completion a p1 s1 f1 k1 True (snd (record_batch_completion a p2 s2 f2 k2 True d))) =
     map_option (\<lambda>r. (add_counts (p1 + p2) (s1 + s2) (f1 + f2) (k1 + k2) True r)\<lparr>
        ba_completed_batches := ba_completed_batches r + 2 \<rparr>) (load_action d a)"
proof
  show "snd (record_batch_completion a p1 s1 f1 k1 b1 (snd (record_batch_completion b p2 s2 f2 k2 b2 d))) =
     snd (record_batch_completion b p2 s2 f2 k2 b2 (snd (record_batch_completion a p1 s1 f1 k1 b1 d)))"
    by (auto simp: record_batch_completion_def Let_def update_actions_def upd_where_def add_counts_def)
  show "fst (record_batch_completion a p1 s1 f1 k1 True (snd (record_batch_completion a p2 s2 f2 k2 True d))) =
     map_option (\<lambda>r. (add_counts (p1 + p2) (s1 + s2) (f1 + f2) (k1 + k2) True r)\<lparr>
        ba_completed_batches := ba_completed_batches r + 2 \<rparr>) (load_action d a)"
    by (cases "load_action d a") (simp_all add: record_batch_completion_def Let_def load_counted add_counts_def)
qed

end
