(* ===== verification/BatchRunner.thy ===== *)
theory BatchRunner
  imports Progress
begin

text \<open>
  Execution of one batch: \<open>app/services/batch_runner.py\<close>. \<open>run_batch\<close> is the generic pipeline
  (load the slice, report drift, de-duplicate, hand the rest to the handler, write the logs,
  close the batch, move the counters) inside the caller's transaction: an error anywhere is an
  \<open>Inl\<close> and the caller discards the state.
\<close>

definition entity_row_of :: "descriptor \<Rightarrow> crm_row \<Rightarrow> entity_row" where
  "entity_row_of ent r =
     \<lparr> er_id = row_id r, er_values = map (\<lambda>n. (n, row_get r n)) (readable_columns ent) \<rparr>"

text \<open>The WHERE clause for an explicit id list: the ids, the account, and the soft-delete test.\<close>

definition in_explicit_slice :: "descriptor \<Rightarrow> uuid \<Rightarrow> uuid list \<Rightarrow> bool \<Rightarrow> crm_row \<Rightarrow> bool" where
  "in_explicit_slice ent account_id ids include_deleted r \<longleftrightarrow>
     targeted ids account_id r \<and>
     (case ent_soft_delete_column ent of
        Some c \<Rightarrow> c \<noteq> [] \<and> \<not> include_deleted \<longrightarrow> row_get r c = PNone
      | None \<Rightarrow> True)"

text \<open>The rows of the two forms of a batch; \<open>if batch.entity_ids\<close> is a test for a non-empty list.\<close>

definition batch_slice ::
  "sql_driver \<Rightarrow> descriptor \<Rightarrow> uuid \<Rightarrow> batch_row \<Rightarrow> pydict option \<Rightarrow> bool \<Rightarrow> crm_row list \<Rightarrow> crm_row list result" where
  "batch_slice D ent account_id batch filters include_deleted tab =
     (case bb_entity_ids batch of
        Some (i # ids) \<Rightarrow>
          Inr (sort_key row_id (filter (in_explicit_slice ent account_id (i # ids) include_deleted) tab))
      | _ \<Rightarrow>
          rbind (selection_clause ent account_id filters include_deleted) (\<lambda>ps.
          case (bb_cursor_start batch, bb_cursor_end batch) of
            (Some lo, Some hi) \<Rightarrow>
              rbind (select_rows D ent ps tab) (\<lambda>rs.
                Inr (filter (\<lambda>r. lo \<le> row_id r \<and> row_id r \<le> hi) rs))
          | _ \<Rightarrow> Inl (DriverError ''a range needs both cursors'')))"

definition load_batch_rows ::
  "sql_driver \<Rightarrow> descriptor \<Rightarrow> uuid \<Rightarrow> batch_row \<Rightarrow> pydict option \<Rightarrow> bool \<Rightarrow> db \<Rightarrow> entity_row list result" where
  "load_batch_rows D ent account_id batch filters include_deleted d =
     rbind (rmap (column ent) (readable_columns ent)) (\<lambda>_.
     rbind (batch_slice D ent account_id batch filters include_deleted (db_crm d (ent_table ent))) (\<lambda>rs.
       Inr (map (entity_row_of ent) rs)))"

definition drift_outcomes :: "nat \<Rightarrow> entity_outcome list" where
  "drift_outcomes n = replicate n (outcome_skipped None R_LEFT_TARGET_SET
     ''Entity was deleted or stopped matching the filter between planning and execution.'' [])"

definition duplicate_outcomes :: "string \<Rightarrow> (entity_row \<times> string) list \<Rightarrow> entity_outcome list" where
  "duplicate_outcomes fld dups =
     map (\<lambda>(row, key). outcome_skipped (Some (er_id row))
       (if fld = ''email'' then R_DUPLICATE_EMAIL else R_DUPLICATE_KEY)
       (''Duplicate '' @ fld @ '' within this bulk action; the first occurrence was processed.'')
       [(fld, PStr key)]) dups"

text \<open>The de-duplication step: rows to process, outcomes of the others, and the ledger.\<close>

definition dedup_step :: "uuid \<Rightarrow> string option \<Rightarrow> entity_row list \<Rightarrow> db \<Rightarrow>
    entity_row list \<times> entity_outcome list \<times> db" where
  "dedup_step action_id fld rows d =
     (case fld of
        Some f \<Rightarrow>
          if f \<noteq> [] \<and> rows \<noteq> [] then
            (let (res, d') = partition_duplicates action_id rows f d
             in (dr_unique_rows res, duplicate_outcomes f (dr_duplicates res), d'))
          else (rows, [], d)
      | None \<Rightarrow> (rows, [], d))"

definition complete_batch :: "uuid \<Rightarrow> entity_outcome list \<Rightarrow> time \<Rightarrow> db \<Rightarrow> db" where
  "complete_batch batch_id outcomes now =
     update_batches (\<lambda>b. bb_id b = batch_id)
       (\<lambda>b. b\<lparr> bb_status := B_COMPLETED, bb_success_count := result_success_count outcomes,
          bb_failure_count := result_failure_count outcomes,
          bb_skipped_count := result_skipped_count outcomes,
          bb_error := None, bb_finished_at := Some now \<rparr>)"

definition record_result :: "uuid \<Rightarrow> entity_outcome list \<Rightarrow> db \<Rightarrow> db" where
  "record_result action_id outcomes d =
     snd (record_batch_completion action_id (result_processed_count outcomes)
       (result_success_count outcomes) (result_failure_count outcomes)
       (result_skipped_count outcomes) True d)"

definition run_batch ::
  "sql_driver \<Rightarrow> time \<Rightarrow> bulk_action \<Rightarrow> batch_row \<Rightarrow> descriptor \<Rightarrow> handler \<Rightarrow> config \<Rightarrow> db \<Rightarrow>
   (entity_outcome list \<times> db) result" where
  "run_batch D now action batch ent h config d =
     rbind (load_batch_rows D ent (ba_account_id action) batch (selection_filters config)
              (h_include_deleted h) d) (\<lambda>rows.
     let drift = drift_outcomes (bb_entity_count batch - length rows);
         (todo, dups, d1) = dedup_step (ba_id action) (dedup_field config) rows d;
         ctx = \<lparr> ctx_entity = ent, ctx_account_id = ba_account_id action,
                 ctx_bulk_action_id = ba_id action, ctx_batch_id = bb_id batch, ctx_config = config \<rparr>
     in rbind (h_execute h D now ctx todo d1) (\<lambda>(outs, d2).
          let outcomes = drift @ dups @ outs
          in Inr (outcomes,
               record_result (ba_id action) outcomes
                 (complete_batch (bb_id batch) outcomes now
                   (write_outcomes (ba_id action) (Some (bb_id batch)) now outcomes d2)))))"

section \<open>Loading the slice\<close>

lemma selection_clause_account: "selection_clause ent acc flt incl = Inr ps \<Longrightarrow> SAccount acc \<in> set ps"
  by (auto simp: selection_clause_def split: sum.splits)

lemma batch_slice_explicit:
  "bb_entity_ids batch = Some (i # ids) \<Longrightarrow>
   batch_slice D ent acc batch flt incl tab =
     Inr (sort_key row_id (filter (in_explicit_slice ent acc (i # ids) incl) tab))"
  by (simp add: batch_slice_def)

lemma batch_slice_rangeE:
  assumes "batch_slice D ent acc batch flt incl tab = Inr rs"
    and "bb_entity_ids batch = None \<or> bb_entity_ids batch = Some []"
  obtains ps lo hi rs0 where "selection_clause ent acc flt incl = Inr ps"
    and "bb_cursor_start batch = Some lo" and "bb_cursor_end batch = Some hi"
    and "select_rows D ent ps tab = Inr rs0" and "rs = filter (\<lambda>r. lo \<le> row_id r \<and> row_id r \<le> hi) rs0"
  using assms
  by (cases "bb_cursor_start batch"; cases "bb_cursor_end batch") (auto simp: batch_slice_def rbind_Inr)

lemma batch_slice_scoped:
  assumes "batch_slice D ent acc batch flt incl tab = Inr rs" and "r \<in> set rs"
  shows "r \<in> set tab \<and> row_account_id r = acc"
proof (cases "bb_entity_ids batch = None \<or> bb_entity_ids batch = Some []")
  case True
  from assms(1) this show ?thesis
  proof (rule batch_slice_rangeE)
    fix ps lo hi rs0
    assume "selection_clause ent acc flt incl = Inr ps" and s: "select_rows D ent ps tab = Inr rs0"
      and "rs = filter (\<lambda>r. lo \<le> row_id r \<and> row_id r \<le> hi) rs0"
    then have "SAccount acc \<in> set ps" and "r \<in> set rs0"
      using assms(2) selection_clause_account by auto
    then show ?thesis unfolding select_rows_mem [OF s] by fastforce
  qed
next
  case False
  then obtain i ids where "bb_entity_ids batch = Some (i # ids)"
    by (cases "bb_entity_ids batch") (auto simp: neq_Nil_conv)
  with assms show ?thesis
    by (auto simp: batch_slice_explicit in_explicit_slice_def targeted_def)
qed

lemma load_batch_rows_InrD:
  assumes "load_batch_rows D ent acc batch flt incl d = Inr rows"
  obtains rs where "rows = map (entity_row_of ent) rs"
    and "batch_slice D ent acc batch flt incl (db_crm d (ent_table ent)) = Inr rs"
  using assms by (auto simp: load_batch_rows_def rbind_Inr)

lemma load_batch_rows_scoped:
  assumes "load_batch_rows D ent acc batch flt incl d = Inr rows" and "i \<in> er_id ` set rows"
  shows "\<exists>r \<in> set (db_crm d (ent_table ent)). row_id r = i \<and> row_account_id r = acc"
proof -
  from assms(1) obtain rs where rs: "rows = map (entity_row_of ent) rs"
    and sl: "batch_slice D ent acc batch flt incl (db_crm d (ent_table ent)) = Inr rs"
    by (rule load_batch_rows_InrD)
  from assms(2) obtain r where "r \<in> set rs" and "row_id r = i" by (auto simp: rs entity_row_of_def)
  with batch_slice_scoped [OF sl] show ?thesis by blast
qed

lemma dedup_step_spec:
  assumes "dedup_step aid fld rows d = (todo, dups, d1)"
  shows "mset (map (\<lambda>r. Some (er_id r)) todo) + mset (map eo_entity_id dups) = mset (map (\<lambda>r. Some (er_id r)) rows)"
    and "d1 = d\<lparr> db_dedup := db_dedup d1 \<rparr>"
    and "count_status L_SUCCESS dups = 0" and "count_status L_FAILED dups = 0"
proof -
  have dup: "map eo_entity_id (duplicate_outcomes f xs) = map (\<lambda>r. Some (er_id r)) (map fst xs)"
    "count_status L_SUCCESS (duplicate_outcomes f xs) = 0" "count_status L_FAILED (duplicate_outcomes f xs) = 0" for f xs
    by (auto simp: duplicate_outcomes_def split_def count_status_def filter_empty_conv)
  consider "todo = rows" "dups = []" "d1 = d"
    | f res where "partition_duplicates aid rows f d = (res, d1)" "todo = dr_unique_rows res"
        "dups = duplicate_outcomes f (dr_duplicates res)"
    using assms by (auto simp: dedup_step_def split: option.splits if_splits prod.splits)
  then have "mset (map (\<lambda>r. Some (er_id r)) todo) + mset (map eo_entity_id dups) = mset (map (\<lambda>r. Some (er_id r)) rows) \<and>
    d1 = d\<lparr> db_dedup := db_dedup d1 \<rparr> \<and> count_status L_SUCCESS dups = 0 \<and> count_status L_FAILED dups = 0"
  proof cases
    case (2 f res)
    have "mset (map (\<lambda>r. Some (er_id r)) (dr_unique_rows res)) +
        mset (map (\<lambda>r. Some (er_id r)) (map fst (dr_duplicates res))) = mset (map (\<lambda>r. Some (er_id r)) rows)"
      using arg_cong [OF partition_duplicates_spec(3) [OF 2(1)], of "image_mset (\<lambda>r. Some (er_id r))"]
      by (simp only: mset_map image_mset_union)
    then show ?thesis
      using partition_duplicates_spec(6) [OF 2(1)] by (simp only: 2(2,3) dup simp_thms)
  qed simp
  then show "mset (map (\<lambda>r. Some (er_id r)) todo) + mset (map eo_entity_id dups) = mset (map (\<lambda>r. Some (er_id r)) rows)"
    and "d1 = d\<lparr> db_dedup := db_dedup d1 \<rparr>"
    and "count_status L_SUCCESS dups = 0" and "count_status L_FAILED dups = 0" by blast+
qed

section \<open>The pipeline\<close>

lemma run_batch_InrE:
  assumes "run_batch D now action batch ent h config d = Inr (outcomes, d')"
  obtains rows todo dups d1 outs d2 where
    "load_batch_rows D ent (ba_account_id action) batch (selection_filters config) (h_include_deleted h) d = Inr rows"
    and "dedup_step (ba_id action) (dedup_field config) rows d = (todo, dups, d1)"
    and "h_execute h D now \<lparr> ctx_entity = ent, ctx_account_id = ba_account_id action,
          ctx_bulk_action_id = ba_id action, ctx_batch_id = bb_id batch, ctx_config = config \<rparr> todo d1 = Inr (outs, d2)"
    and "outcomes = drift_outcomes (bb_entity_count batch - length rows) @ dups @ outs"
    and "d' = record_result (ba_id action) outcomes (complete_batch (bb_id batch) outcomes now
          (write_outcomes (ba_id action) (Some (bb_id batch)) now outcomes d2))"
proof -
  from assms obtain rows where rows: "load_batch_rows D ent (ba_account_id action) batch
      (selection_filters config) (h_include_deleted h) d = Inr rows"
    by (auto simp: run_batch_def rbind_Inr)
  obtain todo dups d1 where dd: "dedup_step (ba_id action) (dedup_field config) rows d = (todo, dups, d1)"
    by (cases "dedup_step (ba_id action) (dedup_field config) rows d") auto
  from assms rows dd obtain outs d2 where "h_execute h D now \<lparr> ctx_entity = ent, ctx_account_id = ba_account_id action,
          ctx_bulk_action_id = ba_id action, ctx_batch_id = bb_id batch, ctx_config = config \<rparr> todo d1 = Inr (outs, d2)"
    and "outcomes = drift_outcomes (bb_entity_count batch - length rows) @ dups @ outs"
    and "d' = record_result (ba_id action) outcomes (complete_batch (bb_id batch) outcomes now
          (write_outcomes (ba_id action) (Some (bb_id batch)) now outcomes d2))"
    by (auto simp: run_batch_def rbind_Inr Let_def)
  with rows dd show ?thesis by (rule that)
qed

lemma drift_outcomes_sel [simp]:
  "length (drift_outcomes n) = n" "map eo_entity_id (drift_outcomes n) = replicate n None"
  by (simp_all add: drift_outcomes_def)

lemma record_result_frame [simp, frame_simps]:
  "db_accounts (record_result aid os d) = db_accounts d" "db_crm (record_result aid os d) = db_crm d"
  "db_batches (record_result aid os d) = db_batches d" "db_logs (record_result aid os d) = db_logs d"
  "db_dedup (record_result aid os d) = db_dedup d"
  by (simp_all add: record_result_def record_batch_completion_def Let_def)

definition counted_result :: "entity_outcome list \<Rightarrow> bulk_action \<Rightarrow> bulk_action" where
  "counted_result os = add_counts (length os) (count_status L_SUCCESS os) (count_status L_FAILED os)
     (count_status L_SKIPPED os) True"

lemma record_result_actions:
  "db_actions (record_result aid os d) = upd_where (\<lambda>a. ba_id a = aid) (counted_result os) (db_actions d)"
  by (simp add: record_result_def record_batch_completion_def Let_def update_actions_def counted_result_def result_counts)

lemma complete_batch_frame [simp, frame_simps]:
  "db_accounts (complete_batch bid os now d) = db_accounts d" "db_crm (complete_batch bid os now d) = db_crm d"
  "db_actions (complete_batch bid os now d) = db_actions d" "db_logs (complete_batch bid os now d) = db_logs d"
  "db_dedup (complete_batch bid os now d) = db_dedup d"
  by (simp_all add: complete_batch_def)

definition completed_with :: "entity_outcome list \<Rightarrow> time \<Rightarrow> batch_row \<Rightarrow> batch_row" where
  "completed_with os now b = b\<lparr> bb_status := B_COMPLETED, bb_success_count := count_status L_SUCCESS os,
     bb_failure_count := count_status L_FAILED os, bb_skipped_count := count_status L_SKIPPED os,
     bb_error := None, bb_finished_at := Some now \<rparr>"

lemma complete_batch_batches:
  "db_batches (complete_batch bid os now d) = upd_where (\<lambda>b. bb_id b = bid) (completed_with os now) (db_batches d)"
  by (simp add: complete_batch_def update_batches_def completed_with_def result_counts fun_eq_iff upd_where_def)

interpretation closed: keyed_update bb_id "completed_with os now" for os now
  by unfold_locales (simp add: completed_with_def)

lemma writes_within_crm:
  "writes_within t ids acc d d' \<Longrightarrow> db_crm e = db_crm d \<Longrightarrow> writes_within t ids acc e (e\<lparr> db_crm := db_crm d' \<rparr>)"
  by (simp add: writes_within_def)

context action_handler
begin

text \<open>What one run of the pipeline commits, table by table.\<close>

lemma run_batch_spec:
  assumes "run_batch D now action batch ent h config d = Inr (outcomes, d')"
  obtains rows where
    "load_batch_rows D ent (ba_account_id action) batch (selection_filters config) (h_include_deleted h) d = Inr rows"
    and "mset (map eo_entity_id outcomes) =
      replicate_mset (bb_entity_count batch - length rows) None + mset (map (\<lambda>r. Some (er_id r)) rows)"
    and "length outcomes = max (bb_entity_count batch) (length rows)"
    and "db_actions d' = upd_where (\<lambda>a. ba_id a = ba_id action) (counted_result outcomes) (db_actions d)"
    and "db_batches d' = upd_where (\<lambda>b. bb_id b = bb_id batch) (completed_with outcomes now) (db_batches d)"
    and "db_logs d' = db_logs (write_outcomes (ba_id action) (Some (bb_id batch)) now outcomes d)"
    and "db_accounts d' = db_accounts d"
    and "writes_within (ent_table ent) (map er_id rows) (ba_account_id action) d (d\<lparr> db_crm := db_crm d' \<rparr>)"
  using assms
proof (rule run_batch_InrE)
  fix rows todo dups d1 outs d2
  let ?ctx = "\<lparr> ctx_entity = ent, ctx_account_id = ba_account_id action,
     ctx_bulk_action_id = ba_id action, ctx_batch_id = bb_id batch, ctx_config = config \<rparr>"
  assume rows: "load_batch_rows D ent (ba_account_id action) batch (selection_filters config) (h_include_deleted h) d = Inr rows"
    and dd: "dedup_step (ba_id action) (dedup_field config) rows d = (todo, dups, d1)"
    and ex: "h_execute h D now ?ctx todo d1 = Inr (outs, d2)"
    and os: "outcomes = drift_outcomes (bb_entity_count batch - length rows) @ dups @ outs"
    and d': "d' = record_result (ba_id action) outcomes (complete_batch (bb_id batch) outcomes now
          (write_outcomes (ba_id action) (Some (bb_id batch)) now outcomes d2))"
  have f1: "db_accounts d1 = db_accounts d" "db_crm d1 = db_crm d" "db_actions d1 = db_actions d"
    "db_batches d1 = db_batches d" "db_logs d1 = db_logs d"
    by (subst dedup_step_spec(2) [OF dd], simp)+
  note f2 = control_plane_untouched [OF ex]
  have ids: "mset (map eo_entity_id outcomes) =
      replicate_mset (bb_entity_count batch - length rows) None + mset (map (\<lambda>r. Some (er_id r)) rows)"
    unfolding os map_append mset_append one_outcome [OF ex] dedup_step_spec(1) [OF dd, symmetric]
    by (simp add: add.commute)
  have "length outcomes = (bb_entity_count batch - length rows) + length rows"
    using arg_cong [OF ids, of size]
    by (simp only: size_mset length_map size_union size_replicate_mset)
  then have len: "length outcomes = max (bb_entity_count batch) (length rows)"
    by (simp add: max_def)
  have "Some ` set (map er_id todo) \<subseteq> Some ` set (map er_id rows)"
    using arg_cong [OF dedup_step_spec(1) [OF dd], of set_mset] by (auto simp: image_image)
  then have sub: "set (map er_id todo) \<subseteq> set (map er_id rows)" by blast
  have "writes_within (ent_table ent) (map er_id rows) (ba_account_id action) d (d\<lparr> db_crm := db_crm d2 \<rparr>)"
    using writes_within_crm [OF writes_within_mono [OF within [OF ex] sub], of d] f1(2) by simp
  then show thesis
    using that [OF rows ids len] f1 f2
    by (simp add: d' record_result_actions complete_batch_batches write_outcomes_def next_log_id_def)
qed

end

section \<open>Properties\<close>



text \<open>
  Ids that name no live entity of the account (another tenant's, deleted, unknown) are
  skipped anonymously: a batch made of such ids alone reports one \<open>left_target_set\<close> outcome
  without an entity id for each of them and writes no entity. None is reported as
  \<open>entity_not_found\<close>.
\<close>

theorem foreign_ids_are_anonymous:
  assumes "get_action shipped_actions t n = Inr h"
    and "run_batch D now action batch ent h config d = Inr (outcomes, d')"
    and "bb_entity_ids batch = Some ids" and "ids \<noteq> []"
    and "\<forall>r \<in> set (db_crm d (ent_table ent)). row_id r \<in> set ids \<longrightarrow> row_account_id r \<noteq> ba_account_id action"
  shows "outcomes = drift_outcomes (bb_entity_count batch) \<and> db_crm d' = db_crm d \<and>
    list_all (\<lambda>oc. eo_entity_id oc = None \<and> eo_status oc = L_SKIPPED \<and> eo_reason_code oc = Some R_LEFT_TARGET_SET) outcomes"
proof -
  from assms(2) obtain rows todo dups d1 outs d2 where
    rows: "load_batch_rows D ent (ba_account_id action) batch (selection_filters config) (h_include_deleted h) d = Inr rows"
    and dd: "dedup_step (ba_id action) (dedup_field config) rows d = (todo, dups, d1)"
    and ex: "h_execute h D now \<lparr> ctx_entity = ent, ctx_account_id = ba_account_id action,
          ctx_bulk_action_id = ba_id action, ctx_batch_id = bb_id batch, ctx_config = config \<rparr> todo d1 = Inr (outs, d2)"
    and os: "outcomes = drift_outcomes (bb_entity_count batch - length rows) @ dups @ outs"
    and d': "d' = record_result (ba_id action) outcomes (complete_batch (bb_id batch) outcomes now
          (write_outcomes (ba_id action) (Some (bb_id batch)) now outcomes d2))"
    by (rule run_batch_InrE)
  from rows obtain rs where rs: "rows = map (entity_row_of ent) rs"
    and sl: "batch_slice D ent (ba_account_id action) batch (selection_filters config) (h_include_deleted h)
      (db_crm d (ent_table ent)) = Inr rs"
    by (rule load_batch_rows_InrD)
  obtain i js where ids: "ids = i # js" using assms(4) by (cases ids) auto
  have "filter (in_explicit_slice ent (ba_account_id action) ids (h_include_deleted h)) (db_crm d (ent_table ent)) = []"
    using assms(5) by (auto simp: filter_empty_conv in_explicit_slice_def targeted_def)
  with sl have "rs = []" by (simp add: batch_slice_explicit [OF assms(3) [unfolded ids]] ids)
  then have "rows = []" by (simp add: rs)
  with dd have "todo = []" "dups = []" "d1 = d" by (auto simp: dedup_step_def split: option.splits)
  with ex shipped_action_cases [OF assms(1)] have "outs = []" "d2 = d"
    by (auto simp: update_handler_def delete_handler_def update_execute_def delete_execute_def)
  with os \<open>rows = []\<close> \<open>dups = []\<close> d' show ?thesis
    by (simp add: drift_outcomes_def outcome_skipped_def list_all_iff)
qed

section \<open>Examples\<close>

definition example_batch :: "batch_status \<Rightarrow> nat \<Rightarrow> batch_row" where
  "example_batch st n = \<lparr> bb_id = 200, bb_bulk_action_id = 100, bb_batch_index = 0, bb_status = st,
     bb_entity_ids = None, bb_cursor_start = Some 1, bb_cursor_end = Some 5, bb_entity_count = n,
     bb_success_count = 0, bb_failure_count = 0, bb_skipped_count = 0, bb_attempts = 0, bb_error = None,
     bb_created_at = 0, bb_started_at = None, bb_finished_at = None \<rparr>"

definition example_age_update :: config where
  "example_age_update = BulkUpdateConfig (example_update [(''age'', PInt 40)])"

definition running_db :: db where
  "running_db = example_db\<lparr> db_actions := [example_action PROCESSING example_age_update],
     db_batches := [example_batch B_PROCESSING 3] \<rparr>"

lemma example_run_batch:
  "\<exists>outcomes d'. run_batch plain_driver 9 (example_action PROCESSING example_age_update)
     (example_batch B_PROCESSING 3) contact_entity update_handler example_age_update running_db = Inr (outcomes, d') \<and>
     map eo_status outcomes = [L_SKIPPED, L_SUCCESS, L_SUCCESS]"
proof -
  have "(case run_batch plain_driver 9 (example_action PROCESSING example_age_update)
     (example_batch B_PROCESSING 3) contact_entity update_handler example_age_update running_db of
       Inr (outcomes, d') \<Rightarrow> map eo_status outcomes = [L_SKIPPED, L_SUCCESS, L_SUCCESS] | Inl _ \<Rightarrow> False)"
    by code_simp
  then show ?thesis by (auto split: sum.splits)
qed

lemma get_update: "get_action shipped_actions ''update'' (Some ''contact'') = Inr update_handler"
  by (simp add: get_action_def shipped_actions_def supports_def update_handler_def)



theorem foreign_ids_are_anonymous_witness:
  "\<exists>outcomes d'. run_batch plain_driver 9 (example_action PROCESSING example_age_update)
     ((example_batch B_PROCESSING 1)\<lparr> bb_entity_ids := Some [3] \<rparr>) contact_entity update_handler
     example_age_update running_db = Inr (outcomes, d') \<and> map eo_reason_code outcomes = [Some R_LEFT_TARGET_SET]"
proof -
  let ?b = "(example_batch B_PROCESSING 1)\<lparr> bb_entity_ids := Some [3] \<rparr>"
  let ?a = "example_action PROCESSING example_age_update"
  have "case run_batch plain_driver 9 ?a ?b contact_entity update_handler example_age_update running_db of
      Inr _ \<Rightarrow> True | Inl _ \<Rightarrow> False"
    by code_simp
  then obtain outcomes d' where r: "run_batch plain_driver 9 ?a ?b contact_entity update_handler
      example_age_update running_db = Inr (outcomes, d')"
    by (auto split: sum.splits)
  have i: "bb_entity_ids ?b = Some [3]" and n: "bb_entity_count ?b = 1" by (simp_all add: example_batch_def)
  have f: "\<forall>r \<in> set (db_crm running_db (ent_table contact_entity)). row_id r \<in> set [3] \<longrightarrow>
      row_account_id r \<noteq> ba_account_id ?a"
    by (simp add: running_db_def example_db_def contact_entity_def example_contact_def example_action_def)
  show ?thesis
    using r foreign_ids_are_anonymous [OF get_update r i _ f] n
    by (auto simp: drift_outcomes_def outcome_skipped_def)
qed

end
