(* ===== verification/Batching.thy ===== *)
theory Batching
  imports Filters "HOL-Library.Multiset"
begin

text \<open>
  Batch planning, \<open>app/services/batching.py\<close>. \<open>plan_batches\<close> is an asynchronous generator; the
  model keeps its suspended state as a value (\<open>plan_gen\<close>) and \<open>gen_next\<close> resumes it against the
  table as it is at that moment, one short transaction per page. \<open>plan_all\<close> drains a generator
  while the table may change between pages: \<open>tab i\<close> is the table the \<open>i\<close>-th page query sees.
\<close>

record planned_batch =
  pb_index :: nat
  pb_entity_count :: nat
  pb_entity_ids :: "uuid list option"
  pb_cursor_start :: "uuid option"
  pb_cursor_end :: "uuid option"

definition effective_batch_size :: "settings \<Rightarrow> int option \<Rightarrow> int \<Rightarrow> int" where
  "effective_batch_size S requested rate_limit_per_minute =
     (let size0 = (case requested of
                     None \<Rightarrow> s_batch_size S
                   | Some r \<Rightarrow> if r = 0 then s_batch_size S else r);
          size1 = max 1 (min size0 (s_max_batch_size S))
      in max 1 (min size1 rate_limit_per_minute))"

definition ids_batch :: "nat \<Rightarrow> uuid list \<Rightarrow> planned_batch" where
  "ids_batch index ids =
     (let chunk = sort ids in
      \<lparr> pb_index = index, pb_entity_count = length chunk, pb_entity_ids = Some chunk,
        pb_cursor_start = Some (hd chunk), pb_cursor_end = Some (last chunk) \<rparr>)"

definition plan_from_ids :: "uuid list \<Rightarrow> nat \<Rightarrow> planned_batch list result" where
  "plan_from_ids entity_ids batch_size =
     (if batch_size = 0 then Inl (ValueError ''range() arg 3 must not be zero'')
      else Inr (map (\<lambda>(index, chunk). ids_batch index chunk)
                    (enumerate 0 (chunks batch_size (fromkeys entity_ids)))))"

text \<open>\<open>SELECT id \<dots> WHERE ps AND id > last_id ORDER BY id LIMIT n\<close>.\<close>

definition fetch_page ::
  "sql_driver \<Rightarrow> descriptor \<Rightarrow> sql_pred list \<Rightarrow> uuid option \<Rightarrow> nat \<Rightarrow> crm_row list \<Rightarrow> uuid list result" where
  "fetch_page D ent ps last_id n rows =
     (case select_rows D ent ps rows of
        Inl e \<Rightarrow> Inl e
      | Inr rs \<Rightarrow>
          Inr (take n (filter (\<lambda>i. case last_id of None \<Rightarrow> True | Some l \<Rightarrow> l < i) (map row_id rs))))"

definition range_batch :: "nat \<Rightarrow> uuid list \<Rightarrow> planned_batch" where
  "range_batch index ids =
     \<lparr> pb_index = index, pb_entity_count = length ids, pb_entity_ids = None,
       pb_cursor_start = Some (hd ids), pb_cursor_end = Some (last ids) \<rparr>"

text \<open>A suspended generator: walking by keyset (where clause, last id, next index, whether the
  last page was short), or handing out the chunks of an explicit id list.\<close>

datatype plan_gen =
    FilterGen "sql_pred list" "uuid option" nat bool
  | IdsGen "planned_batch list"

fun gen_next ::
  "sql_driver \<Rightarrow> descriptor \<Rightarrow> nat \<Rightarrow> crm_row list \<Rightarrow> plan_gen \<Rightarrow> (planned_batch \<times> plan_gen) option result"
where
  "gen_next D ent batch_size rows (FilterGen ps last_id index finished) =
     (if finished then Inr None
      else case fetch_page D ent ps last_id batch_size rows of
          Inl e \<Rightarrow> Inl e
        | Inr ids \<Rightarrow>
            if ids = [] then Inr None
            else Inr (Some (range_batch index ids,
                   FilterGen ps (Some (last ids)) (Suc index) (length ids < batch_size))))"
| "gen_next D ent batch_size rows (IdsGen []) = Inr None"
| "gen_next D ent batch_size rows (IdsGen (p # ps)) = Inr (Some (p, IdsGen ps))"

definition plan_batches ::
  "descriptor \<Rightarrow> uuid \<Rightarrow> nat \<Rightarrow> pydict option \<Rightarrow> uuid list option \<Rightarrow> bool \<Rightarrow> plan_gen result" where
  "plan_batches ent account_id batch_size filters entity_ids include_deleted =
     (case entity_ids of
        Some ids \<Rightarrow>
          (case plan_from_ids ids batch_size of Inl e \<Rightarrow> Inl e | Inr bs \<Rightarrow> Inr (IdsGen bs))
      | None \<Rightarrow>
          (case selection_clause ent account_id filters include_deleted of
             Inl e \<Rightarrow> Inl e
           | Inr ps \<Rightarrow> Inr (FilterGen ps None 0 False)))"

section \<open>Every walk ends\<close>

text \<open>The measure is the part of the 128-bit id space the keyset has not passed yet.\<close>

fun gen_measure :: "plan_gen \<Rightarrow> nat" where
  "gen_measure (FilterGen ps last_id index finished) =
     (if finished then 0
      else case last_id of None \<Rightarrow> 2 ^ 128 + 1 | Some u \<Rightarrow> 2 ^ 128 - unat u)"
| "gen_measure (IdsGen bs) = length bs"

lemma fetch_page_after:
  "fetch_page D ent ps last_id n rows = Inr ids \<Longrightarrow> i \<in> set ids \<Longrightarrow> last_id = Some l \<Longrightarrow> l < i"
  by (auto simp: fetch_page_def split: sum.splits dest: in_set_takeD)

lemma gen_next_decreases:
  assumes "gen_next D ent n rows g = Inr (Some (p, g'))"
  shows "gen_measure g' < gen_measure g"
proof (cases g)
  case (IdsGen bs)
  with assms show ?thesis by (cases bs) auto
next
  case (FilterGen ps last_id index finished)
  with assms obtain ids where ids: "fetch_page D ent ps last_id n rows = Inr ids" "ids \<noteq> []"
    and g': "g' = FilterGen ps (Some (last ids)) (Suc index) (length ids < n)" and f: "\<not> finished"
    by (auto split: if_splits sum.splits)
  have b: "unat (u :: uuid) < 2 ^ 128" for u
    using unsigned_less [of u, where ?'a = nat] by simp
  have "l < last ids" if "last_id = Some l" for l
    using fetch_page_after [OF ids(1) last_in_set [OF ids(2)] that] .
  then have "unat l < unat (last ids)" if "last_id = Some l" for l
    using that by (simp add: word_less_nat_alt)
  with b [of "last ids"] f show ?thesis
    by (fastforce simp: FilterGen g' split: option.splits)
qed

function plan_all ::
  "sql_driver \<Rightarrow> descriptor \<Rightarrow> nat \<Rightarrow> (nat \<Rightarrow> crm_row list) \<Rightarrow> nat \<Rightarrow> plan_gen \<Rightarrow> planned_batch list result"
where
  "plan_all D ent n tab k g =
     (case gen_next D ent n (tab k) g of
        Inl e \<Rightarrow> Inl e
      | Inr None \<Rightarrow> Inr []
      | Inr (Some (p, g')) \<Rightarrow>
          (case plan_all D ent n tab (Suc k) g' of Inl e \<Rightarrow> Inl e | Inr bs \<Rightarrow> Inr (p # bs)))"
  by pat_completeness auto
termination
  by (relation "measure (\<lambda>(D, ent, n, tab, k, g). gen_measure g)") (auto dest: gen_next_decreases)

declare plan_all.simps [simp del]

section \<open>Batch sizes\<close>

text \<open>
  The batch size stored with an action is at least one and, for an account whose limit is
  positive, at most that limit: charging a whole batch to the account's bucket can then be
  refused for now but never raises.
\<close>

theorem effective_batch_size_admissible:
  assumes "0 < limit" and "0 < amount" and "amount \<le> effective_batch_size S requested limit"
  shows "1 \<le> effective_batch_size S requested limit \<and> effective_batch_size S requested limit \<le> limit \<and>
    effective_batch_size S requested limit \<le> max 1 (s_max_batch_size S) \<and> amount \<le> limit"
proof -
  have "1 \<le> effective_batch_size S requested limit" and "effective_batch_size S requested limit \<le> limit"
    and "effective_batch_size S requested limit \<le> max 1 (s_max_batch_size S)"
    using assms(1) by (simp_all add: effective_batch_size_def Let_def)
  with assms(3) show ?thesis by linarith
qed

theorem effective_batch_size_admissible_witness:
  "effective_batch_size default_settings (Some 5000) 600 = 600 \<and> (600::int) \<le> 600"
  using effective_batch_size_admissible [of 600 600 default_settings "Some 5000"]
  by (simp add: effective_batch_size_def)

section \<open>Explicit ids\<close>

lemma plan_from_ids_Inr:
  "plan_from_ids ids n = Inr bs \<Longrightarrow>
   0 < n \<and> bs = map (\<lambda>(i, c). ids_batch i c) (enumerate 0 (chunks n (fromkeys ids)))"
  by (auto simp: plan_from_ids_def split: if_splits)

lemma ids_batch_sel [simp]:
  "pb_index (ids_batch i c) = i" "pb_entity_ids (ids_batch i c) = Some (sort c)"
  "pb_entity_count (ids_batch i c) = length c"
  by (simp_all add: ids_batch_def Let_def)

lemma map_enumerate_snd: "map (\<lambda>(i, c). f c) (enumerate k xs) = map f xs"
  by (induction xs arbitrary: k) auto

text \<open>
  Explicit ids are frozen exactly: the batches' id lists are together a permutation of the
  distinct ids the client named, so every id is in one batch and none is in two; batches are
  numbered from zero, non-empty, within the batch size and sorted, and their counts add up to
  the number of distinct ids.
\<close>

theorem plan_from_ids_partition:
  assumes "plan_from_ids ids n = Inr bs"
  shows "mset (concat (map (the \<circ> pb_entity_ids) bs)) = mset_set (set ids) \<and>
    map pb_index bs = [0..<length bs] \<and>
    sum_list (map pb_entity_count bs) = card (set ids) \<and>
    list_all (\<lambda>b. 0 < pb_entity_count b \<and> pb_entity_count b \<le> n \<and> sorted (the (pb_entity_ids b))) bs"
proof -
  let ?cs = "chunks n (fromkeys ids)"
  from assms have n: "0 < n" and bs: "bs = map (\<lambda>(i, c). ids_batch i c) (enumerate 0 ?cs)"
    using plan_from_ids_Inr by blast+
  have ms: "map (the \<circ> pb_entity_ids) bs = map sort ?cs"
    by (simp add: bs comp_def case_prod_beta flip: map_enumerate_snd [of sort 0])
  have "mset (concat (map sort ?cs)) = mset (concat ?cs)"
    by (simp add: mset_concat comp_def)
  then have perm: "mset (concat (map (the \<circ> pb_entity_ids) bs)) = mset_set (set ids)"
    by (simp add: ms concat_chunks [OF n] flip: mset_set_set [OF distinct_fromkeys])
  have cnt: "map pb_entity_count bs = map length ?cs"
    by (simp add: bs comp_def case_prod_beta flip: map_enumerate_snd [of length 0])
  have "sum_list (map length ?cs) = length (concat ?cs)" by (simp add: length_concat)
  then have "sum_list (map pb_entity_count bs) = card (set ids)"
    using distinct_card [OF distinct_fromkeys, of ids] by (simp add: cnt concat_chunks [OF n])
  moreover have "map pb_index bs = [0..<length bs]"
    by (simp add: bs comp_def case_prod_beta enumerate_eq_zip)
  moreover have "list_all (\<lambda>b. 0 < pb_entity_count b \<and> pb_entity_count b \<le> n \<and>
      sorted (the (pb_entity_ids b))) bs"
    unfolding list_all_iff
  proof
    fix b assume "b \<in> set bs"
    then obtain i c where "b = ids_batch i c" and "c \<in> set ?cs"
      by (auto simp: bs in_set_enumerate_eq)
    then show "0 < pb_entity_count b \<and> pb_entity_count b \<le> n \<and> sorted (the (pb_entity_ids b))"
      using chunks_length [of c n "fromkeys ids"] by simp
  qed
  ultimately show ?thesis using perm by blast
qed

theorem plan_from_ids_partition_witness:
  "\<exists>bs. plan_from_ids [5, 3, 5, 1] 2 = Inr bs \<and> map pb_entity_count bs = [2, 1] \<and>
    sum_list (map pb_entity_count bs) = card {5, 3, 5, 1 :: uuid}"
proof -
  let ?bs = "[ids_batch 0 [5, 3], ids_batch 1 [1]]"
  have p: "plan_from_ids [5, 3, 5, 1] 2 = Inr ?bs"
    by (simp add: plan_from_ids_def fromkeys_def chunks.simps)
  show ?thesis using p plan_from_ids_partition [OF p] by auto
qed

section \<open>Keyset pagination\<close>

lemma fetch_page_sorted: "fetch_page D ent ps last_id n rows = Inr ids \<Longrightarrow> sorted ids"
  by (auto simp: fetch_page_def select_rows_def split: sum.splits if_splits
      intro!: sorted_wrt_take sorted_wrt_filter)

lemma fetch_page_length: "fetch_page D ent ps last_id n rows = Inr ids \<Longrightarrow> length ids \<le> n"
  by (auto simp: fetch_page_def split: sum.splits)

lemma plan_all_Cons:
  assumes "plan_all D ent n tab k (FilterGen ps l idx fin) = Inr (b # bs)"
  obtains ids where "ids \<noteq> []" and "b = range_batch idx ids" and "sorted ids" and "length ids \<le> n"
    and "\<forall>i \<in> set ids. case l of None \<Rightarrow> True | Some l' \<Rightarrow> l' < i"
    and "plan_all D ent n tab (Suc k) (FilterGen ps (Some (last ids)) (Suc idx) (length ids < n)) = Inr bs"
proof -
  from assms obtain ids where f: "fetch_page D ent ps l n (tab k) = Inr ids" and *: "ids \<noteq> []"
    "b = range_batch idx ids"
    "plan_all D ent n tab (Suc k) (FilterGen ps (Some (last ids)) (Suc idx) (length ids < n)) = Inr bs"
    by (subst (asm) plan_all.simps) (auto split: sum.splits option.splits if_splits)
  have "\<forall>i \<in> set ids. case l of None \<Rightarrow> True | Some l' \<Rightarrow> l' < i"
    using fetch_page_after [OF f] by (auto split: option.splits)
  then show ?thesis
    using that * fetch_page_sorted [OF f] fetch_page_length [OF f] by blast
qed

lemma range_batch_sel [simp]:
  "pb_index (range_batch i c) = i" "pb_entity_ids (range_batch i c) = None"
  "pb_entity_count (range_batch i c) = length c"
  "pb_cursor_start (range_batch i c) = Some (hd c)" "pb_cursor_end (range_batch i c) = Some (last c)"
  by (simp_all add: range_batch_def)

definition well_walked :: "nat \<Rightarrow> uuid option \<Rightarrow> planned_batch \<Rightarrow> bool" where
  "well_walked n l b \<longleftrightarrow>
     pb_entity_ids b = None \<and> 0 < pb_entity_count b \<and> pb_entity_count b \<le> n \<and>
     (\<exists>s e. pb_cursor_start b = Some s \<and> pb_cursor_end b = Some e \<and> s \<le> e \<and>
        (case l of None \<Rightarrow> True | Some l' \<Rightarrow> l' < s))"

lemma plan_all_walk:
  assumes "plan_all D ent n tab k (FilterGen ps l idx fin) = Inr bs"
  shows "list_all (well_walked n l) bs \<and>
    sorted_wrt (\<lambda>b c. the (pb_cursor_end b) < the (pb_cursor_start c)) bs \<and>
    map pb_index bs = [idx..<idx + length bs]"
  using assms
proof (induction bs arbitrary: k l idx fin)
  case Nil
  then show ?case by simp
next
  case (Cons b bs)
  from Cons.prems obtain ids where ids: "ids \<noteq> []" "b = range_batch idx ids" "sorted ids" "length ids \<le> n"
    and low: "\<forall>i \<in> set ids. case l of None \<Rightarrow> True | Some l' \<Rightarrow> l' < i"
    and rest: "plan_all D ent n tab (Suc k) (FilterGen ps (Some (last ids)) (Suc idx) (length ids < n)) = Inr bs"
    by (rule plan_all_Cons)
  note IH = Cons.IH [OF rest]
  have ends: "hd ids \<le> last ids" using ids(1,3) by (cases ids) auto
  have later: "last ids < the (pb_cursor_start c) \<and> well_walked n l c" if "c \<in> set bs" for c
  proof -
    have w: "well_walked n (Some (last ids)) c" using IH that by (simp add: list_all_iff)
    moreover have "case l of None \<Rightarrow> True | Some l' \<Rightarrow> l' < last ids"
      using low last_in_set [OF ids(1)] by blast
    ultimately show ?thesis by (auto simp: well_walked_def split: option.splits)
  qed
  have "well_walked n l b"
    using ids ends low hd_in_set [OF ids(1)] by (auto simp: well_walked_def)
  with later have "list_all (well_walked n l) (b # bs)" by (simp add: list_all_iff)
  moreover have "map pb_index (b # bs) = [idx..<idx + length (b # bs)]"
    using IH by (simp add: ids(2) upt_conv_Cons del: upt_Suc)
  ultimately show ?case
    using IH later by (simp add: ids(2))
qed

text \<open>
  (C19) However the table changes while it is being walked, the walk ends and no entity is planned
  twice: the id ranges of the batches are pairwise disjoint and increasing, the batches are
  numbered from zero, and each holds between one and \<open>batch_size\<close> entities.
\<close>

theorem keyset_ranges_disjoint:
  assumes "plan_batches ent account_id n filters None include_deleted = Inr g"
    and "plan_all D ent n tab 0 g = Inr bs"
  shows "sorted_wrt (\<lambda>b c. the (pb_cursor_end b) < the (pb_cursor_start c)) bs \<and>
    map pb_index bs = [0..<length bs] \<and>
    list_all (\<lambda>b. 0 < pb_entity_count b \<and> pb_entity_count b \<le> n \<and>
       the (pb_cursor_start b) \<le> the (pb_cursor_end b)) bs"
proof -
  obtain ps where "g = FilterGen ps None 0 False"
    using assms(1) by (auto simp: plan_batches_def split: sum.splits)
  then have "list_all (well_walked n None) bs \<and>
      sorted_wrt (\<lambda>b c. the (pb_cursor_end b) < the (pb_cursor_start c)) bs \<and>
      map pb_index bs = [0..<0 + length bs]"
    using plan_all_walk assms(2) by blast
  then show ?thesis by (auto simp: list_all_iff well_walked_def)
qed

theorem keyset_ranges_disjoint_witness:
  "\<exists>bs. plan_all plain_driver contact_entity 1
       (\<lambda>k. if k = 0 then [example_contact 1 7 ''a@b.c'' ''active''] else [example_contact 2 7 ''a@b.c'' ''active''])
       0 (FilterGen [SAccount 7, SIsNull ''deleted_at''] None 0 False) = Inr bs \<and>
     map pb_index bs = [0, 1] \<and> the (pb_cursor_end (bs ! 0)) < the (pb_cursor_start (bs ! 1))"
proof -
  let ?tab = "\<lambda>k::nat. if k = 0 then [example_contact 1 7 ''a@b.c'' ''active'']
    else [example_contact 2 7 ''a@b.c'' ''active'']"
  let ?ps = "[SAccount 7, SIsNull ''deleted_at'']"
  let ?bs = "[range_batch 0 [1], range_batch 1 [2]]"
  have g: "plan_batches contact_entity 7 1 (Some []) None False = Inr (FilterGen ?ps None 0 False)"
    by (simp add: plan_batches_def selection_clause_def build_predicates_def contact_entity_def)
  have r: "fetch_page plain_driver contact_entity ?ps None 1 (?tab 0) = Inr [1]"
    "fetch_page plain_driver contact_entity ?ps (Some 1) 1 (?tab 1) = Inr [2]"
    "fetch_page plain_driver contact_entity ?ps (Some 2) 1 (?tab 2) = Inr []"
    by (simp_all add: fetch_page_def select_rows_def eval_where_iff example_contact_def row_get_def)
  have p: "plan_all plain_driver contact_entity 1 ?tab 0 (FilterGen ?ps None 0 False) = Inr ?bs"
    using r by (simp add: plan_all.simps numeral_2_eq_2)
  show ?thesis using keyset_ranges_disjoint [OF g p] p by simp
qed

text \<open>A page after \<open>pre\<close> is the next slice of the sorted target ids.\<close>

definition keyset_after :: "uuid list \<Rightarrow> uuid option" where
  "keyset_after pre = (if pre = [] then None else Some (last pre))"

lemma sorted_le_last: "sorted xs \<Longrightarrow> x \<in> set xs \<Longrightarrow> x \<le> last xs"
  by (induction xs) auto

lemma keyset_suffix:
  assumes "sorted (pre @ rest)" and "distinct (pre @ rest)"
  shows "filter (\<lambda>i. case keyset_after pre of None \<Rightarrow> True | Some l \<Rightarrow> l < i) (pre @ rest) = rest"
proof (cases "pre = []")
  case False
  have "filter (\<lambda>i. last pre < i) pre = []"
    using assms(1) by (auto simp: filter_empty_conv sorted_append not_less intro: sorted_le_last)
  moreover have "filter (\<lambda>i. last pre < i) rest = rest"
    using assms last_in_set [OF False]
    by (auto simp: filter_id_conv sorted_append order.strict_iff_order)
  ultimately show ?thesis using False by (simp add: keyset_after_def)
qed (simp add: keyset_after_def)

lemma fetch_page_slice:
  assumes "select_rows D ent ps rows = Inr rs" and "distinct (map row_id rows)"
    and "map row_id rs = pre @ rest"
  shows "fetch_page D ent ps (keyset_after pre) n rows = Inr (take n rest)"
proof -
  have "sorted (pre @ rest)" and "distinct (pre @ rest)"
    using select_rows_distinct [OF assms(1,2)] by (simp_all add: assms(3))
  from keyset_suffix [OF this] show ?thesis by (simp add: fetch_page_def assms(1,3))
qed

lemma plan_all_finished: "plan_all D ent n tab k (FilterGen ps l idx True) = Inr []"
  by (subst plan_all.simps) simp

lemma plan_all_chunks:
  assumes "select_rows D ent ps rows = Inr rs" and "distinct (map row_id rows)" and "0 < n"
    and "map row_id rs = pre @ rest"
  shows "plan_all D ent n (\<lambda>_. rows) k (FilterGen ps (keyset_after pre) idx False) =
    Inr (map (\<lambda>(i, c). range_batch i c) (enumerate idx (chunks n rest)))"
  using assms(4)
proof (induction rest arbitrary: pre idx k rule: measure_induct_rule [of length])
  case (less rest)
  note page = fetch_page_slice [OF assms(1,2) less.prems, of n]
  show ?case
  proof (cases "rest = []")
    case True
    then show ?thesis by (subst plan_all.simps) (simp add: page chunks.simps)
  next
    case False
    let ?p = "take n rest"
    have ne: "?p \<noteq> []" using False assms(3) by simp
    have key: "keyset_after (pre @ ?p) = Some (last ?p)" using ne by (simp add: keyset_after_def)
    have "plan_all D ent n (\<lambda>_. rows) (Suc k) (FilterGen ps (Some (last ?p)) (Suc idx) (length ?p < n)) =
      Inr (map (\<lambda>(i, c). range_batch i c) (enumerate (Suc idx) (chunks n (drop n rest))))"
    proof (cases "length ?p < n")
      case True
      then have "drop n rest = []" by simp
      then show ?thesis using True by (simp add: plan_all_finished chunks.simps)
    next
      case False
      have "length (drop n rest) < length rest" using \<open>rest \<noteq> []\<close> assms(3) by simp
      moreover have "map row_id rs = (pre @ ?p) @ drop n rest" using less.prems by simp
      ultimately show ?thesis using less.IH [of "drop n rest" "pre @ ?p"] key False by simp
    qed
    then show ?thesis
      using False ne assms(3) by (subst plan_all.simps) (simp add: page chunks.simps [of n rest])
  qed
qed

lemma range_of_sorted:
  "sorted (a @ c @ b) \<Longrightarrow> distinct (a @ c @ b) \<Longrightarrow> c \<noteq> [] \<Longrightarrow>
   {i \<in> set (a @ c @ b). hd c \<le> i \<and> i \<le> last c} = set c"
proof -
  assume s: "sorted (a @ c @ b)" and d: "distinct (a @ c @ b)" and c: "c \<noteq> []"
  have "i < hd c" if "i \<in> set a" for i
    using s d that hd_in_set [OF c] by (fastforce simp: sorted_append order.strict_iff_order)
  moreover have "last c < i" if "i \<in> set b" for i
    using s d that last_in_set [OF c] by (fastforce simp: sorted_append order.strict_iff_order)
  moreover have "hd c \<le> i \<and> i \<le> last c" if "i \<in> set c" for i
    using s that sorted_le_last [of c i] by (cases c) (auto simp: sorted_append)
  ultimately show ?thesis by fastforce
qed

lemma concat_split: "c \<in> set cs \<Longrightarrow> \<exists>a b. concat cs = a @ c @ b"
  by (induction cs) (auto, metis append.assoc)

text \<open>The range of a chunk of sorted ids holds exactly the ids of the chunk.\<close>

lemma range_batch_chunk:
  assumes "sorted ids" and "distinct ids" and "0 < n" and c: "c \<in> set (chunks n ids)"
  shows "filter (\<lambda>i. the (pb_cursor_start (range_batch k c)) \<le> i \<and> i \<le> the (pb_cursor_end (range_batch k c))) ids = c"
    (is "?in = c")
proof -
  obtain a b where ab: "ids = a @ c @ b"
    using concat_split [OF c] by (auto simp: concat_chunks [OF assms(3)])
  have "set ?in = set c"
    using range_of_sorted [of a c b] assms(1,2) chunks_nonempty [OF c] by (auto simp: ab)
  moreover have "sorted c \<and> distinct c" using assms(1,2) by (auto simp: ab sorted_append)
  ultimately show ?thesis
    using assms(1,2) sorted_distinct_set_unique [of ?in c] by (simp add: sorted_wrt_filter)
qed

lemma keyset_plan_chunks:
  assumes "select_rows D ent ps rows = Inr rs" and "distinct (map row_id rows)" and "0 < n"
  shows "plan_all D ent n (\<lambda>_. rows) 0 (FilterGen ps None 0 False) =
      Inr (map (\<lambda>(i, c). range_batch i c) (enumerate 0 (chunks n (map row_id rs))))"
  using plan_all_chunks [OF assms, of "[]"] by (simp add: keyset_after_def)

lemma keyset_plan:
  assumes "select_rows D ent ps rows = Inr rs" and "distinct (map row_id rows)" and "0 < n"
  shows "\<exists>bs. plan_all D ent n (\<lambda>_. rows) 0 (FilterGen ps None 0 False) = Inr bs \<and>
    concat (map (\<lambda>b. filter (\<lambda>i. the (pb_cursor_start b) \<le> i \<and> i \<le> the (pb_cursor_end b)) (map row_id rs)) bs)
      = map row_id rs \<and>
    list_all (\<lambda>b. pb_entity_count b =
      length (filter (\<lambda>i. the (pb_cursor_start b) \<le> i \<and> i \<le> the (pb_cursor_end b)) (map row_id rs))) bs \<and>
    sum_list (map pb_entity_count bs) = length rs \<and> map pb_index bs = [0..<length bs] \<and>
    (bs = [] \<longleftrightarrow> rs = [])"
proof -
  let ?ids = "map row_id rs" and ?cs = "chunks n (map row_id rs)"
  let ?bs = "map (\<lambda>(i, c). range_batch i c) (enumerate 0 ?cs)"
  let ?in = "\<lambda>b. filter (\<lambda>i. the (pb_cursor_start b) \<le> i \<and> i \<le> the (pb_cursor_end b)) ?ids"
  have sd: "sorted ?ids" "distinct ?ids" using select_rows_distinct [OF assms(1,2)] by auto
  have plan: "plan_all D ent n (\<lambda>_. rows) 0 (FilterGen ps None 0 False) = Inr ?bs"
    by (rule keyset_plan_chunks [OF assms])
  have inr: "?in (range_batch i c) = c" if c: "c \<in> set ?cs" for i c
    using range_batch_chunk [OF sd assms(3) c] .
  then have "map ?in ?bs = map (\<lambda>(i, c). c) (enumerate 0 ?cs)"
    by (auto simp: in_set_enumerate_eq simp del: range_batch_sel)
  then have "concat (map ?in ?bs) = ?ids"
    using map_enumerate_snd [of "\<lambda>c. c" 0 ?cs] by (simp add: concat_chunks [OF assms(3)] del: range_batch_sel)
  moreover have "list_all (\<lambda>b. pb_entity_count b = length (?in b)) ?bs"
    unfolding list_all_iff
  proof
    fix b assume "b \<in> set ?bs"
    then obtain i c where b: "b = range_batch i c" and "c \<in> set ?cs" by (auto simp: in_set_enumerate_eq)
    from inr [OF this(2), of i] show "pb_entity_count b = length (?in b)"
      unfolding b range_batch_sel(3) by (rule arg_cong [where f = length, OF sym])
  qed
  moreover have "map pb_entity_count ?bs = map length ?cs"
    by (simp add: comp_def case_prod_beta flip: map_enumerate_snd [of length 0])
  then have "sum_list (map pb_entity_count ?bs) = length (concat ?cs)" by (simp add: length_concat)
  moreover have "map pb_index ?bs = [0..<length ?bs]"
    by (simp add: comp_def case_prod_beta enumerate_eq_zip)
  moreover have "?bs = [] \<longleftrightarrow> rs = []"
    using assms(3) by (subst chunks.simps) simp
  ultimately show ?thesis
    using plan by (intro exI [of _ ?bs] conjI) (simp_all add: concat_chunks [OF assms(3)])
qed

lemma keyset_plan_few:
  assumes "select_rows D ent ps rows = Inr rs" and "distinct (map row_id rows)" and "0 < n"
    and "plan_all D ent n (\<lambda>_. rows) 0 (FilterGen ps None 0 False) = Inr bs"
  shows "length bs \<le> length rs"
proof -
  have "list_all (\<lambda>b. 0 < pb_entity_count b) bs"
    using plan_all_walk [OF assms(4)] by (auto simp: list_all_iff well_walked_def)
  then have "length bs \<le> sum_list (map pb_entity_count bs)" by (induction bs) auto
  with keyset_plan [OF assms(1-3)] assms(4) show ?thesis by auto
qed

text \<open>
  (C18) Over a table that does not change during the walk, the batches cover the target set
  exactly: their ranges, read back in order, hold the selected ids in order (each of them in one
  range), and the rows a range holds are as many as the batch records. The planner's total is
  then the size of the target set.
\<close>

theorem keyset_plan_exact:
  assumes "plan_batches ent account_id n filters None include_deleted = Inr (FilterGen ps None 0 False)"
    and "select_rows D ent ps rows = Inr rs" and "distinct (map row_id rows)" and "0 < n"
  shows "\<exists>bs. plan_all D ent n (\<lambda>_. rows) 0 (FilterGen ps None 0 False) = Inr bs \<and>
    concat (map (\<lambda>b. filter (\<lambda>i. the (pb_cursor_start b) \<le> i \<and> i \<le> the (pb_cursor_end b)) (map row_id rs)) bs)
      = map row_id rs \<and>
    list_all (\<lambda>b. pb_entity_count b =
      length (filter (\<lambda>i. the (pb_cursor_start b) \<le> i \<and> i \<le> the (pb_cursor_end b)) (map row_id rs))) bs \<and>
    sum_list (map pb_entity_count bs) = length rs"
  using keyset_plan [OF assms(2-4)] by blast

theorem keyset_plan_exact_witness:
  "\<exists>bs. plan_all plain_driver contact_entity 1
       (\<lambda>_. [example_contact 2 7 ''b@b.c'' ''active'', example_contact 1 7 ''a@b.c'' ''active''])
       0 (FilterGen [SAccount 7, SIsNull ''deleted_at''] None 0 False) = Inr bs \<and>
     sum_list (map pb_entity_count bs) = 2"
proof -
  let ?r1 = "example_contact 1 7 ''a@b.c'' ''active''" and ?r2 = "example_contact 2 7 ''b@b.c'' ''active''"
  let ?ps = "[SAccount 7, SIsNull ''deleted_at'']"
  have g: "plan_batches contact_entity 7 1 (Some []) None False = Inr (FilterGen ?ps None 0 False)"
    by (simp add: plan_batches_def selection_clause_def build_predicates_def contact_entity_def)
  have r: "select_rows plain_driver contact_entity ?ps [?r2, ?r1] = Inr [?r1, ?r2]"
    by (simp add: select_rows_def eval_where_iff example_contact_def row_get_def word_le_nat_alt)
  have d: "distinct (map row_id [?r2, ?r1])" by (simp add: example_contact_def)
  show ?thesis using keyset_plan_exact [OF g r d] by auto
qed

end
