(* ===== verification/RateLimiter.thy ===== *)
theory RateLimiter
  imports Models
begin

text \<open>
  The token bucket of \<open>app/services/rate_limiter.py\<close>: the Lua script, the decision it
  returns, and the operations of class \<open>RateLimiter\<close>. Redis is a map from key to bucket; a
  bucket carries the instant at which PEXPIRE lets it expire. Each call takes two clocks, both
  in milliseconds: \<open>now_ms\<close> is the caller's \<open>time.time()\<close>, \<open>rnow\<close> the Redis server's own
  clock, which decides expiry. Lua and Python floats are rationals.
\<close>

record bucket =
  bk_tokens :: rat
  bk_ts :: int
  bk_expires :: int

type_synonym redis = "string \<Rightarrow> bucket option"

record rate_decision =
  rd_allowed :: bool
  rd_retry_after_seconds :: rat
  rd_tokens_remaining :: rat

text \<open>\<open>RateLimitDecision.retry_after_ms\<close>.\<close>

definition retry_after_ms :: "rate_decision \<Rightarrow> int" where
  "retry_after_ms d = py_int (rd_retry_after_seconds d * 1000) + 50"

text \<open>HMGET on a key: an expired bucket is gone.\<close>

definition hmget :: "int \<Rightarrow> string \<Rightarrow> redis \<Rightarrow> bucket option" where
  "hmget rnow key R =
     (case R key of None \<Rightarrow> None | Some b \<Rightarrow> if rnow < bk_expires b then Some b else None)"

definition token_bucket_script ::
  "int \<Rightarrow> string \<Rightarrow> rat \<Rightarrow> rat \<Rightarrow> int \<Rightarrow> rat \<Rightarrow> redis \<Rightarrow> redis \<times> rate_decision" where
  "token_bucket_script rnow key capacity refill now_ms requested R =
     (let (tokens0, ts) = (case hmget rnow key R of
                             None \<Rightarrow> (capacity, now_ms)
                           | Some b \<Rightarrow> (bk_tokens b, bk_ts b));
          elapsed_s = of_int (max 0 (now_ms - ts)) / 1000;
          tokens1 = min capacity (tokens0 + elapsed_s * refill);
          (allowed, retry_after, tokens2) =
            (if requested \<le> tokens1 then (True, 0, tokens1 - requested)
             else (False, (requested - tokens1) / refill, tokens1));
          b' = \<lparr> bk_tokens = tokens2, bk_ts = now_ms,
                 bk_expires = rnow + \<lceil>capacity / refill * 1000\<rceil> + 60000 \<rparr>
      in (R(key \<mapsto> b'), \<lparr> rd_allowed = allowed, rd_retry_after_seconds = retry_after,
                           rd_tokens_remaining = tokens2 \<rparr>))"

definition rl_key :: "string \<Rightarrow> string \<Rightarrow> string \<Rightarrow> string" where
  "rl_key prefix scope identity = prefix @ '':'' @ scope @ '':'' @ identity"

definition consume ::
  "string \<Rightarrow> string \<Rightarrow> int \<Rightarrow> int \<Rightarrow> int \<Rightarrow> int \<Rightarrow> redis \<Rightarrow> redis \<times> rate_decision result" where
  "consume scope identity limit_per_minute amount now_ms rnow R =
     (if amount \<le> 0 then
        (R, Inr \<lparr> rd_allowed = True, rd_retry_after_seconds = 0,
                  rd_tokens_remaining = of_int limit_per_minute \<rparr>)
      else if limit_per_minute < amount then
        (R, Inl (ValueError ''Cannot consume''))
      else
        (let refill_per_second = of_int limit_per_minute / 60;
             (R', d) = token_bucket_script rnow (rl_key ''rl'' scope identity)
                         (of_int limit_per_minute) refill_per_second now_ms (of_int amount) R
         in (R', Inr d)))"

definition consume_entities ::
  "uuid \<Rightarrow> int \<Rightarrow> int \<Rightarrow> int \<Rightarrow> int \<Rightarrow> redis \<Rightarrow> redis \<times> rate_decision result" where
  "consume_entities account_id limit_per_minute amount now_ms rnow R =
     consume ''entities'' (uuid_str account_id) limit_per_minute amount now_ms rnow R"

definition consume_submission ::
  "settings \<Rightarrow> uuid \<Rightarrow> int \<Rightarrow> int \<Rightarrow> redis \<Rightarrow> redis \<times> rate_decision result" where
  "consume_submission S account_id now_ms rnow R =
     consume ''submit'' (uuid_str account_id) (s_api_rate_limit_per_minute S) 1 now_ms rnow R"

definition peek :: "string \<Rightarrow> string \<Rightarrow> int \<Rightarrow> int \<Rightarrow> int \<Rightarrow> redis \<Rightarrow> rat" where
  "peek scope identity limit_per_minute now_ms rnow R =
     (case hmget rnow (rl_key ''rl'' scope identity) R of
        None \<Rightarrow> of_int limit_per_minute
      | Some b \<Rightarrow>
          (let elapsed_s = max 0 (of_int now_ms - of_int (bk_ts b)) / 1000
           in min (of_int limit_per_minute)
                  (bk_tokens b + elapsed_s * of_int limit_per_minute / 60)))"

section \<open>What a bucket holds\<close>

text \<open>The tokens a caller with clock \<open>now_ms\<close> finds in a bucket.\<close>

definition avail :: "rat \<Rightarrow> rat \<Rightarrow> int \<Rightarrow> bucket option \<Rightarrow> rat" where
  "avail capacity refill now_ms bo =
     (case bo of
        None \<Rightarrow> capacity
      | Some b \<Rightarrow> min capacity (bk_tokens b + of_int (max 0 (now_ms - bk_ts b)) / 1000 * refill))"

text \<open>One run of the script in these terms.\<close>

lemma script_allowed_iff:
  "0 < capacity \<Longrightarrow>
   rd_allowed (snd (token_bucket_script rnow key capacity refill now_ms requested R)) \<longleftrightarrow>
   requested \<le> avail capacity refill now_ms (hmget rnow key R)"
  by (auto simp: token_bucket_script_def avail_def Let_def split: option.splits)

lemma script_bucket:
  "fst (token_bucket_script rnow key capacity refill now_ms requested R) =
   (let a = avail capacity refill now_ms (hmget rnow key R) in
    R(key \<mapsto> \<lparr> bk_tokens = (if requested \<le> a then a - requested else a), bk_ts = now_ms,
                bk_expires = rnow + \<lceil>capacity / refill * 1000\<rceil> + 60000 \<rparr>))"
  by (auto simp: token_bucket_script_def avail_def Let_def split: option.splits)

lemma script_decision:
  "snd (token_bucket_script rnow key capacity refill now_ms requested R) =
   (let a = avail capacity refill now_ms (hmget rnow key R) in
    if requested \<le> a
    then \<lparr> rd_allowed = True, rd_retry_after_seconds = 0, rd_tokens_remaining = a - requested \<rparr>
    else \<lparr> rd_allowed = False, rd_retry_after_seconds = (requested - a) / refill,
           rd_tokens_remaining = a \<rparr>)"
  by (auto simp: token_bucket_script_def avail_def Let_def split: option.splits)

lemma avail_le_capacity: "avail capacity refill now_ms bo \<le> capacity"
  by (auto simp: avail_def split: option.splits)

text \<open>
  The bucket invariant: never negative, never above the capacity.
\<close>

definition bucket_ok :: "rat \<Rightarrow> bucket option \<Rightarrow> bool" where
  "bucket_ok capacity bo \<longleftrightarrow>
     (case bo of None \<Rightarrow> True | Some b \<Rightarrow> 0 \<le> bk_tokens b \<and> bk_tokens b \<le> capacity)"

lemma avail_nonneg:
  "0 \<le> capacity \<Longrightarrow> 0 \<le> refill \<Longrightarrow> bucket_ok capacity bo \<Longrightarrow> 0 \<le> avail capacity refill now_ms bo"
  by (auto simp: avail_def bucket_ok_def split: option.splits)

lemma script_bucket_ok [wf_intros]:
  assumes "0 \<le> capacity" "0 \<le> refill" "0 \<le> requested" "bucket_ok capacity (hmget rnow key R)"
  shows "bucket_ok capacity (fst (token_bucket_script rnow key capacity refill now_ms requested R) key)"
proof -
  let ?a = "avail capacity refill now_ms (hmget rnow key R)"
  have "0 \<le> ?a" and "?a \<le> capacity"
    using assms avail_nonneg avail_le_capacity by blast+
  with assms(3) show ?thesis
    unfolding script_bucket Let_def bucket_ok_def by auto
qed

section \<open>The contract of a token gate\<close>

text \<open>
  A gate is called with a clock reading and an amount and admits it or not. The contract: what
  it holds never exceeds the capacity, grows at most at the refill rate, and an admitted amount
  is taken from what it holds. Every such gate keeps the window bound
  \<open>admitted \<le> capacity + rate * elapsed\<close>.
\<close>

fun admitted :: "('c \<Rightarrow> int \<Rightarrow> 's \<Rightarrow> 's \<times> bool) \<Rightarrow> ('c \<times> int) list \<Rightarrow> 's \<Rightarrow> int" where
  "admitted tk [] s = 0"
| "admitted tk ((c, n) # cs) s =
     (if snd (tk c n s) then n else 0) + admitted tk cs (fst (tk c n s))"

locale token_gate =
  fixes cap rate :: rat
    and level :: "'c \<Rightarrow> 's \<Rightarrow> rat"
    and tick :: "'c \<Rightarrow> int"
    and tk :: "'c \<Rightarrow> int \<Rightarrow> 's \<Rightarrow> 's \<times> bool"
    and ok :: "'s \<Rightarrow> bool"
    and good :: "'c \<Rightarrow> bool"
  assumes level_cap: "ok s \<Longrightarrow> good c \<Longrightarrow> level c s \<le> cap"
    and level_nonneg: "ok s \<Longrightarrow> good c \<Longrightarrow> 0 \<le> level c s"
    and level_grow: "ok s \<Longrightarrow> good c \<Longrightarrow> good c' \<Longrightarrow> tick c \<le> tick c' \<Longrightarrow>
      level c' s \<le> level c s + rate * of_int (tick c' - tick c)"
    and take_ok: "ok s \<Longrightarrow> good c \<Longrightarrow> 0 \<le> n \<Longrightarrow> ok (fst (tk c n s))"
    and take_level: "ok s \<Longrightarrow> good c \<Longrightarrow> 0 \<le> n \<Longrightarrow>
      level c (fst (tk c n s)) = level c s - (if snd (tk c n s) then of_int n else 0)"
begin

lemma window_level:
  assumes "ok s" and "good c" and "\<forall>(d, n) \<in> set cs. good d \<and> 0 \<le> n"
    and "sorted (map tick (c # map fst cs))"
  shows "of_int (admitted tk cs s) \<le>
     level c s + rate * of_int (tick (last (c # map fst cs)) - tick c)"
  using assms
proof (induction cs arbitrary: s c)
  case Nil
  then show ?case by (simp add: level_nonneg)
next
  case (Cons x cs)
  obtain d n where x: "x = (d, n)" by (cases x)
  let ?s' = "fst (tk d n s)" and ?t = "of_int (if snd (tk d n s) then n else 0) :: rat"
  from Cons.prems x have d: "good d" "0 \<le> n" "tick c \<le> tick d" by auto
  have "of_int (admitted tk cs ?s') \<le>
      level d ?s' + rate * of_int (tick (last (d # map fst cs)) - tick d)"
    using Cons.prems x d by (intro Cons.IH take_ok) auto
  moreover have "level d ?s' = level d s - ?t"
    using take_level [OF Cons.prems(1) d(1,2)] by simp
  moreover have "level d s \<le> level c s + rate * of_int (tick d - tick c)"
    using Cons.prems(1,2) d by (intro level_grow) auto
  ultimately show ?case
    by (simp add: x algebra_simps)
qed

lemma window_bound:
  assumes "ok s" and "good c" and "\<forall>(d, n) \<in> set cs. good d \<and> 0 \<le> n"
    and "sorted (map tick (c # map fst cs))"
  shows "of_int (admitted tk cs s) \<le> cap + rate * of_int (tick (last (c # map fst cs)) - tick c)"
  using window_level [OF assms] level_cap [OF assms(1,2)] by linarith

end

section \<open>The script is such a gate\<close>

text \<open>
  A call is the pair of its clock readings \<open>(now_ms, rnow)\<close>; it is good when the caller's clock
  and the server's differ by at most 30 seconds. The state is sound when the bucket under the
  key is, and when its expiry lies late enough that it has refilled before it is dropped.
\<close>

definition clock_good :: "int \<times> int \<Rightarrow> bool" where
  "clock_good c \<longleftrightarrow> \<bar>snd c - fst c\<bar> \<le> 30000"

definition bucket_state_ok :: "string \<Rightarrow> rat \<Rightarrow> redis \<Rightarrow> bool" where
  "bucket_state_ok key capacity R \<longleftrightarrow>
     bucket_ok capacity (R key) \<and>
     (case R key of None \<Rightarrow> True | Some b \<Rightarrow> bk_ts b + 60000 + 30000 \<le> bk_expires b)"

definition gate_take ::
  "string \<Rightarrow> string \<Rightarrow> int \<Rightarrow> int \<times> int \<Rightarrow> int \<Rightarrow> redis \<Rightarrow> redis \<times> bool" where
  "gate_take scope identity limit c n R =
     (case consume scope identity limit n (fst c) (snd c) R of
        (R', Inr d) \<Rightarrow> (R', 0 < n \<and> rd_allowed d)
      | (R', Inl _) \<Rightarrow> (R', False))"

definition gate_level :: "string \<Rightarrow> int \<Rightarrow> int \<times> int \<Rightarrow> redis \<Rightarrow> rat" where
  "gate_level key limit c R = avail (of_int limit) (of_int limit / 60) (fst c) (hmget (snd c) key R)"

text \<open>Expiry is invisible: a bucket is dropped only once it would be full again.\<close>

lemma expiry_transparent:
  assumes "0 < limit" and "clock_good c" and "bucket_state_ok key (of_int limit) R"
  shows "avail (of_int limit) (of_int limit / 60) (fst c) (hmget (snd c) key R) =
    avail (of_int limit) (of_int limit / 60) (fst c) (R key)"
proof (cases "R key")
  case None
  then show ?thesis by (simp add: hmget_def)
next
  case (Some b)
  show ?thesis
  proof (cases "snd c < bk_expires b")
    case True
    with Some show ?thesis by (simp add: hmget_def)
  next
    case False
    with Some assms(2,3) have late: "60000 \<le> fst c - bk_ts b" and pos: "0 \<le> bk_tokens b"
      by (auto simp: clock_good_def bucket_state_ok_def bucket_ok_def)
    have "(of_int limit :: rat) \<le> of_int (fst c - bk_ts b) / 1000 * (of_int limit / 60)"
    proof -
      have "(60000::rat) * of_int limit \<le> of_int (fst c - bk_ts b) * of_int limit"
        using late assms(1) by (intro mult_right_mono) simp_all
      then show ?thesis by simp
    qed
    with pos late have "avail (of_int limit) (of_int limit / 60) (fst c) (Some b) = of_int limit"
      by (simp add: avail_def max_def min_def)
    with Some False show ?thesis by (simp add: hmget_def avail_def)
  qed
qed

lemma avail_grow:
  assumes "0 \<le> refill" and "t \<le> t'"
  shows "avail capacity refill t' bo \<le> avail capacity refill t bo + refill / 1000 * of_int (t' - t)"
proof (cases bo)
  case None
  with assms show ?thesis by (simp add: avail_def)
next
  case (Some b)
  let ?e = "\<lambda>t. of_int (max 0 (t - bk_ts b)) / 1000 * refill"
  have "max 0 (t' - bk_ts b) \<le> max 0 (t - bk_ts b) + (t' - t)" using assms(2) by simp
  then have "(of_int (max 0 (t' - bk_ts b)) :: rat) \<le> of_int (max 0 (t - bk_ts b) + (t' - t))"
    by (simp only: of_int_le_iff)
  then have "of_int (max 0 (t' - bk_ts b)) * refill \<le> (of_int (max 0 (t - bk_ts b) + (t' - t))) * refill"
    using assms(1) by (rule mult_right_mono)
  then have "?e t' \<le> ?e t + refill / 1000 * of_int (t' - t)"
    by (simp add: field_simps)
  moreover have "0 \<le> refill / 1000 * of_int (t' - t)" using assms by simp
  ultimately show ?thesis using Some by (simp add: avail_def min_def)
qed

lemma gate_take_consume:
  assumes "0 < n" and "n \<le> limit"
  shows "gate_take scope identity limit c n R =
    (fst (token_bucket_script (snd c) (rl_key ''rl'' scope identity) (of_int limit) (of_int limit / 60)
            (fst c) (of_int n) R),
     of_int n \<le> gate_level (rl_key ''rl'' scope identity) limit c R)"
  using assms
  by (simp add: gate_take_def consume_def gate_level_def script_decision Let_def case_prod_beta)

lemma gate_take_other: "\<not> (0 < n \<and> n \<le> limit) \<Longrightarrow> gate_take scope identity limit c n R = (R, False)"
  by (auto simp: gate_take_def consume_def)

lemma gate_take_state_ok:
  assumes "0 < limit" and "clock_good c" and "bucket_state_ok (rl_key ''rl'' scope identity) (of_int limit) R"
  shows "bucket_state_ok (rl_key ''rl'' scope identity) (of_int limit) (fst (gate_take scope identity limit c n R))"
proof (cases "0 < n \<and> n \<le> limit")
  case True
  let ?k = "rl_key ''rl'' scope identity" and ?L = "of_int limit :: rat"
  let ?R' = "fst (token_bucket_script (snd c) ?k ?L (?L / 60) (fst c) (of_int n) R)"
  have "bucket_ok ?L (hmget (snd c) ?k R)"
    using assms(3) by (auto simp: bucket_state_ok_def bucket_ok_def hmget_def split: option.splits)
  then have "bucket_ok ?L (?R' ?k)"
    using True assms(1) by (intro script_bucket_ok) auto
  moreover have "\<lceil>?L / (?L / 60) * 1000\<rceil> = 60000" using assms(1) by simp
  ultimately show ?thesis
    using True assms(2)
    by (simp add: gate_take_consume bucket_state_ok_def script_bucket clock_good_def Let_def)
next
  case False
  then show ?thesis by (simp add: gate_take_other assms(3))
qed

lemma gate_take_level:
  assumes "0 < limit" and "clock_good c" and "bucket_state_ok (rl_key ''rl'' scope identity) (of_int limit) R"
  shows "gate_level (rl_key ''rl'' scope identity) limit c (fst (gate_take scope identity limit c n R)) =
    gate_level (rl_key ''rl'' scope identity) limit c R -
      (if snd (gate_take scope identity limit c n R) then of_int n else 0)"
proof (cases "0 < n \<and> n \<le> limit")
  case True
  let ?k = "rl_key ''rl'' scope identity" and ?L = "of_int limit :: rat"
  have "gate_level ?k limit c R \<le> ?L" by (simp add: gate_level_def avail_le_capacity)
  moreover have "\<lceil>?L / (?L / 60) * 1000\<rceil> = 60000" using assms(1) by simp
  ultimately show ?thesis
    using True by (auto simp: gate_take_consume script_bucket gate_level_def Let_def hmget_def avail_def)
next
  case False
  then show ?thesis by (simp add: gate_take_other)
qed

interpretation bucket: token_gate
  "of_int (1 + int k)" "of_int (1 + int k) / 60000"
  "gate_level (rl_key ''rl'' scope identity) (1 + int k)" fst
  "gate_take scope identity (1 + int k)"
  "bucket_state_ok (rl_key ''rl'' scope identity) (of_int (1 + int k))" clock_good
  for scope identity and k :: nat
proof (unfold_locales, goal_cases)
  case (1 s c)
  then show ?case by (simp add: gate_level_def avail_le_capacity)
next
  case (2 s c)
  then have "bucket_ok (of_int (1 + int k)) (hmget (snd c) (rl_key ''rl'' scope identity) s)"
    by (auto simp: bucket_state_ok_def bucket_ok_def hmget_def split: option.splits)
  then show ?case unfolding gate_level_def by (intro avail_nonneg) simp_all
next
  case (3 s c c')
  have "avail (of_int (1 + int k)) (of_int (1 + int k) / 60) (fst c') (s (rl_key ''rl'' scope identity)) \<le>
      avail (of_int (1 + int k)) (of_int (1 + int k) / 60) (fst c) (s (rl_key ''rl'' scope identity)) +
      of_int (1 + int k) / 60 / 1000 * of_int (fst c' - fst c)"
    using 3(4) by (intro avail_grow) simp_all
  with 3 show ?case
    by (simp only: gate_level_def expiry_transparent [of "1 + int k"])
next
  case (4 s c n)
  then show ?case by (intro gate_take_state_ok) simp_all
next
  case (5 s c n)
  then show ?case by (intro gate_take_level) simp_all
qed

section \<open>Properties\<close>

lemma consume_admissible:
  assumes "0 < amount" and "amount \<le> limit"
  shows "consume scope identity limit amount now_ms rnow R =
    (let r = token_bucket_script rnow (rl_key ''rl'' scope identity) (of_int limit)
               (of_int limit / 60) now_ms (of_int amount) R
     in (fst r, Inr (snd r)))"
  using assms by (simp add: consume_def Let_def case_prod_beta)

lemma rate_bound_of:
  assumes "0 < limit" and "calls \<noteq> []"
    and "sorted (map (fst \<circ> fst) calls)"
    and "\<forall>(c, amount) \<in> set calls. clock_good c \<and> 0 \<le> amount"
    and "bucket_state_ok (rl_key ''rl'' scope identity) (of_int limit) R"
  shows "of_int (admitted (gate_take scope identity limit) calls R) \<le>
     (of_int limit :: rat) +
       of_int limit * of_int (fst (fst (last calls)) - fst (fst (hd calls))) / 60000"
proof -
  obtain k where k: "limit = 1 + int k"
    using assms(1) by (metis zero_less_imp_eq_int add.commute nat_int of_nat_Suc Suc_pred' nat_0_iff zero_less_nat_eq)
  let ?c = "fst (hd calls)"
  have "sorted (map fst (?c # map fst calls))" and "clock_good ?c"
    using assms(2-4) by (cases calls; auto)+
  moreover have "fst (last (?c # map fst calls)) = fst (fst (last calls))"
    using assms(2) by (simp add: last_map)
  ultimately show ?thesis
    using bucket.window_bound [of scope identity k R ?c calls] assms(4,5)
    by (simp add: k mult.commute)
qed

text \<open>
  The processing limit: calls for one account, made in clock order by callers whose clocks
  agree with the Redis server within 30 seconds, are together granted at most one full bucket
  plus what refills between the first and the last of them, whatever the amounts and whether or
  not the bucket expired in between.
\<close>

theorem rate_window_bound:
  assumes "0 < limit" and "calls \<noteq> []"
    and "sorted (map (fst \<circ> fst) calls)"
    and "\<forall>(c, amount) \<in> set calls. clock_good c \<and> 0 \<le> amount"
    and "bucket_state_ok (rl_key ''rl'' scope identity) (of_int limit) R"
  shows "of_int (admitted (gate_take scope identity limit) calls R) \<le>
     (of_int limit :: rat) +
       of_int limit * of_int (fst (fst (last calls)) - fst (fst (hd calls))) / 60000"
  by (rule rate_bound_of [OF assms])

theorem rate_window_bound_witness:
  "of_int (admitted (gate_take ''entities'' ''a'' 60)
       [((0, 0), 60), ((30000, 30000), 30)] (\<lambda>_. None)) \<le> (90::rat)"
  using rate_window_bound [of 60 "[((0, 0), 60), ((30000, 30000), 30)]" "''entities''" "''a''" "\<lambda>_. None"]
  by (simp add: clock_good_def bucket_state_ok_def bucket_ok_def)

text \<open>
  The bound is attained: a full bucket spent at once and again one minute later grants an
  account twice its per-minute limit within sixty seconds.
\<close>

theorem burst_doubles_the_minute:
  assumes "0 < limit"
  shows "admitted (gate_take scope identity limit)
     [((t, t), limit), ((t + 60000, t + 60000), limit)] (\<lambda>_. None) = 2 * limit"
proof -
  have "\<lceil>(of_int limit :: rat) / (of_int limit / 60) * 1000\<rceil> = 60000" using assms by simp
  then show ?thesis
    using assms
    by (simp add: gate_take_consume gate_level_def script_bucket avail_def hmget_def Let_def)
qed

theorem burst_doubles_the_minute_witness:
  "admitted (gate_take ''entities'' ''a'' 10000)
     [((5, 5), 10000), ((60005, 60005), 10000)] (\<lambda>_. None) = 20000"
  using burst_doubles_the_minute [of 10000 "''entities''" "''a''" 5] by simp

text \<open>
  A denied caller is told when to come back, and coming back then works: if nobody else
  draws on the bucket, the same amount is granted at any clock reading at least
  \<open>retry_after_ms\<close> later.
\<close>

theorem denied_retry_succeeds:
  assumes "0 < amount" and "amount \<le> limit"
    and "consume scope identity limit amount now_ms rnow R = (R', Inr d)" and "\<not> rd_allowed d"
    and "clock_good (now_ms, rnow)" and "bucket_state_ok (rl_key ''rl'' scope identity) (of_int limit) R"
    and "now_ms + retry_after_ms d \<le> now'" and "clock_good (now', rnow')"
  shows "rd_allowed (projr (snd (consume scope identity limit amount now' rnow' R')))"
proof -
  let ?k = "rl_key ''rl'' scope identity" and ?L = "of_int limit :: rat"
  let ?a = "avail ?L (?L / 60) now_ms (hmget rnow ?k R)"
  have L: "0 < limit" using assms(1,2) by simp
  have R': "R' = fst (token_bucket_script rnow ?k ?L (?L / 60) now_ms (of_int amount) R)"
    and d: "d = snd (token_bucket_script rnow ?k ?L (?L / 60) now_ms (of_int amount) R)"
    using assms(3) by (simp_all add: consume_admissible [OF assms(1,2)] Let_def)
  from assms(4) have low: "?a < of_int amount"
    and retry: "rd_retry_after_seconds d = (of_int amount - ?a) / (?L / 60)"
    by (simp_all add: d script_decision Let_def split: if_splits)
  have b: "R' ?k = Some \<lparr> bk_tokens = ?a, bk_ts = now_ms, bk_expires = rnow + 60000 + 60000 \<rparr>"
    using L low by (simp add: R' script_bucket Let_def)
  have ok': "bucket_state_ok ?k ?L R'"
    using gate_take_state_ok [OF L assms(5,6), of amount] assms(1,2)
    by (simp add: gate_take_consume R')
  have "0 \<le> rd_retry_after_seconds d" using low L by (simp add: retry)
  then have "rd_retry_after_seconds d * 1000 < of_int (retry_after_ms d)"
    by (simp add: retry_after_ms_def py_int_def) linarith
  also have "\<dots> \<le> of_int (now' - now_ms)" using assms(7) by simp
  finally have "(of_int amount - ?a) / (?L / 60) * 1000 < of_int (now' - now_ms)" by (simp add: retry)
  then have "of_int amount - ?a < of_int (now' - now_ms) / 1000 * (?L / 60)"
    using L by (simp add: field_simps)
  moreover have "(0::rat) < of_int (now' - now_ms)"
    using \<open>0 \<le> rd_retry_after_seconds d\<close> \<open>rd_retry_after_seconds d * 1000 < of_int (retry_after_ms d)\<close>
      \<open>of_int (retry_after_ms d) \<le> of_int (now' - now_ms)\<close> by linarith
  ultimately have "of_int amount \<le> avail ?L (?L / 60) now' (R' ?k)"
    using assms(2) by (simp add: b avail_def)
  then have "of_int amount \<le> avail ?L (?L / 60) now' (hmget rnow' ?k R')"
    using expiry_transparent [OF L assms(8) ok'] by simp
  then show ?thesis
    by (simp add: consume_admissible [OF assms(1,2)] script_decision Let_def)
qed

theorem denied_retry_succeeds_witness:
  "rd_allowed (projr (snd (consume ''entities'' ''a'' 60 20 10050 10050
     (fst (consume ''entities'' ''a'' 60 20 0 0
        (\<lambda>_. Some \<lparr> bk_tokens = 10, bk_ts = 0, bk_expires = 120000 \<rparr>))))))"
proof -
  let ?R = "\<lambda>_::string. Some \<lparr> bk_tokens = 10, bk_ts = 0, bk_expires = 120000 \<rparr>"
  let ?r = "consume ''entities'' ''a'' 60 20 0 0 ?R"
  let ?d = "\<lparr> rd_allowed = False, rd_retry_after_seconds = 10, rd_tokens_remaining = 10 \<rparr>"
  have "?r = (fst ?r, Inr ?d)"
    by (simp add: consume_def token_bucket_script_def hmget_def)
  moreover have "retry_after_ms ?d = 10050" by (simp add: retry_after_ms_def py_int_def)
  ultimately show ?thesis
    using denied_retry_succeeds [of 20 60 "''entities''" "''a''" 0 0 ?R "fst ?r" ?d 10050 10050]
    by (simp add: clock_good_def bucket_state_ok_def bucket_ok_def)
qed

text \<open>
  The buckets are separate: charging an account's processing limit touches neither its
  submission limit nor any limit of another account.
\<close>

theorem consume_entities_isolated:
  "fst (consume_entities acc limit amount now_ms rnow R) (rl_key ''rl'' ''submit'' (uuid_str other)) =
     R (rl_key ''rl'' ''submit'' (uuid_str other)) \<and>
   (other \<noteq> acc \<longrightarrow>
     fst (consume_entities acc limit amount now_ms rnow R) (rl_key ''rl'' ''entities'' (uuid_str other)) =
     R (rl_key ''rl'' ''entities'' (uuid_str other)))"
  using uuid_str_inj [of other acc]
  by (auto simp: consume_entities_def consume_def script_bucket rl_key_def Let_def case_prod_beta)

theorem consume_entities_isolated_witness:
  "fst (consume_entities 1 60 5 0 0 (\<lambda>_. None)) (rl_key ''rl'' ''entities'' (uuid_str 2)) = None"
  using consume_entities_isolated [of 1 60 5 0 0 "\<lambda>_. None" 2] by simp

text \<open>
  \<open>peek\<close> reports exactly what \<open>consume\<close> would find: an admissible amount is granted if and
  only if it does not exceed the peeked level.
\<close>

theorem peek_predicts_consume:
  assumes "0 < amount" and "amount \<le> limit"
  shows "rd_allowed (projr (snd (consume scope identity limit amount now_ms rnow R))) \<longleftrightarrow>
    of_int amount \<le> peek scope identity limit now_ms rnow R"
proof -
  have "(of_int (max 0 (now_ms - ts)) :: rat) = max 0 (of_int now_ms - of_int ts)" for ts
    by (simp add: max_def)
  then have "peek scope identity limit now_ms rnow R =
      avail (of_int limit) (of_int limit / 60) now_ms (hmget rnow (rl_key ''rl'' scope identity) R)"
    by (simp add: peek_def avail_def Let_def split: option.splits)
  then show ?thesis
    by (simp add: consume_admissible [OF assms] script_decision Let_def)
qed

theorem peek_predicts_consume_witness:
  "rd_allowed (projr (snd (consume ''entities'' ''a'' 60 5 0 0 (\<lambda>_. None))))"
  using peek_predicts_consume [of 5 60 "''entities''" "''a''" 0 0 "\<lambda>_. None"]
  by (simp add: peek_def hmget_def)

text \<open>
  The bucket trusts the caller's clock even when it runs backwards: a denied call by a
  worker whose clock is a minute behind moves the bucket's timestamp back, and the next call by
  a punctual worker is credited the same minute again. At one instant of real time the account
  is granted twice its limit.
\<close>

theorem backward_clock_refills_again:
  assumes "0 < limit"
  shows "admitted (gate_take scope identity limit)
     [((t, t), limit), ((t - 60000, t), limit), ((t, t), limit)] (\<lambda>_. None) = 2 * limit"
proof -
  have "\<lceil>(of_int limit :: rat) / (of_int limit / 60) * 1000\<rceil> = 60000" using assms by simp
  then show ?thesis
    using assms
    by (simp add: gate_take_consume gate_level_def script_bucket avail_def hmget_def Let_def)
qed

theorem backward_clock_refills_again_witness:
  "admitted (gate_take ''entities'' ''a'' 60)
     [((100000, 100000), 60), ((40000, 100000), 60), ((100000, 100000), 60)] (\<lambda>_. None) = 120"
  using backward_clock_refills_again [of 60 "''entities''" "''a''" 100000] by simp

end
