(* ===== verification/Tasks.thy ===== *)
theory Tasks
  imports BatchRunner Batching RateLimiter
begin

text \<open>
  The background tasks: \<open>app/workers/tasks.py\<close>. Each task is a sequence of transactions; each
  transaction is one definition from database to database (\<open>plan_start\<close>, \<open>plan_page\<close>,
  \<open>plan_finish\<close>, \<open>plan_fail\<close>; \<open>preflight\<close>, \<open>mark_attempt\<close>, \<open>execute_txn\<close>, \<open>finish_txn\<close>,
  \<open>mark_batch_failed\<close>), and the tasks compose them in the order of the code. The theory System
  interleaves the same transactions. The calls of \<open>enqueue_job\<close> are returned as values: what the
  queue does with them (arq is not part of the repository) is left open. \<open>uuid4\<close> supplies the
  ids of new batch rows, and an exception's text is the parameter \<open>e_str\<close>.
\<close>

record env =
  e_driver :: sql_driver
  e_pydantic :: pydantic
  e_settings :: settings
  e_entities :: entity_registry
  e_actions :: action_registry
  e_str :: "exn \<Rightarrow> string"

datatype job = PlanJob uuid | BatchJob uuid nat nat

record enqueue_call =
  q_job :: job
  q_job_id :: string
  q_defer_by :: "rat option"
  q_defer_until :: "time option"

text \<open>Both tasks resolve the action's entity, handler and stored configuration the same way.\<close>

definition resolve :: "env \<Rightarrow> bulk_action \<Rightarrow> (descriptor \<times> handler \<times> config) result" where
  "resolve E action =
     rbind (get_entity (e_entities E) (ba_entity_type action)) (\<lambda>ent.
     rbind (get_action (e_actions E) (ba_action_type action) (Some (ba_entity_type action))) (\<lambda>h.
     rbind (h_config_model h (e_pydantic E) (ba_configuration action)) (\<lambda>config.
       Inr (ent, h, config))))"

section \<open>Planning\<close>

definition plan_flush_every :: nat where
  "plan_flush_every = 100"

datatype plan_reply = PlanMissing | PlanTerminal action_status | Planned nat nat

text \<open>The local variables of \<open>plan_bulk_action\<close> once its first transaction has committed. The
  generator is created lazily, so an error of its construction is raised by its first page.\<close>

record planner =
  pl_action :: bulk_action
  pl_entity :: descriptor
  pl_handler :: handler
  pl_config :: config
  pl_gen :: "plan_gen result"
  pl_pending :: "batch_row list"
  pl_total_entities :: nat
  pl_total_batches :: nat

text \<open>The first transaction reads the action, then updates it by its id alone; the two statements
  are kept apart because another transaction may commit between them.\<close>

definition plan_read :: "env \<Rightarrow> uuid \<Rightarrow> db \<Rightarrow> (plan_reply + planner) result" where
  "plan_read E aid d =
     (case load_action d aid of
        None \<Rightarrow> Inr (Inl PlanMissing)
      | Some action \<Rightarrow>
          if is_terminal (ba_status action) then Inr (Inl (PlanTerminal (ba_status action)))
          else
            rbind (resolve E action) (\<lambda>(ent, h, config).
              Inr (Inr \<lparr> pl_action = action, pl_entity = ent, pl_handler = h, pl_config = config,
                 pl_gen = plan_batches ent (ba_account_id action) (ba_batch_size action)
                   (selection_filters config) (explicit_ids config) (h_include_deleted h),
                 pl_pending = [], pl_total_entities = 0, pl_total_batches = 0 \<rparr>)))"

definition plan_open :: "uuid \<Rightarrow> time \<Rightarrow> db \<Rightarrow> db" where
  "plan_open aid now =
     update_actions (\<lambda>a. ba_id a = aid) (\<lambda>a. a\<lparr> ba_status := PLANNING, ba_started_at := Some now \<rparr>)"

definition plan_start :: "env \<Rightarrow> uuid \<Rightarrow> time \<Rightarrow> db \<Rightarrow> db \<times> (plan_reply + planner) result" where
  "plan_start E aid now = session_scope (\<lambda>d.
     (case plan_read E aid d of
        Inl e \<Rightarrow> (d, Inl e)
      | Inr (Inl reply) \<Rightarrow> (d, Inr (Inl reply))
      | Inr (Inr pl) \<Rightarrow> (plan_open aid now d, Inr (Inr pl))))"

definition batch_job_id :: "uuid \<Rightarrow> nat \<Rightarrow> string" where
  "batch_job_id aid index = ''batch:'' @ uuid_str aid @ '':'' @ nat_str index"

definition batch_call :: "uuid \<Rightarrow> nat \<Rightarrow> enqueue_call" where
  "batch_call aid index = \<lparr> q_job = BatchJob aid index 0, q_job_id = batch_job_id aid index,
     q_defer_by = None, q_defer_until = None \<rparr>"

definition batch_slot :: "batch_row \<Rightarrow> uuid \<times> nat" where
  "batch_slot b = (bb_bulk_action_id b, bb_batch_index b)"

text \<open>The INSERT skips rows whose slot is taken; a row that is inserted must have a new primary
  key.\<close>

definition flush :: "uuid \<Rightarrow> batch_row list \<Rightarrow> db \<Rightarrow> (db \<times> enqueue_call list) result" where
  "flush aid rows d =
     (if rows = [] then Inr (d, [])
      else let batches = ins_ignore batch_slot (db_batches d) rows in
        if \<not> distinct (map bb_id batches) then Inl (DriverError ''pk_bulk_action_batches'')
        else Inr (d\<lparr> db_batches := batches \<rparr>,
                  map (\<lambda>row. batch_call aid (bb_batch_index row)) rows))"

definition batch_of_planned :: "uuid \<Rightarrow> uuid \<Rightarrow> time \<Rightarrow> planned_batch \<Rightarrow> batch_row" where
  "batch_of_planned new_id aid now p =
     \<lparr> bb_id = new_id, bb_bulk_action_id = aid, bb_batch_index = pb_index p, bb_status = B_PENDING,
       bb_entity_ids = pb_entity_ids p, bb_cursor_start = pb_cursor_start p,
       bb_cursor_end = pb_cursor_end p, bb_entity_count = pb_entity_count p,
       bb_success_count = 0, bb_failure_count = 0, bb_skipped_count = 0, bb_attempts = 0,
       bb_error = None, bb_created_at = now, bb_started_at = None, bb_finished_at = None \<rparr>"

datatype page_result = PageMore planner | PageLast planner | PageFailed exn

text \<open>One iteration of the \<open>async for\<close>, with the flush that may follow it; after the last page
  the rest is flushed.\<close>

definition plan_page ::
  "env \<Rightarrow> (nat \<Rightarrow> uuid) \<Rightarrow> time \<Rightarrow> uuid \<Rightarrow> planner \<Rightarrow> db \<Rightarrow> db \<times> enqueue_call list \<times> page_result" where
  "plan_page E uuid4 now aid pl d =
     (case rbind (pl_gen pl) (gen_next (e_driver E) (pl_entity pl) (ba_batch_size (pl_action pl))
                    (db_crm d (ent_table (pl_entity pl)))) of
        Inl e \<Rightarrow> (d, [], PageFailed e)
      | Inr None \<Rightarrow>
          (case flush aid (pl_pending pl) d of
             Inl e \<Rightarrow> (d, [], PageFailed e)
           | Inr (d', calls) \<Rightarrow> (d', calls, PageLast (pl\<lparr> pl_pending := [] \<rparr>)))
      | Inr (Some (planned, g)) \<Rightarrow>
          (let row = batch_of_planned (uuid4 (pl_total_batches pl)) aid now planned;
               pl' = pl\<lparr> pl_gen := Inr g, pl_pending := pl_pending pl @ [row],
                         pl_total_entities := pl_total_entities pl + pb_entity_count planned,
                         pl_total_batches := Suc (pl_total_batches pl) \<rparr>
           in if plan_flush_every \<le> length (pl_pending pl')
              then (case flush aid (pl_pending pl') d of
                      Inl e \<Rightarrow> (d, [], PageFailed e)
                    | Inr (d', calls) \<Rightarrow> (d', calls, PageMore (pl'\<lparr> pl_pending := [] \<rparr>)))
              else (d, [], PageMore pl')))"

definition plan_fail :: "env \<Rightarrow> uuid \<Rightarrow> exn \<Rightarrow> time \<Rightarrow> db \<Rightarrow> db" where
  "plan_fail E aid e now = fail_action aid (''Planning failed: '' @ e_str E e) now"

definition plan_finish :: "uuid \<Rightarrow> nat \<Rightarrow> nat \<Rightarrow> time \<Rightarrow> db \<Rightarrow> db" where
  "plan_finish aid total_entities total_batches now d =
     (let d1 = update_actions (\<lambda>a. ba_id a = aid)
                 (\<lambda>a. a\<lparr> ba_total_entities := total_entities, ba_total_batches := total_batches \<rparr>) d
      in if total_batches = 0
         then update_actions (\<lambda>a. ba_id a = aid \<and> ba_status a = PLANNING)
                (\<lambda>a. a\<lparr> ba_status := COMPLETED, ba_finished_at := Some now \<rparr>) d1
         else mark_started aid now d1)"

fun planner_measure :: "planner \<Rightarrow> nat" where
  "planner_measure pl = (case pl_gen pl of Inl _ \<Rightarrow> 0 | Inr g \<Rightarrow> gen_measure g)"

lemma plan_page_decreases:
  assumes "plan_page E uuid4 now aid pl d = (d', calls, PageMore pl')"
  shows "planner_measure pl' < planner_measure pl"
  using assms
  by (auto simp: plan_page_def rbind_def Let_def split: sum.splits option.splits prod.splits if_splits
      dest: gen_next_decreases)

text \<open>The loop, when nothing else touches the database in between.\<close>

function plan_loop ::
  "env \<Rightarrow> (nat \<Rightarrow> uuid) \<Rightarrow> time \<Rightarrow> uuid \<Rightarrow> planner \<Rightarrow> db \<Rightarrow> db \<times> enqueue_call list \<times> planner result" where
  "plan_loop E uuid4 now aid pl d =
     (case plan_page E uuid4 now aid pl d of
        (d', calls, PageFailed e) \<Rightarrow> (d', calls, Inl e)
      | (d', calls, PageLast pl') \<Rightarrow> (d', calls, Inr pl')
      | (d', calls, PageMore pl') \<Rightarrow>
          (let (d'', calls', r) = plan_loop E uuid4 now aid pl' d' in (d'', calls @ calls', r)))"
  by pat_completeness auto
termination
  by (relation "measure (\<lambda>(E, uuid4, now, aid, pl, d). planner_measure pl)")
    (auto dest: plan_page_decreases [OF sym] simp del: planner_measure.simps)

declare plan_loop.simps [simp del]

definition plan_bulk_action ::
  "env \<Rightarrow> (nat \<Rightarrow> uuid) \<Rightarrow> time \<Rightarrow> uuid \<Rightarrow> db \<Rightarrow> db \<times> enqueue_call list \<times> plan_reply result" where
  "plan_bulk_action E uuid4 now aid d =
     (case plan_start E aid now d of
        (d1, Inl e) \<Rightarrow> (d1, [], Inl e)
      | (d1, Inr (Inl reply)) \<Rightarrow> (d1, [], Inr reply)
      | (d1, Inr (Inr pl)) \<Rightarrow>
          (case plan_loop E uuid4 now aid pl d1 of
             (d2, calls, Inl e) \<Rightarrow> (plan_fail E aid e now d2, calls, Inl e)
           | (d2, calls, Inr pl') \<Rightarrow>
               (plan_finish aid (pl_total_entities pl') (pl_total_batches pl') now d2, calls,
                Inr (Planned (pl_total_entities pl') (pl_total_batches pl')))))"

section \<open>Batch execution\<close>

datatype batch_reply =
    Missing
  | AlreadyCompleted
  | BatchCancelled
  | RateLimited int
  | BatchDone nat nat nat
  | BatchFailed string

text \<open>What the pre-flight transaction hands to the rest of \<open>process_batch\<close>.\<close>

record go =
  go_account_id :: uuid
  go_limit_per_minute :: int
  go_entity_count :: nat
  go_batch_id :: uuid

definition preflight_read :: "uuid \<Rightarrow> nat \<Rightarrow> db \<Rightarrow> (batch_reply + (uuid + go)) result" where
  "preflight_read aid batch_index d =
     (case load_action d aid of
        None \<Rightarrow> Inr (Inl Missing)
      | Some action \<Rightarrow>
          (case load_batch d aid batch_index of
             None \<Rightarrow> Inr (Inl Missing)
           | Some batch \<Rightarrow>
               if bb_status batch = B_COMPLETED then Inr (Inl AlreadyCompleted)
               else if ba_status action = CANCELLED then Inr (Inr (Inl (bb_id batch)))
               else
                 (case load_account d (ba_account_id action) of
                    None \<Rightarrow> Inl NoResultFound
                  | Some account \<Rightarrow>
                      Inr (Inr (Inr \<lparr> go_account_id = ba_account_id action,
                         go_limit_per_minute = acc_rate_limit_per_minute account,
                         go_entity_count = bb_entity_count batch, go_batch_id = bb_id batch \<rparr>)))))"

definition cancel_batch :: "uuid \<Rightarrow> time \<Rightarrow> db \<Rightarrow> db" where
  "cancel_batch batch_id now =
     update_batches (\<lambda>b. bb_id b = batch_id) (\<lambda>b. b\<lparr> bb_status := B_CANCELLED, bb_finished_at := Some now \<rparr>)"

definition preflight :: "uuid \<Rightarrow> nat \<Rightarrow> time \<Rightarrow> db \<Rightarrow> db \<times> (batch_reply + go) result" where
  "preflight aid batch_index now = session_scope (\<lambda>d.
     (case preflight_read aid batch_index d of
        Inl e \<Rightarrow> (d, Inl e)
      | Inr (Inl reply) \<Rightarrow> (d, Inr (Inl reply))
      | Inr (Inr (Inl batch_id)) \<Rightarrow> (cancel_batch batch_id now d, Inr (Inl BatchCancelled))
      | Inr (Inr (Inr g)) \<Rightarrow> (d, Inr (Inr g))))"

lemmas preflight_defs = preflight_def preflight_read_def cancel_batch_def

definition deferred_call :: "uuid \<Rightarrow> nat \<Rightarrow> nat \<Rightarrow> int \<Rightarrow> enqueue_call" where
  "deferred_call aid batch_index deferrals retry_ms =
     \<lparr> q_job = BatchJob aid batch_index (Suc deferrals),
       q_job_id = batch_job_id aid batch_index @ '':d'' @ nat_str (Suc deferrals),
       q_defer_by = Some (of_int retry_ms / 1000), q_defer_until = None \<rparr>"

definition mark_attempt :: "uuid \<Rightarrow> time \<Rightarrow> db \<Rightarrow> db" where
  "mark_attempt batch_id now =
     update_batches (\<lambda>b. bb_id b = batch_id \<and> bb_status b \<noteq> B_COMPLETED)
       (\<lambda>b. b\<lparr> bb_status := B_PROCESSING, bb_attempts := bb_attempts b + 1, bb_started_at := Some now \<rparr>)"

text \<open>The work transaction: committed as a whole, or rolled back by \<open>session_scope\<close>.\<close>

record work =
  wk_action :: bulk_action
  wk_batch :: batch_row
  wk_entity :: descriptor
  wk_handler :: handler
  wk_config :: config

definition execute_read :: "env \<Rightarrow> uuid \<Rightarrow> uuid \<Rightarrow> db \<Rightarrow> (batch_reply + work) result" where
  "execute_read E aid batch_id d =
     (case load_action d aid of
        None \<Rightarrow> Inr (Inl Missing)
      | Some action \<Rightarrow>
          (case load_batch_by_id d batch_id of
             None \<Rightarrow> Inl NoResultFound
           | Some batch \<Rightarrow>
               if bb_status batch = B_COMPLETED then Inr (Inl AlreadyCompleted)
               else
                 rbind (resolve E action) (\<lambda>(ent, h, config).
                   Inr (Inr \<lparr> wk_action = action, wk_batch = batch, wk_entity = ent, wk_handler = h,
                      wk_config = config \<rparr>))))"

definition execute_work :: "env \<Rightarrow> work \<Rightarrow> time \<Rightarrow> db \<Rightarrow> (entity_outcome list \<times> db) result" where
  "execute_work E w now =
     run_batch (e_driver E) now (wk_action w) (wk_batch w) (wk_entity w) (wk_handler w) (wk_config w)"

definition execute_txn :: "env \<Rightarrow> uuid \<Rightarrow> uuid \<Rightarrow> time \<Rightarrow> db \<Rightarrow> db \<times> (batch_reply + entity_outcome list) result" where
  "execute_txn E aid batch_id now = session_scope (\<lambda>d.
     (case execute_read E aid batch_id d of
        Inl e \<Rightarrow> (d, Inl e)
      | Inr (Inl reply) \<Rightarrow> (d, Inr (Inl reply))
      | Inr (Inr w) \<Rightarrow>
          (case execute_work E w now d of
             Inl e \<Rightarrow> (d, Inl e)
           | Inr (outcomes, d') \<Rightarrow> (d', Inr (Inr outcomes)))))"

lemmas execute_defs = execute_txn_def execute_read_def execute_work_def

text \<open>The closing transaction and the payload it publishes.\<close>

definition finish_txn :: "uuid \<Rightarrow> time \<Rightarrow> db \<Rightarrow> db \<times> progress option" where
  "finish_txn aid now d =
     (let d' = snd (finalize_if_complete aid now d) in (d', map_option progress_payload (load_action d' aid)))"

definition batch_error_outcomes :: "env \<Rightarrow> nat \<Rightarrow> string \<Rightarrow> entity_outcome list" where
  "batch_error_outcomes E entity_count err =
     replicate entity_count (outcome_failed None R_BATCH_ERROR
       (take 1000 (''Batch failed after '' @ int_str (s_job_max_tries (e_settings E)) @ '' attempts: '' @ err)) [])"

definition mark_batch_failed :: "env \<Rightarrow> uuid \<Rightarrow> uuid \<Rightarrow> nat \<Rightarrow> string \<Rightarrow> time \<Rightarrow> db \<Rightarrow> db" where
  "mark_batch_failed E aid batch_id entity_count err now d =
     snd (record_batch_completion aid entity_count 0 entity_count 0 True
       (write_outcomes aid (Some batch_id) now (batch_error_outcomes E entity_count err)
         (update_batches (\<lambda>b. bb_id b = batch_id)
            (\<lambda>b. b\<lparr> bb_status := B_FAILED, bb_failure_count := entity_count,
               bb_error := Some (take 2000 err), bb_finished_at := Some now \<rparr>) d)))"

text \<open>The handler of \<open>except Exception\<close>: raise again while the job has tries left, otherwise
  record the whole batch as failed.\<close>

definition on_batch_error ::
  "env \<Rightarrow> int \<Rightarrow> uuid \<Rightarrow> uuid \<Rightarrow> nat \<Rightarrow> exn \<Rightarrow> time \<Rightarrow> db \<Rightarrow> db \<times> batch_reply result" where
  "on_batch_error E job_try aid batch_id entity_count e now d =
     (if job_try < s_job_max_tries (e_settings E) then (d, Inl e)
      else (snd (finalize_if_complete aid now (mark_batch_failed E aid batch_id entity_count (e_str E e) now d)),
            Inr (BatchFailed (e_str E e))))"

text \<open>Database errors that are not a consequence of the modelled state: one may be raised by the
  work transaction before it commits, one by the closing transaction.\<close>

record faults =
  fx_execute :: "exn option"
  fx_finish :: "exn option"

record clock =
  ck_now :: time
  ck_now_ms :: int
  ck_redis_ms :: int

record task_result =
  tr_redis :: redis
  tr_db :: db
  tr_calls :: "enqueue_call list"
  tr_published :: "progress list"
  tr_reply :: "batch_reply result"

definition try_execute :: "env \<Rightarrow> faults \<Rightarrow> uuid \<Rightarrow> uuid \<Rightarrow> time \<Rightarrow> db \<Rightarrow>
    db \<times> (batch_reply + entity_outcome list) result" where
  "try_execute E fx aid batch_id now d =
     (case fx_execute fx of Some e \<Rightarrow> (d, Inl e) | None \<Rightarrow> execute_txn E aid batch_id now d)"

definition run_work :: "env \<Rightarrow> faults \<Rightarrow> int \<Rightarrow> uuid \<Rightarrow> uuid \<Rightarrow> nat \<Rightarrow> time \<Rightarrow> db \<Rightarrow>
    db \<times> progress list \<times> batch_reply result" where
  "run_work E fx job_try aid batch_id entity_count now d =
     (case try_execute E fx aid batch_id now d of
        (d1, Inl e) \<Rightarrow>
          (let (d2, r) = on_batch_error E job_try aid batch_id entity_count e now d1 in (d2, [], r))
      | (d1, Inr (Inl reply)) \<Rightarrow> (d1, [], Inr reply)
      | (d1, Inr (Inr outcomes)) \<Rightarrow>
          (case fx_finish fx of
             Some e \<Rightarrow>
               (let (d2, r) = on_batch_error E job_try aid batch_id entity_count e now d1 in (d2, [], r))
           | None \<Rightarrow>
               (let (d2, payload) = finish_txn aid now d1
                in (d2, case payload of None \<Rightarrow> [] | Some p \<Rightarrow> [p],
                    Inr (BatchDone (result_success_count outcomes) (result_failure_count outcomes)
                      (result_skipped_count outcomes))))))"

definition process_batch ::
  "env \<Rightarrow> faults \<Rightarrow> clock \<Rightarrow> int \<Rightarrow> uuid \<Rightarrow> nat \<Rightarrow> nat \<Rightarrow> redis \<Rightarrow> db \<Rightarrow> task_result" where
  "process_batch E fx ck job_try aid batch_index deferrals R d =
     (case preflight aid batch_index (ck_now ck) d of
        (d1, Inl e) \<Rightarrow> \<lparr> tr_redis = R, tr_db = d1, tr_calls = [], tr_published = [], tr_reply = Inl e \<rparr>
      | (d1, Inr (Inl reply)) \<Rightarrow>
          \<lparr> tr_redis = R, tr_db = d1, tr_calls = [], tr_published = [], tr_reply = Inr reply \<rparr>
      | (d1, Inr (Inr g)) \<Rightarrow>
          (case consume_entities (go_account_id g) (go_limit_per_minute g) (int (go_entity_count g))
                  (ck_now_ms ck) (ck_redis_ms ck) R of
             (R', Inl e) \<Rightarrow>
               \<lparr> tr_redis = R', tr_db = d1, tr_calls = [], tr_published = [], tr_reply = Inl e \<rparr>
           | (R', Inr decision) \<Rightarrow>
               if \<not> rd_allowed decision then
                 \<lparr> tr_redis = R', tr_db = d1,
                   tr_calls = [deferred_call aid batch_index deferrals (retry_after_ms decision)],
                   tr_published = [], tr_reply = Inr (RateLimited (retry_after_ms decision)) \<rparr>
               else
                 (let (d2, pub, reply) = run_work E fx job_try aid (go_batch_id g) (go_entity_count g)
                        (ck_now ck) (mark_attempt (go_batch_id g) (ck_now ck) d1)
                  in \<lparr> tr_redis = R', tr_db = d2, tr_calls = [], tr_published = pub, tr_reply = reply \<rparr>)))"

section \<open>Planning is the plan of the target set\<close>

definition planned_rows :: "(nat \<Rightarrow> uuid) \<Rightarrow> time \<Rightarrow> uuid \<Rightarrow> nat \<Rightarrow> planned_batch list \<Rightarrow> batch_row list" where
  "planned_rows uuid4 now aid k bs =
     map (\<lambda>(i, p). batch_of_planned (uuid4 i) aid now p) (enumerate k bs)"

lemma planned_rows_simps [simp]:
  "planned_rows uuid4 now aid k [] = []"
  "planned_rows uuid4 now aid k (p # bs) =
     batch_of_planned (uuid4 k) aid now p # planned_rows uuid4 now aid (Suc k) bs"
  by (simp_all add: planned_rows_def)

lemma planned_rows_sel:
  "map bb_batch_index (planned_rows uuid4 now aid k bs) = map pb_index bs"
  "map bb_entity_count (planned_rows uuid4 now aid k bs) = map pb_entity_count bs"
  "map bb_id (planned_rows uuid4 now aid k bs) = map uuid4 [k..<k + length bs]"
  "list_all (\<lambda>b. bb_bulk_action_id b = aid \<and> bb_status b = B_PENDING) (planned_rows uuid4 now aid k bs)"
  by (induction bs arbitrary: k)
    (simp_all add: batch_of_planned_def upt_conv_Cons del: upt_Suc)

lemma flush_eq:
  "distinct (map bb_id (db_batches d)) \<Longrightarrow>
   flush aid rows d =
     (if distinct (map bb_id (ins_ignore batch_slot (db_batches d) rows))
      then Inr (d\<lparr> db_batches := ins_ignore batch_slot (db_batches d) rows \<rparr>,
        map (\<lambda>row. batch_call aid (bb_batch_index row)) rows)
      else Inl (DriverError ''pk_bulk_action_batches''))"
  by (simp add: flush_def Let_def)

lemma distinct_ins_ignore_prefix:
  "distinct (map f (ins_ignore key rows (xs @ ys))) \<Longrightarrow> distinct (map f (ins_ignore key rows xs))"
  by (auto simp: ins_ignore_def ins_fresh_append)

lemma distinct_ins_ignore_base: "distinct (map f (ins_ignore key rows xs)) \<Longrightarrow> distinct (map f rows)"
  using distinct_ins_ignore_prefix [of f key rows "[]"] by simp

text \<open>The loop writes and enqueues what draining the generator yields, however it is cut into
  flushes.\<close>

lemma plan_loop_all:
  assumes "pl_gen pl = Inr g"
    and "plan_all (e_driver E) (pl_entity pl) (ba_batch_size (pl_action pl))
      (\<lambda>_. db_crm d (ent_table (pl_entity pl))) k g = Inr bs"
    and "distinct (map bb_id (ins_ignore batch_slot (db_batches d)
      (pl_pending pl @ planned_rows uuid4 now aid (pl_total_batches pl) bs)))"
  shows "\<exists>pl'. plan_loop E uuid4 now aid pl d =
      (d\<lparr> db_batches := ins_ignore batch_slot (db_batches d)
            (pl_pending pl @ planned_rows uuid4 now aid (pl_total_batches pl) bs) \<rparr>,
       map (\<lambda>row. batch_call aid (bb_batch_index row))
         (pl_pending pl @ planned_rows uuid4 now aid (pl_total_batches pl) bs), Inr pl') \<and>
     pl_total_entities pl' = pl_total_entities pl + sum_list (map pb_entity_count bs) \<and>
     pl_total_batches pl' = pl_total_batches pl + length bs"
  using assms
proof (induction bs arbitrary: k g pl d)
  case Nil
  then have "gen_next (e_driver E) (pl_entity pl) (ba_batch_size (pl_action pl))
      (db_crm d (ent_table (pl_entity pl))) g = Inr None"
    by (subst (asm) plan_all.simps) (auto split: sum.splits option.splits)
  with Nil.prems distinct_ins_ignore_base [OF Nil.prems(3)] show ?case
    by (subst plan_loop.simps) (simp add: plan_page_def flush_eq)
next
  case (Cons p bs)
  from Cons.prems obtain g' where nxt: "gen_next (e_driver E) (pl_entity pl) (ba_batch_size (pl_action pl))
      (db_crm d (ent_table (pl_entity pl))) g = Inr (Some (p, g'))"
    and rest: "plan_all (e_driver E) (pl_entity pl) (ba_batch_size (pl_action pl))
      (\<lambda>_. db_crm d (ent_table (pl_entity pl))) (Suc k) g' = Inr bs"
    by (subst (asm) plan_all.simps) (auto split: sum.splits option.splits)
  let ?row = "batch_of_planned (uuid4 (pl_total_batches pl)) aid now p"
  let ?pl = "pl\<lparr> pl_gen := Inr g', pl_pending := pl_pending pl @ [?row],
     pl_total_entities := pl_total_entities pl + pb_entity_count p,
     pl_total_batches := Suc (pl_total_batches pl) \<rparr>"
  let ?d = "d\<lparr> db_batches := ins_ignore batch_slot (db_batches d) (pl_pending pl @ [?row]) \<rparr>"
  have IH: "\<exists>pl'. plan_loop E uuid4 now aid (?pl\<lparr> pl_pending := pend \<rparr>) e =
      (e\<lparr> db_batches := ins_ignore batch_slot (db_batches e)
            (pend @ planned_rows uuid4 now aid (Suc (pl_total_batches pl)) bs) \<rparr>,
       map (\<lambda>row. batch_call aid (bb_batch_index row))
         (pend @ planned_rows uuid4 now aid (Suc (pl_total_batches pl)) bs), Inr pl') \<and>
     pl_total_entities pl' = pl_total_entities pl + (pb_entity_count p + sum_list (map pb_entity_count bs)) \<and>
     pl_total_batches pl' = Suc (pl_total_batches pl) + length bs"
    if "db_crm e = db_crm d"
      and "distinct (map bb_id (ins_ignore batch_slot (db_batches e)
        (pend @ planned_rows uuid4 now aid (Suc (pl_total_batches pl)) bs)))" for e pend
    using Cons.IH [of "?pl\<lparr> pl_pending := pend \<rparr>" g' e "Suc k"] rest that by (simp add: add.assoc)
  have full: "distinct (map bb_id (ins_ignore batch_slot (db_batches d) ((pl_pending pl @ [?row]) @
      planned_rows uuid4 now aid (Suc (pl_total_batches pl)) bs)))"
    using Cons.prems(3) by simp
  show ?case
  proof (cases "plan_flush_every \<le> length (pl_pending pl @ [?row])")
    case True
    with nxt Cons.prems(1) have "plan_page E uuid4 now aid pl d =
        (?d, map (\<lambda>row. batch_call aid (bb_batch_index row)) (pl_pending pl @ [?row]),
         PageMore (?pl\<lparr> pl_pending := [] \<rparr>))"
      using distinct_ins_ignore_base [OF full] distinct_ins_ignore_prefix [OF full]
      by (simp add: plan_page_def flush_eq Let_def)
    moreover have "distinct (map bb_id (ins_ignore batch_slot (db_batches ?d)
        ([] @ planned_rows uuid4 now aid (Suc (pl_total_batches pl)) bs)))"
      using full by (simp add: ins_ignore_append)
    ultimately show ?thesis
      using IH [of ?d "[]"] by (subst plan_loop.simps) (auto simp: ins_ignore_append)
  next
    case False
    with nxt Cons.prems(1) have "plan_page E uuid4 now aid pl d = (d, [], PageMore ?pl)"
      by (simp add: plan_page_def Let_def)
    moreover have same: "?pl\<lparr> pl_pending := pl_pending pl @ [?row] \<rparr> = ?pl" by simp
    have "\<exists>pl'. plan_loop E uuid4 now aid ?pl d =
        (d\<lparr> db_batches := ins_ignore batch_slot (db_batches d)
              (pl_pending pl @ planned_rows uuid4 now aid (pl_total_batches pl) (p # bs)) \<rparr>,
         map (\<lambda>row. batch_call aid (bb_batch_index row))
           (pl_pending pl @ planned_rows uuid4 now aid (pl_total_batches pl) (p # bs)), Inr pl') \<and>
       pl_total_entities pl' = pl_total_entities pl + sum_list (map pb_entity_count (p # bs)) \<and>
       pl_total_batches pl' = pl_total_batches pl + length (p # bs)"
      using IH [of d "pl_pending pl @ [?row]"] full unfolding same by simp
    ultimately show ?thesis by (subst plan_loop.simps) (elim exE conjE, simp)
  qed
qed

lemma planned_rows_ranges:
  "map (\<lambda>b. (bb_cursor_start b, bb_cursor_end b)) (planned_rows uuid4 now aid k bs) =
   map (\<lambda>p. (pb_cursor_start p, pb_cursor_end p)) bs"
  by (induction bs arbitrary: k) (simp_all add: batch_of_planned_def)

text \<open>Ids supplied fresh stay primary keys.\<close>

lemma fresh_batch_ids:
  assumes "distinct (map bb_id (db_batches d))"
    and "\<forall>i \<le> length bs. uuid4 i \<notin> bb_id ` set (db_batches d) \<and> (\<forall>j < i. uuid4 i \<noteq> uuid4 j)"
  shows "distinct (map bb_id (ins_ignore batch_slot (db_batches d) (planned_rows uuid4 now aid 0 bs)))"
proof -
  let ?rows = "planned_rows uuid4 now aid 0 bs"
  have ids: "map bb_id ?rows = map uuid4 [0..<length bs]" using planned_rows_sel(3) [of uuid4 now aid 0 bs] by simp
  have "inj_on uuid4 {0..<length bs}"
    using assms(2) by (auto simp: inj_on_def) (metis less_imp_le linorder_neqE_nat)
  then have d: "distinct (map bb_id ?rows)" by (simp add: ids distinct_map)
  have "set (map bb_id ?rows) \<inter> bb_id ` set (db_batches d) = {}"
    unfolding ids using assms(2) by (auto simp: less_imp_le) (metis image_eqI less_imp_le)
  then show ?thesis
    using assms(1) distinct_map_ins_fresh [OF d, of batch_slot "map batch_slot (db_batches d)"]
      ins_fresh_subset [of batch_slot "map batch_slot (db_batches d)" ?rows]
    by (auto simp: ins_ignore_def)
qed

interpretation planning: keyed_update ba_id "\<lambda>a. a\<lparr> ba_total_entities := te, ba_total_batches := tb \<rparr>" for te tb
  by unfold_locales simp

lemma load_update_planning:
  "load_action (update_actions (\<lambda>a. ba_id a = aid) (\<lambda>a. a\<lparr> ba_status := s, ba_started_at := t \<rparr>) d) aid =
   map_option (\<lambda>a. a\<lparr> ba_status := s, ba_started_at := t \<rparr>) (load_action d aid)"
  by (simp add: load_action_def update_actions_def started.find_updated)

lemma load_plan_finish:
  "load_action (plan_finish aid te tb now d) aid =
   map_option (\<lambda>a. let a' = a\<lparr> ba_total_entities := te, ba_total_batches := tb \<rparr> in
     if tb = 0 then (if ba_status a = PLANNING then a'\<lparr> ba_status := COMPLETED, ba_finished_at := Some now \<rparr> else a')
     else if ba_status a \<in> {QUEUED, SCHEDULED, PLANNING}
          then a'\<lparr> ba_status := PROCESSING, ba_started_at := Some now \<rparr> else a') (load_action d aid)"
proof -
  have tot: "load_action (update_actions (\<lambda>a. ba_id a = aid) (\<lambda>a. a\<lparr> ba_total_entities := x, ba_total_batches := y \<rparr>) d) aid =
     map_option (\<lambda>a. a\<lparr> ba_total_entities := x, ba_total_batches := y \<rparr>) (load_action d aid)" for x y
    by (simp add: load_action_def update_actions_def planning.find_updated)
  have close: "load_action (update_actions (\<lambda>a. ba_id a = aid \<and> ba_status a = PLANNING)
       (\<lambda>a. a\<lparr> ba_status := COMPLETED, ba_finished_at := Some now \<rparr>) e) aid =
     map_option (\<lambda>a. if ba_status a = PLANNING then a\<lparr> ba_status := COMPLETED, ba_finished_at := Some now \<rparr> else a)
       (load_action e aid)" for e
    by (simp add: load_action_def update_actions_def finished.find_guarded)
  show ?thesis
    by (cases "load_action d aid"; cases "tb = 0")
      (simp_all add: plan_finish_def Let_def load_mark_started tot close)
qed

lemma plan_finish_frame [simp, frame_simps]:
  "db_accounts (plan_finish aid te tb now d) = db_accounts d" "db_crm (plan_finish aid te tb now d) = db_crm d"
  "db_batches (plan_finish aid te tb now d) = db_batches d" "db_logs (plan_finish aid te tb now d) = db_logs d"
  "db_dedup (plan_finish aid te tb now d) = db_dedup d"
  by (simp_all add: plan_finish_def mark_started_def Let_def)

lemma plan_start_go:
  assumes "load_action d aid = Some a" and "\<not> is_terminal (ba_status a)" and "resolve E a = Inr (ent, h, c)"
  shows "plan_start E aid now d =
    (update_actions (\<lambda>a. ba_id a = aid) (\<lambda>a. a\<lparr> ba_status := PLANNING, ba_started_at := Some now \<rparr>) d,
     Inr (Inr \<lparr> pl_action = a, pl_entity = ent, pl_handler = h, pl_config = c,
       pl_gen = plan_batches ent (ba_account_id a) (ba_batch_size a) (selection_filters c)
         (explicit_ids c) (h_include_deleted h),
       pl_pending = [], pl_total_entities = 0, pl_total_batches = 0 \<rparr>))"
  using assms by (simp add: plan_start_def plan_read_def plan_open_def session_scope_def)

lemma plan_bulk_action_all:
  assumes "load_action d aid = Some a" and "\<not> is_terminal (ba_status a)" and "resolve E a = Inr (ent, h, c)"
    and "plan_batches ent (ba_account_id a) (ba_batch_size a) (selection_filters c) (explicit_ids c)
      (h_include_deleted h) = Inr g"
    and "plan_all (e_driver E) ent (ba_batch_size a) (\<lambda>_. db_crm d (ent_table ent)) 0 g = Inr bs"
    and "distinct (map bb_id (ins_ignore batch_slot (db_batches d) (planned_rows uuid4 now aid 0 bs)))"
  shows "\<exists>d' a'. plan_bulk_action E uuid4 now aid d =
      (d', map (\<lambda>p. batch_call aid (pb_index p)) bs,
       Inr (Planned (sum_list (map pb_entity_count bs)) (length bs))) \<and>
    db_batches d' = ins_ignore batch_slot (db_batches d) (planned_rows uuid4 now aid 0 bs) \<and>
    db_crm d' = db_crm d \<and> db_logs d' = db_logs d \<and> db_accounts d' = db_accounts d \<and> db_dedup d' = db_dedup d \<and>
    load_action d' aid = Some (a\<lparr> ba_status := if bs = [] then COMPLETED else PROCESSING,
      ba_total_entities := sum_list (map pb_entity_count bs), ba_total_batches := length bs,
      ba_started_at := Some now, ba_finished_at := if bs = [] then Some now else ba_finished_at a \<rparr>)"
proof -
  let ?d1 = "update_actions (\<lambda>a. ba_id a = aid) (\<lambda>a. a\<lparr> ba_status := PLANNING, ba_started_at := Some now \<rparr>) d"
  let ?pl = "\<lparr> pl_action = a, pl_entity = ent, pl_handler = h, pl_config = c, pl_gen = Inr g,
     pl_pending = [], pl_total_entities = 0, pl_total_batches = 0 \<rparr>"
  let ?rows = "planned_rows uuid4 now aid 0 bs"
  let ?d2 = "?d1\<lparr> db_batches := ins_ignore batch_slot (db_batches ?d1) ?rows \<rparr>"
  obtain pl' where loop: "plan_loop E uuid4 now aid ?pl ?d1 =
      (?d2, map (\<lambda>row. batch_call aid (bb_batch_index row)) ?rows, Inr pl')"
    and tot: "pl_total_entities pl' = sum_list (map pb_entity_count bs)" "pl_total_batches pl' = length bs"
    using plan_loop_all [of ?pl g E ?d1 0 bs uuid4 now aid] assms(5,6) by auto
  have calls: "map (\<lambda>row. batch_call aid (bb_batch_index row)) ?rows = map (\<lambda>p. batch_call aid (pb_index p)) bs"
    using arg_cong [OF planned_rows_sel(1) [of uuid4 now aid 0 bs], of "map (batch_call aid)"] by (simp add: comp_def)
  have "load_action ?d2 aid = load_action ?d1 aid" by (simp add: load_action_def)
  then have l: "load_action ?d2 aid = Some (a\<lparr> ba_status := PLANNING, ba_started_at := Some now \<rparr>)"
    by (simp add: load_update_planning assms(1))
  have "plan_bulk_action E uuid4 now aid d = (plan_finish aid (sum_list (map pb_entity_count bs)) (length bs) now ?d2,
      map (\<lambda>p. batch_call aid (pb_index p)) bs, Inr (Planned (sum_list (map pb_entity_count bs)) (length bs)))"
    by (simp add: plan_bulk_action_def plan_start_go [OF assms(1-3)] assms(4) loop tot calls)
  moreover have "load_action (plan_finish aid (sum_list (map pb_entity_count bs)) (length bs) now ?d2) aid =
      Some (a\<lparr> ba_status := if bs = [] then COMPLETED else PROCESSING,
        ba_total_entities := sum_list (map pb_entity_count bs), ba_total_batches := length bs,
        ba_started_at := Some now, ba_finished_at := if bs = [] then Some now else ba_finished_at a \<rparr>)"
    unfolding load_plan_finish l by (simp add: Let_def)
  ultimately show ?thesis by simp
qed

text \<open>
  (C9) Planning a filter over a quiet table covers the target set exactly: the batch rows written
  are numbered from zero, their id ranges read back in order are the ids of the matching rows,
  every batch gets one job, the totals are the size of the target set and the number of batches,
  and the action is in \<open>processing\<close>, or completed when nothing matched. Running the plan job
  again over the same rows adds no batch row and writes the same totals.
\<close>

theorem plan_covers_target_set:
  assumes "load_action d aid = Some a" and "\<not> is_terminal (ba_status a)" and "resolve E a = Inr (ent, h, c)"
    and "explicit_ids c = None"
    and "selection_clause ent (ba_account_id a) (selection_filters c) (h_include_deleted h) = Inr ps"
    and "select_rows (e_driver E) ent ps (db_crm d (ent_table ent)) = Inr rs"
    and "distinct (map row_id (db_crm d (ent_table ent)))" and "0 < ba_batch_size a"
    and "distinct (map bb_id (db_batches d))"
    and "\<forall>i \<le> length rs. uuid4 i \<notin> bb_id ` set (db_batches d) \<and> (\<forall>j < i. uuid4 i \<noteq> uuid4 j)"
  shows "\<exists>d' calls rows. plan_bulk_action E uuid4 now aid d = (d', calls, Inr (Planned (length rs) (length rows))) \<and>
    db_batches d' = ins_ignore batch_slot (db_batches d) rows \<and>
    map batch_slot rows = map (\<lambda>i. (aid, i)) [0..<length rows] \<and>
    concat (map (\<lambda>b. filter (\<lambda>i. the (bb_cursor_start b) \<le> i \<and> i \<le> the (bb_cursor_end b)) (map row_id rs)) rows) =
      map row_id rs \<and>
    map q_job calls = map (\<lambda>i. BatchJob aid i 0) [0..<length rows] \<and>
    map_option (\<lambda>a. (ba_status a, ba_total_entities a, ba_total_batches a)) (load_action d' aid) =
      Some (if rs = [] then COMPLETED else PROCESSING, length rs, length rows) \<and>
    (rs \<noteq> [] \<longrightarrow> (\<exists>d'' calls'. plan_bulk_action E uuid4' now' aid d' =
        (d'', calls', Inr (Planned (length rs) (length rows))) \<and> db_batches d'' = db_batches d'))"
proof -
  let ?n = "ba_batch_size a"
  let ?G = "FilterGen ps None 0 False"
  let ?F = "\<lambda>x. filter (\<lambda>i. the (fst x) \<le> i \<and> i \<le> the (snd x)) (map row_id rs)"
  have g: "plan_batches ent (ba_account_id a) ?n (selection_filters c) (explicit_ids c) (h_include_deleted h) = Inr ?G"
    by (simp add: plan_batches_def assms(4,5))
  obtain bs where all: "plan_all (e_driver E) ent ?n (\<lambda>_. db_crm d (ent_table ent)) 0 ?G = Inr bs"
    and cov: "concat (map (\<lambda>b. ?F (pb_cursor_start b, pb_cursor_end b)) bs) = map row_id rs"
    and sum: "sum_list (map pb_entity_count bs) = length rs"
    and idx: "map pb_index bs = [0..<length bs]" and ne: "bs = [] \<longleftrightarrow> rs = []"
    using keyset_plan [OF assms(6-8)] by auto
  define rows where "rows = planned_rows uuid4 now aid 0 bs"
  have len: "length rows = length bs" by (simp add: rows_def planned_rows_def)
  have slots: "map batch_slot (planned_rows u t aid 0 bs) = map (\<lambda>i. (aid, i)) [0..<length bs]" for u t
  proof -
    have "map batch_slot (planned_rows u t aid 0 bs) = map (\<lambda>i. (aid, i)) (map bb_batch_index (planned_rows u t aid 0 bs))"
      using planned_rows_sel(4) [of aid u t 0 bs] by (auto simp: batch_slot_def list_all_iff)
    then show ?thesis by (simp only: planned_rows_sel(1) idx)
  qed
  have "map (\<lambda>b. ?F (bb_cursor_start b, bb_cursor_end b)) rows = map ?F (map (\<lambda>b. (bb_cursor_start b, bb_cursor_end b)) rows)"
    by (simp add: comp_def)
  also have "\<dots> = map (\<lambda>b. ?F (pb_cursor_start b, pb_cursor_end b)) bs"
    unfolding rows_def planned_rows_ranges by (simp add: comp_def)
  finally have cov': "concat (map (\<lambda>b. ?F (bb_cursor_start b, bb_cursor_end b)) rows) = map row_id rs"
    using cov by simp
  have few: "length bs \<le> length rs"
    using keyset_plan_few [OF assms(6-8) all] .
  have pk: "distinct (map bb_id (ins_ignore batch_slot (db_batches d) rows))"
    unfolding rows_def by (rule fresh_batch_ids) (use assms(9,10) few in auto)
  obtain d' a' where plan: "plan_bulk_action E uuid4 now aid d =
      (d', map (\<lambda>p. batch_call aid (pb_index p)) bs, Inr (Planned (length rs) (length bs)))"
    and bats: "db_batches d' = ins_ignore batch_slot (db_batches d) rows" and crm: "db_crm d' = db_crm d"
    and l: "load_action d' aid = Some (a\<lparr> ba_status := if bs = [] then COMPLETED else PROCESSING,
      ba_total_entities := length rs, ba_total_batches := length bs,
      ba_started_at := Some now, ba_finished_at := if bs = [] then Some now else ba_finished_at a \<rparr>)"
    using plan_bulk_action_all [OF assms(1-3) g all pk [unfolded rows_def]] by (auto simp: sum rows_def)
  have again: "\<exists>d'' calls'. plan_bulk_action E uuid4' now' aid d' =
        (d'', calls', Inr (Planned (length rs) (length rows))) \<and> db_batches d'' = db_batches d'" if "rs \<noteq> []"
  proof -
    let ?a = "a\<lparr> ba_status := PROCESSING, ba_total_entities := length rs, ba_total_batches := length bs,
      ba_started_at := Some now \<rparr>"
    have "load_action d' aid = Some ?a" using l that ne by simp
    moreover have "resolve E ?a = Inr (ent, h, c)" using assms(3) by (simp add: resolve_def)
    moreover have sub: "batch_slot ` set (planned_rows uuid4' now' aid 0 bs) \<subseteq> batch_slot ` set (db_batches d')"
    proof -
      have "set (map batch_slot (planned_rows uuid4' now' aid 0 bs)) = set (map batch_slot rows)"
        unfolding rows_def slots ..
      then show ?thesis by (auto simp: bats ins_ignore_keys)
    qed
    moreover have "distinct (map bb_id (ins_ignore batch_slot (db_batches d') (planned_rows uuid4' now' aid 0 bs)))"
      unfolding ins_ignore_present [OF sub] using pk by (simp add: bats)
    ultimately have "\<exists>d'' a''. plan_bulk_action E uuid4' now' aid d' =
        (d'', map (\<lambda>p. batch_call aid (pb_index p)) bs, Inr (Planned (length rs) (length bs))) \<and>
        db_batches d'' = ins_ignore batch_slot (db_batches d') (planned_rows uuid4' now' aid 0 bs)"
      using plan_bulk_action_all [of d' aid ?a E ent h c ?G bs uuid4' now'] g all by (auto simp: crm sum)
    then show ?thesis by (auto simp: ins_ignore_present [OF sub] len)
  qed
  have jobs: "map q_job (map (\<lambda>p. batch_call aid (pb_index p)) bs) = map (\<lambda>i. BatchJob aid i 0) [0..<length bs]"
    using arg_cong [OF idx, of "map (\<lambda>i. BatchJob aid i 0)"] by (simp add: batch_call_def comp_def)
  show ?thesis
    by (rule exI [of _ d'], rule exI [of _ "map (\<lambda>p. batch_call aid (pb_index p)) bs"], rule exI [of _ rows])
      (use plan bats slots [of uuid4 now] cov' jobs l again ne in \<open>simp add: len rows_def [symmetric]\<close>)
qed

definition example_env :: env where
  "example_env = \<lparr> e_driver = plain_driver, e_pydantic = strict_pydantic, e_settings = default_settings,
     e_entities = shipped_entities, e_actions = shipped_actions, e_str = (\<lambda>_. ''error'') \<rparr>"

definition queued_db :: db where
  "queued_db = example_db\<lparr> db_actions := [example_action QUEUED example_age_update] \<rparr>"

lemma example_resolve: "resolve example_env (example_action st example_age_update) =
    Inr (contact_entity, update_handler, example_age_update)"
  by (simp add: resolve_def example_env_def get_entity_def shipped_entities_def get_action_def
      shipped_actions_def supports_def update_handler_def example_action_def example_age_update_def
      example_update_def parse_update_config_def extra_forbid_def field_dict_opt_def field_uuids_opt_def
      field_str_opt_def dump_opt_def require_a_target_set_def)

lemma example_select:
  "selection_clause contact_entity 7 (selection_filters example_age_update) False =
     Inr [SAccount 7, SIsNull ''deleted_at'']"
  "select_rows plain_driver contact_entity [SAccount 7, SIsNull ''deleted_at''] (db_crm queued_db ''contacts'') =
     Inr [example_contact 1 7 ''a@b.c'' ''active'', example_contact 2 7 ''b@b.c'' ''active'']"
  by (simp_all add: example_age_update_def example_update_def selection_clause_def build_predicates_def
      contact_entity_def select_rows_def eval_where_iff example_contact_def row_get_def queued_db_def
      example_db_def word_le_nat_alt)

theorem plan_covers_target_set_witness:
  "\<exists>d' calls (rows :: batch_row list). plan_bulk_action example_env (\<lambda>i. 300 + of_nat i) 9 100 queued_db =
     (d', calls, Inr (Planned 2 (length rows))) \<and> map q_job calls = map (\<lambda>i. BatchJob 100 i 0) [0..<length rows]"
proof -
  let ?a = "example_action QUEUED example_age_update"
  have l: "load_action queued_db 100 = Some ?a" and t: "\<not> is_terminal (ba_status ?a)" and n: "0 < ba_batch_size ?a"
    by (simp_all add: load_action_def queued_db_def example_action_def)
  have c: "explicit_ids example_age_update = None" by (simp add: example_age_update_def example_update_def)
  have sc: "selection_clause contact_entity (ba_account_id ?a) (selection_filters example_age_update)
      (h_include_deleted update_handler) = Inr [SAccount 7, SIsNull ''deleted_at'']"
    using example_select(1) by (simp add: example_action_def update_handler_def)
  have tab: "ent_table contact_entity = ''contacts''" and drv: "e_driver example_env = plain_driver"
    by (simp_all add: contact_entity_def example_env_def)
  have dist: "distinct (map row_id (db_crm queued_db (ent_table contact_entity)))"
    by (simp add: tab queued_db_def example_db_def example_contact_def)
  have sel: "select_rows (e_driver example_env) contact_entity [SAccount 7, SIsNull ''deleted_at'']
      (db_crm queued_db (ent_table contact_entity)) =
     Inr [example_contact 1 7 ''a@b.c'' ''active'', example_contact 2 7 ''b@b.c'' ''active'']"
    unfolding tab drv by (rule example_select(2))
  have nob: "distinct (map bb_id (db_batches queued_db))" by (simp add: queued_db_def example_db_def)
  have fresh: "\<forall>i \<le> length [example_contact 1 7 ''a@b.c'' ''active'', example_contact 2 7 ''b@b.c'' ''active''].
      300 + of_nat i \<notin> bb_id ` set (db_batches queued_db) \<and> (\<forall>j < i. 300 + of_nat i \<noteq> (300 + of_nat j :: uuid))"
    by (auto simp: queued_db_def example_db_def le_Suc_eq less_Suc_eq numeral_2_eq_2)
  obtain d' calls and rows :: "batch_row list" where
    "plan_bulk_action example_env (\<lambda>i. 300 + of_nat i) 9 100 queued_db = (d', calls, Inr (Planned
       (length [example_contact 1 7 ''a@b.c'' ''active'', example_contact 2 7 ''b@b.c'' ''active'']) (length rows)))"
    and "map q_job calls = map (\<lambda>i. BatchJob 100 i 0) [0..<length rows]"
    using plan_covers_target_set [OF l t example_resolve c sc sel dist n nob fresh, of 9
        "\<lambda>i. 400 + of_nat i" 10]
    by (elim exE conjE)
  then show ?thesis by (intro exI [of _ d'] exI [of _ calls] exI [of _ rows]) simp
qed

section \<open>Redelivery and failure\<close>

lemma preflight_completed:
  "load_action d aid = Some a \<Longrightarrow> load_batch d aid i = Some b \<Longrightarrow> bb_status b = B_COMPLETED \<Longrightarrow>
   process_batch E fx ck job_try aid i deferrals R d =
    \<lparr> tr_redis = R, tr_db = d, tr_calls = [], tr_published = [], tr_reply = Inr AlreadyCompleted \<rparr>"
  by (simp add: process_batch_def preflight_defs session_scope_def)

text \<open>
  (C16) Redelivering the job of a completed batch does nothing: no rate-limit tokens are taken, no
  row changes, nothing is enqueued or published.
\<close>

theorem completed_batch_redelivery:
  assumes "load_action d aid = Some a" and "load_batch d aid i = Some b" and "bb_status b = B_COMPLETED"
  shows "process_batch E fx ck job_try aid i deferrals R d =
    \<lparr> tr_redis = R, tr_db = d, tr_calls = [], tr_published = [], tr_reply = Inr AlreadyCompleted \<rparr>"
  using assms by (rule preflight_completed)

theorem completed_batch_redelivery_witness:
  "tr_reply (process_batch example_env \<lparr> fx_execute = None, fx_finish = None \<rparr>
      \<lparr> ck_now = 0, ck_now_ms = 0, ck_redis_ms = 0 \<rparr> 1 100 0 0 (\<lambda>_. None)
      (running_db\<lparr> db_batches := [example_batch B_COMPLETED 3] \<rparr>)) = Inr AlreadyCompleted"
proof -
  let ?d = "running_db\<lparr> db_batches := [example_batch B_COMPLETED 3] \<rparr>"
  have "load_action ?d 100 = Some (example_action PROCESSING example_age_update)"
    "load_batch ?d 100 0 = Some (example_batch B_COMPLETED 3)" "bb_status (example_batch B_COMPLETED 3) = B_COMPLETED"
    by (simp_all add: load_action_def load_batch_def running_db_def example_action_def example_batch_def)
  from completed_batch_redelivery [OF this] show ?thesis by simp
qed

lemma execute_txn_rollback: "execute_txn E aid bid now d = (d', Inl e) \<Longrightarrow> d' = d"
  unfolding execute_txn_def by (rule session_scope_Inl)

lemma try_execute_rollback: "try_execute E fx aid bid now d = (d', Inl e) \<Longrightarrow> d' = d"
  by (auto simp: try_execute_def dest: execute_txn_rollback split: option.splits)

lemma preflight_rollback: "preflight aid i now d = (d', Inl e) \<Longrightarrow> d' = d"
  unfolding preflight_def by (rule session_scope_Inl)

lemma preflight_go:
  "preflight aid i now d = (d', Inr (Inr g)) \<Longrightarrow>
   d' = d \<and> (\<exists>a b acc. load_action d aid = Some a \<and> load_batch d aid i = Some b \<and> bb_status b \<noteq> B_COMPLETED \<and>
     ba_status a \<noteq> CANCELLED \<and> load_account d (ba_account_id a) = Some acc \<and>
     g = \<lparr> go_account_id = ba_account_id a, go_limit_per_minute = acc_rate_limit_per_minute acc,
           go_entity_count = bb_entity_count b, go_batch_id = bb_id b \<rparr>)"
  by (auto simp: preflight_defs session_scope_def split: option.splits if_splits)


text \<open>A job for the example batch, at a fixed time, with the faults given.\<close>

definition example_job :: "faults \<Rightarrow> int \<Rightarrow> db \<Rightarrow> task_result" where
  "example_job fx job_try d = process_batch example_env fx \<lparr> ck_now = 9, ck_now_ms = 0, ck_redis_ms = 0 \<rparr>
     job_try 100 0 0 (\<lambda>_. None) d"

definition example_go :: go where
  "example_go = \<lparr> go_account_id = 7, go_limit_per_minute = 600, go_entity_count = 3, go_batch_id = 200 \<rparr>"

lemma example_preflight: "preflight 100 0 now running_db = (running_db, Inr (Inr example_go))"
  by (simp add: preflight_defs session_scope_def running_db_def load_action_def load_batch_def load_account_def
      example_action_def example_batch_def example_db_def example_go_def)

lemma example_admitted:
  "\<exists>R'. consume_entities (go_account_id example_go) (go_limit_per_minute example_go)
     (int (go_entity_count example_go)) 0 0 (\<lambda>_. None) = (R', Inr \<lparr> rd_allowed = True, rd_retry_after_seconds = 0,
       rd_tokens_remaining = 597 \<rparr>)"
  by (simp add: example_go_def consume_entities_def consume_def token_bucket_script_def hmget_def Let_def)

lemma example_job_work:
  "tr_reply (example_job fx job_try running_db) =
   snd (snd (run_work example_env fx job_try 100 200 3 9 (mark_attempt 200 9 running_db)))"
proof -
  obtain R' where "consume_entities (go_account_id example_go) (go_limit_per_minute example_go)
     (int (go_entity_count example_go)) 0 0 (\<lambda>_. None) = (R', Inr \<lparr> rd_allowed = True,
       rd_retry_after_seconds = 0, rd_tokens_remaining = 597 \<rparr>)"
    using example_admitted by blast
  then show ?thesis
    by (simp add: example_job_def process_batch_def example_preflight Let_def split: prod.splits)
      (simp add: example_go_def)
qed


section \<open>Giving up on a batch\<close>

lemma mark_batch_failed_frame [simp, frame_simps]:
  "db_accounts (mark_batch_failed E aid bid n err now d) = db_accounts d"
  "db_crm (mark_batch_failed E aid bid n err now d) = db_crm d"
  "db_dedup (mark_batch_failed E aid bid n err now d) = db_dedup d"
  by (simp_all add: mark_batch_failed_def record_batch_completion_def Let_def)

lemma mark_batch_failed_actions:
  "db_actions (mark_batch_failed E aid bid n err now d) =
   upd_where (\<lambda>a. ba_id a = aid) (add_counts n 0 n 0 True) (db_actions d)"
  by (simp add: mark_batch_failed_def record_batch_completion_def Let_def update_actions_def)

lemma mark_batch_failed_logs:
  "db_logs (mark_batch_failed E aid bid n err now d) =
   db_logs (write_outcomes aid (Some bid) now (batch_error_outcomes E n err) d)"
  by (simp add: mark_batch_failed_def record_batch_completion_def Let_def write_outcomes_def next_log_id_def)

lemma mark_batch_failed_batches:
  "db_batches (mark_batch_failed E aid bid n err now d) =
   upd_where (\<lambda>b. bb_id b = bid) (\<lambda>b. b\<lparr> bb_status := B_FAILED, bb_failure_count := n,
     bb_error := Some (take 2000 err), bb_finished_at := Some now \<rparr>) (db_batches d)"
  by (simp add: mark_batch_failed_def record_batch_completion_def Let_def) (simp add: update_batches_def)

interpretation gave_up: keyed_update bb_id
  "\<lambda>b. b\<lparr> bb_status := s, bb_failure_count := n, bb_error := e, bb_finished_at := t \<rparr>" for s n e t
  by unfold_locales simp

lemma load_mark_batch_failed:
  "load_action (mark_batch_failed E aid bid n err now d) aid = map_option (add_counts n 0 n 0 True) (load_action d aid)"
  by (simp add: load_action_def mark_batch_failed_actions counted.find_updated)

lemma mark_batch_failed_ids:
  "map ba_id (db_actions (mark_batch_failed E aid bid n err now d)) = map ba_id (db_actions d)"
  by (simp add: mark_batch_failed_actions counted.keys_kept)

lemma batch_error_outcomes_counts:
  "length (batch_error_outcomes E n err) = n" "count_status L_FAILED (batch_error_outcomes E n err) = n"
  "count_status L_SUCCESS (batch_error_outcomes E n err) = 0" "count_status L_SKIPPED (batch_error_outcomes E n err) = 0"
  by (simp_all add: batch_error_outcomes_def count_status_def)

lemma finalize_frame [simp, frame_simps]:
  "db_accounts (snd (finalize_if_complete aid now d)) = db_accounts d"
  "db_crm (snd (finalize_if_complete aid now d)) = db_crm d"
  "db_batches (snd (finalize_if_complete aid now d)) = db_batches d"
  "db_logs (snd (finalize_if_complete aid now d)) = db_logs d"
  "db_dedup (snd (finalize_if_complete aid now d)) = db_dedup d"
  by (simp_all add: finalize_if_complete_def Let_def split: option.splits)

lemma load_finalize:
  assumes "distinct (map ba_id (db_actions d))" and "load_action d aid = Some a"
  shows "load_action (snd (finalize_if_complete aid now d)) aid =
    Some (case final_status a of None \<Rightarrow> a | Some s \<Rightarrow> a\<lparr> ba_status := s, ba_finished_at := Some now \<rparr>)"
  by (simp add: finalize_eq [OF assms(1)] assms(2) load_finished split: option.splits)

text \<open>
  (C14) A batch whose tries are exhausted does not strand its action: every entity it was planned
  for is logged and counted as failed, the batch counts as reported, no entity is written, and if
  it was the last one to report the action is closed as completed with errors.
\<close>

theorem exhausted_batch_is_accounted:
  assumes "try_execute E fx aid bid now d = (d1, Inl e)" and "s_job_max_tries (e_settings E) \<le> job_try"
    and "distinct (map ba_id (db_actions d))" and "load_action d aid = Some a" and "0 < n"
    and "run_work E fx job_try aid bid n now d = (d2, pub, reply)"
  shows "reply = Inr (BatchFailed (e_str E e)) \<and> db_crm d2 = db_crm d \<and>
    count_logs d2 aid L_FAILED = count_logs d aid L_FAILED + n \<and>
    (\<exists>a'. load_action d2 aid = Some a' \<and> ba_processed_count a' = ba_processed_count a + n \<and>
       ba_failure_count a' = ba_failure_count a + n \<and> ba_completed_batches a' = ba_completed_batches a + 1 \<and>
       ba_status a' = (if ba_status a = PROCESSING \<and> ba_total_batches a \<le> ba_completed_batches a + 1
                       then COMPLETED_WITH_ERRORS else ba_status a))"
proof -
  let ?m = "mark_batch_failed E aid bid n (e_str E e) now d"
  have r: "d2 = snd (finalize_if_complete aid now ?m)" "reply = Inr (BatchFailed (e_str E e))"
    using assms(1,2,6) try_execute_rollback [OF assms(1)]
    by (auto simp: run_work_def on_batch_error_def Let_def)
  have m: "load_action ?m aid = Some (add_counts n 0 n 0 True a)" by (simp add: load_mark_batch_failed assms(4))
  have "distinct (map ba_id (db_actions ?m))" using assms(3) by (simp add: mark_batch_failed_ids)
  note fin = load_finalize [OF this m, of now]
  have "count_logs d2 aid L_FAILED = count_logs (write_outcomes aid (Some bid) now (batch_error_outcomes E n (e_str E e)) d) aid L_FAILED"
    by (simp add: r count_logs_def logs_of_def mark_batch_failed_logs)
  then have "count_logs d2 aid L_FAILED = count_logs d aid L_FAILED + n"
    by (simp add: count_logs_write_outcomes batch_error_outcomes_counts)
  with r fin assms(5) show ?thesis by (auto simp: final_status_def add_counts_def)
qed

theorem exhausted_batch_is_accounted_witness:
  "\<exists>d2 pub. run_work example_env \<lparr> fx_execute = Some NoResultFound, fx_finish = None \<rparr> 3 100 200 3 9 running_db =
     (d2, pub, Inr (BatchFailed ''error'')) \<and> map_option ba_status (load_action d2 100) = Some COMPLETED_WITH_ERRORS"
proof -
  let ?fx = "\<lparr> fx_execute = Some NoResultFound, fx_finish = None \<rparr>" and ?a = "example_action PROCESSING example_age_update"
  have t: "try_execute example_env ?fx 100 200 9 running_db = (running_db, Inl NoResultFound)"
    by (simp add: try_execute_def)
  have m: "s_job_max_tries (e_settings example_env) \<le> 3" by (simp add: example_env_def)
  have d: "distinct (map ba_id (db_actions running_db))" and l: "load_action running_db 100 = Some ?a"
    by (simp_all add: running_db_def load_action_def example_action_def)
  obtain d2 pub reply where r: "run_work example_env ?fx 3 100 200 3 9 running_db = (d2, pub, reply)"
    by (cases "run_work example_env ?fx 3 100 200 3 9 running_db")
  show ?thesis
    using r exhausted_batch_is_accounted [OF t m d l _ r] by (auto simp: example_env_def example_action_def)
qed

text \<open>
  The work transaction and the closing transaction share one error handler. When the closing
  transaction fails on the last try, the batch that has just committed is recorded a second time:
  its entities stay written, yet the row reads \<open>failed\<close>, its size is added again to the
  processed and failure counters, and the action's batch counter moves by two.
\<close>

theorem late_fault_counts_twice:
  assumes "try_execute E fx aid bid now d = (d1, Inr (Inr outcomes))" and "fx_finish fx = Some e"
    and "s_job_max_tries (e_settings E) \<le> job_try"
    and "distinct (map ba_id (db_actions d1))" and "load_action d1 aid = Some a"
    and "load_batch_by_id d1 bid = Some b"
    and "run_work E fx job_try aid bid n now d = (d2, pub, reply)"
  shows "reply = Inr (BatchFailed (e_str E e)) \<and> db_crm d2 = db_crm d1 \<and>
    map_option bb_status (load_batch_by_id d2 bid) = Some B_FAILED \<and>
    (\<exists>a'. load_action d2 aid = Some a' \<and> ba_processed_count a' = ba_processed_count a + n \<and>
       ba_failure_count a' = ba_failure_count a + n \<and> ba_completed_batches a' = ba_completed_batches a + 1)"
proof -
  let ?m = "mark_batch_failed E aid bid n (e_str E e) now d1"
  have r: "d2 = snd (finalize_if_complete aid now ?m)" "reply = Inr (BatchFailed (e_str E e))"
    using assms(1-3,7) by (auto simp: run_work_def on_batch_error_def Let_def)
  have m: "load_action ?m aid = Some (add_counts n 0 n 0 True a)" by (simp add: load_mark_batch_failed assms(5))
  have dist: "distinct (map ba_id (db_actions ?m))" using assms(4) by (simp add: mark_batch_failed_ids)
  have "map_option bb_status (load_batch_by_id d2 bid) = Some B_FAILED"
    using assms(6) by (simp add: r load_batch_by_id_def mark_batch_failed_batches gave_up.find_updated)
  moreover have "db_crm d2 = db_crm d1" by (simp add: r)
  ultimately show ?thesis
    using load_finalize [OF dist m, of now] r by (auto simp: add_counts_def split: option.splits)
qed

lemma example_execute:
  "\<exists>outcomes d1. execute_txn example_env 100 200 9 running_db = (d1, Inr (Inr outcomes)) \<and>
     run_batch plain_driver 9 (example_action PROCESSING example_age_update) (example_batch B_PROCESSING 3)
       contact_entity update_handler example_age_update running_db = Inr (outcomes, d1)"
proof -
  obtain outcomes d1 where rb: "run_batch plain_driver 9 (example_action PROCESSING example_age_update)
      (example_batch B_PROCESSING 3) contact_entity update_handler example_age_update running_db = Inr (outcomes, d1)"
    using example_run_batch by (elim exE conjE)
  have l: "load_action running_db 100 = Some (example_action PROCESSING example_age_update)"
    "load_batch_by_id running_db 200 = Some (example_batch B_PROCESSING 3)"
    by (simp_all add: running_db_def load_action_def load_batch_by_id_def example_action_def example_batch_def)
  have "e_driver example_env = plain_driver" "bb_status (example_batch B_PROCESSING 3) \<noteq> B_COMPLETED"
    by (simp_all add: example_env_def example_batch_def)
  with rb show ?thesis
    by (simp add: execute_defs session_scope_def l example_resolve)
qed

theorem late_fault_counts_twice_witness:
  "\<exists>d2 pub. run_work example_env \<lparr> fx_execute = None, fx_finish = Some NoResultFound \<rparr> 3 100 200 3 9 running_db =
     (d2, pub, Inr (BatchFailed ''error'')) \<and> map_option bb_status (load_batch_by_id d2 200) = Some B_FAILED"
proof -
  let ?fx = "\<lparr> fx_execute = None, fx_finish = Some NoResultFound \<rparr>"
  let ?a = "example_action PROCESSING example_age_update" and ?b = "example_batch B_PROCESSING 3"
  obtain outcomes d1 where ex: "execute_txn example_env 100 200 9 running_db = (d1, Inr (Inr outcomes))"
    and rb: "run_batch plain_driver 9 ?a ?b contact_entity update_handler example_age_update running_db = Inr (outcomes, d1)"
    using example_execute by (elim exE conjE)
  have t: "try_execute example_env ?fx 100 200 9 running_db = (d1, Inr (Inr outcomes))"
    by (simp add: try_execute_def ex)
  have acts: "db_actions d1 = upd_where (\<lambda>a. ba_id a = ba_id ?a) (counted_result outcomes) (db_actions running_db)"
    and bats: "db_batches d1 = upd_where (\<lambda>b. bb_id b = bb_id ?b) (completed_with outcomes 9) (db_batches running_db)"
    by (rule upd.run_batch_spec [OF rb], assumption)+
  have d: "distinct (map ba_id (db_actions d1))" by (simp add: acts running_db_def)
  have l: "load_action d1 100 = Some (counted_result outcomes ?a)"
    "load_batch_by_id d1 200 = Some (completed_with outcomes 9 ?b)"
    by (simp_all add: load_action_def load_batch_by_id_def acts bats running_db_def counted_result_def
        add_counts_def completed_with_def example_action_def example_batch_def)
  obtain d2 pub reply where r: "run_work example_env ?fx 3 100 200 3 9 running_db = (d2, pub, reply)"
    by (cases "run_work example_env ?fx 3 100 200 3 9 running_db")
  show ?thesis
    using r late_fault_counts_twice [OF t _ _ d l r] by (simp add: example_env_def)
qed

section \<open>The rate-limit gate\<close>

text \<open>
  A batch the limiter refuses costs nothing and is not lost: no row changes and no retry is
  used; one job for the same batch is enqueued, deferred by at least the time the limiter says the
  bucket needs to hold the batch.
\<close>

theorem rate_limited_batch_is_deferred:
  assumes "preflight aid i (ck_now ck) d = (d, Inr (Inr g))"
    and "consume_entities (go_account_id g) (go_limit_per_minute g) (int (go_entity_count g))
      (ck_now_ms ck) (ck_redis_ms ck) R = (R', Inr decision)"
    and "\<not> rd_allowed decision"
  shows "tr_db (process_batch E fx ck job_try aid i deferrals R d) = d \<and>
    tr_reply (process_batch E fx ck job_try aid i deferrals R d) = Inr (RateLimited (retry_after_ms decision)) \<and>
    map q_job (tr_calls (process_batch E fx ck job_try aid i deferrals R d)) = [BatchJob aid i (Suc deferrals)] \<and>
    map q_defer_by (tr_calls (process_batch E fx ck job_try aid i deferrals R d)) =
      [Some (of_int (retry_after_ms decision) / 1000)] \<and>
    rd_retry_after_seconds decision \<le> of_int (retry_after_ms decision) / 1000"
proof -
  have "r * 1000 \<le> of_int (py_int (r * 1000) + 50)" for r :: rat
    unfolding py_int_def using of_int_floor_le by (auto, linarith+)
  then have "rd_retry_after_seconds decision * 1000 \<le> of_int (retry_after_ms decision)"
    by (simp add: retry_after_ms_def)
  then have "rd_retry_after_seconds decision \<le> of_int (retry_after_ms decision) / 1000" by linarith
  then show ?thesis using assms by (simp add: process_batch_def deferred_call_def)
qed

theorem rate_limited_batch_is_deferred_witness:
  "map q_job (tr_calls (process_batch example_env \<lparr> fx_execute = None, fx_finish = None \<rparr>
     \<lparr> ck_now = 9, ck_now_ms = 0, ck_redis_ms = 0 \<rparr> 1 100 0 4
     (\<lambda>_. Some \<lparr> bk_tokens = 0, bk_ts = 0, bk_expires = 120000 \<rparr>) running_db)) = [BatchJob 100 0 5]"
proof -
  let ?ck = "\<lparr> ck_now = 9, ck_now_ms = 0, ck_redis_ms = 0 \<rparr>"
  let ?R = "\<lambda>_ :: string. Some \<lparr> bk_tokens = 0, bk_ts = 0, bk_expires = 120000 \<rparr>"
  have p: "preflight 100 0 (ck_now ?ck) running_db = (running_db, Inr (Inr example_go))" by (rule example_preflight)
  obtain R' dec where c: "consume_entities (go_account_id example_go) (go_limit_per_minute example_go)
      (int (go_entity_count example_go)) (ck_now_ms ?ck) (ck_redis_ms ?ck) ?R = (R', Inr dec)" and "\<not> rd_allowed dec"
    by (simp add: example_go_def consume_entities_def consume_def token_bucket_script_def hmget_def Let_def)
  from rate_limited_batch_is_deferred [OF p this, of example_env "\<lparr> fx_execute = None, fx_finish = None \<rparr>" 1 4]
  show ?thesis by simp
qed

text \<open>
  A batch planned under a larger limit than the account has now can never run: every job for
  it raises, whatever try it is on, before the handler that would record the failure, and changes
  nothing, so the batch and its action stay unfinished.
\<close>

theorem lowered_limit_strands_batch:
  assumes "preflight aid i (ck_now ck) d = (d, Inr (Inr g))"
    and "0 < go_entity_count g" and "go_limit_per_minute g < int (go_entity_count g)"
  shows "process_batch E fx ck job_try aid i deferrals R d =
    \<lparr> tr_redis = R, tr_db = d, tr_calls = [], tr_published = [],
      tr_reply = Inl (ValueError ''Cannot consume'') \<rparr>"
  using assms by (simp add: process_batch_def consume_entities_def consume_def)

theorem lowered_limit_strands_batch_witness:
  "tr_reply (process_batch example_env \<lparr> fx_execute = None, fx_finish = None \<rparr> \<lparr> ck_now = 9, ck_now_ms = 0, ck_redis_ms = 0 \<rparr> 3 100 0 0 (\<lambda>_. None)
     (running_db\<lparr> db_batches := [example_batch B_PROCESSING 1000] \<rparr>)) = Inl (ValueError ''Cannot consume'')"
proof -
  let ?d = "running_db\<lparr> db_batches := [example_batch B_PROCESSING 1000] \<rparr>"
  have "preflight 100 0 9 ?d = (?d, Inr (Inr (example_go\<lparr> go_entity_count := 1000 \<rparr>)))"
    by (simp add: preflight_defs session_scope_def running_db_def load_action_def load_batch_def load_account_def
      example_action_def example_batch_def example_db_def example_go_def)
  then show ?thesis
    using lowered_limit_strands_batch [of 100 0 "\<lparr> ck_now = 9, ck_now_ms = 0, ck_redis_ms = 0 \<rparr>" ?d
        "example_go\<lparr> go_entity_count := 1000 \<rparr>"]
    by (simp add: example_go_def)
qed

section \<open>A finished action that is never closed\<close>



end
