(* ===== verification/Service.thy ===== *)
theory Service
  imports Tasks
begin

text \<open>
  The application service and the HTTP layer around it: \<open>app/services/bulk_action_service.py\<close>,
  \<open>app/schemas/bulk_action.py\<close>, \<open>app/api/routes/\<close>. The write path is
  \<open>create_bulk_action\<close> and \<open>cancel_bulk_action\<close>; the read models are the listings and
  \<open>get_stats\<close>. A request runs in one transaction (\<open>session_scope\<close>) that commits after the
  handler returns, which is after the plan job has been handed to the queue.
\<close>

section \<open>Submission\<close>

record bulk_action_create =
  rq_account_id :: uuid
  rq_entity_type :: string
  rq_action_type :: string
  rq_payload :: pydict
  rq_batch_size :: "int option"
  rq_scheduled_at :: "time option"
  rq_idempotency_key :: "string option"

text \<open>The schema's own checks and its validator, which strips and lowers the two names. A naive
  \<open>scheduled_at\<close> is read as UTC; an instant has no time zone here.\<close>

definition schema_accepts :: "bulk_action_create \<Rightarrow> bool" where
  "schema_accepts rq \<longleftrightarrow>
     (case rq_batch_size rq of None \<Rightarrow> True | Some n \<Rightarrow> 1 \<le> n \<and> n \<le> 10000) \<and>
     (case rq_idempotency_key rq of None \<Rightarrow> True | Some k \<Rightarrow> length k \<le> 255)"

definition lower_names :: "bulk_action_create \<Rightarrow> bulk_action_create" where
  "lower_names rq = rq\<lparr> rq_entity_type := py_lower (py_strip (rq_entity_type rq)),
     rq_action_type := py_lower (py_strip (rq_action_type rq)) \<rparr>"

definition get_account :: "db \<Rightarrow> uuid \<Rightarrow> account result" where
  "get_account d account_id =
     (case load_account d account_id of
        None \<Rightarrow> Inl (NotFoundError ''Account does not exist.'')
      | Some a \<Rightarrow> Inr a)"

definition find_replay :: "db \<Rightarrow> bulk_action_create \<Rightarrow> bulk_action option" where
  "find_replay d rq =
     (case rq_idempotency_key rq of
        None \<Rightarrow> None
      | Some k \<Rightarrow>
          if k = [] then None
          else find (\<lambda>a. ba_account_id a = rq_account_id rq \<and> ba_idempotency_key a = Some k) (db_actions d))"

text \<open>Everything checked before the limiter is charged: entity, action, payload, schedule.\<close>

definition validate_request :: "env \<Rightarrow> time \<Rightarrow> bulk_action_create \<Rightarrow> (descriptor \<times> handler \<times> config) result" where
  "validate_request E now rq =
     rbind (get_entity (e_entities E) (rq_entity_type rq)) (\<lambda>ent.
     rbind (get_action (e_actions E) (rq_action_type rq) (Some (rq_entity_type rq))) (\<lambda>h.
     rbind (h_validate_config h (e_pydantic E) ent (rq_payload rq)) (\<lambda>config.
       (case rq_scheduled_at rq of
          Some t \<Rightarrow> if t \<le> now then Inl (ValidationError ScheduledInThePast) else Inr (ent, h, config)
        | None \<Rightarrow> Inr (ent, h, config)))))"

definition new_action ::
  "env \<Rightarrow> uuid \<Rightarrow> time \<Rightarrow> bulk_action_create \<Rightarrow> account \<Rightarrow> descriptor \<Rightarrow> handler \<Rightarrow> config \<Rightarrow> bulk_action" where
  "new_action E new_id now rq account ent h config =
     \<lparr> ba_id = new_id, ba_account_id = rq_account_id rq, ba_entity_type = ent_name ent,
       ba_action_type = h_action_type h,
       ba_status = (if rq_scheduled_at rq \<noteq> None then SCHEDULED else QUEUED),
       ba_configuration = model_dump (e_pydantic E) config,
       ba_batch_size = nat (effective_batch_size (e_settings E) (rq_batch_size rq)
         (acc_rate_limit_per_minute account)),
       ba_scheduled_at = rq_scheduled_at rq, ba_total_entities = 0, ba_processed_count = 0,
       ba_success_count = 0, ba_failure_count = 0, ba_skipped_count = 0, ba_total_batches = 0,
       ba_completed_batches = 0, ba_error = None, ba_idempotency_key = rq_idempotency_key rq,
       ba_created_at = now, ba_started_at = None, ba_finished_at = None \<rparr>"

text \<open>\<open>session.add\<close> and \<open>flush\<close>: the INSERT, with the primary key and the unique constraint on
  account and idempotency key.\<close>

definition insert_action :: "bulk_action \<Rightarrow> db \<Rightarrow> db result" where
  "insert_action a d =
     (if ba_id a \<in> ba_id ` set (db_actions d) then Inl (DriverError ''pk_bulk_actions'')
      else if ba_idempotency_key a \<noteq> None \<and>
         list_ex (\<lambda>b. ba_account_id b = ba_account_id a \<and> ba_idempotency_key b = ba_idempotency_key a) (db_actions d)
      then Inl (DriverError ''uq_bulk_actions_idempotency'')
      else Inr (d\<lparr> db_actions := db_actions d @ [a] \<rparr>))"

definition plan_call :: "uuid \<Rightarrow> time option \<Rightarrow> enqueue_call" where
  "plan_call aid scheduled_at = \<lparr> q_job = PlanJob aid, q_job_id = ''plan:'' @ uuid_str aid,
     q_defer_by = None, q_defer_until = scheduled_at \<rparr>"

record submit_result =
  sr_redis :: redis
  sr_db :: db
  sr_calls :: "enqueue_call list"
  sr_reply :: "(bulk_action \<times> bool) result"

text \<open>The handler's own effects; \<open>sr_db\<close> is what the request's transaction will commit.\<close>

definition create_bulk_action ::
  "env \<Rightarrow> uuid \<Rightarrow> clock \<Rightarrow> bulk_action_create \<Rightarrow> redis \<Rightarrow> db \<Rightarrow> submit_result" where
  "create_bulk_action E new_id ck rq R d =
     (let fail = (\<lambda>R' e. \<lparr> sr_redis = R', sr_db = d, sr_calls = [], sr_reply = Inl e \<rparr>) in
      case get_account d (rq_account_id rq) of
        Inl e \<Rightarrow> fail R e
      | Inr account \<Rightarrow>
          (case find_replay d rq of
             Some existing \<Rightarrow> \<lparr> sr_redis = R, sr_db = d, sr_calls = [], sr_reply = Inr (existing, False) \<rparr>
           | None \<Rightarrow>
               (case validate_request E (ck_now ck) rq of
                  Inl e \<Rightarrow> fail R e
                | Inr (ent, h, config) \<Rightarrow>
                    (case consume_submission (e_settings E) (rq_account_id rq) (ck_now_ms ck) (ck_redis_ms ck) R of
                       (R', Inl e) \<Rightarrow> fail R' e
                     | (R', Inr decision) \<Rightarrow>
                         if \<not> rd_allowed decision
                         then fail R' (RateLimitError (rd_retry_after_seconds decision))
                         else
                           (let action = new_action E new_id (ck_now ck) rq account ent h config in
                            case insert_action action d of
                              Inl e \<Rightarrow> fail R' e
                            | Inr d' \<Rightarrow>
                                \<lparr> sr_redis = R', sr_db = d',
                                  sr_calls = [plan_call new_id (rq_scheduled_at rq)],
                                  sr_reply = Inr (action, True) \<rparr>)))))"

section \<open>Reading and cancelling\<close>

definition get_bulk_action :: "db \<Rightarrow> uuid \<Rightarrow> bulk_action result" where
  "get_bulk_action d action_id =
     (case load_action d action_id of
        None \<Rightarrow> Inl (NotFoundError ''Bulk action does not exist.'')
      | Some a \<Rightarrow> Inr a)"

text \<open>Optional filters apply when they are given and not empty.\<close>

definition matches_opt :: "string option \<Rightarrow> string \<Rightarrow> bool" where
  "matches_opt f v \<longleftrightarrow> (case f of None \<Rightarrow> True | Some s \<Rightarrow> s = [] \<or> s = v)"

definition list_bulk_actions ::
  "db \<Rightarrow> uuid option \<Rightarrow> string option \<Rightarrow> string option \<Rightarrow> string option \<Rightarrow> nat \<Rightarrow> nat \<Rightarrow> bulk_action list \<times> nat" where
  "list_bulk_actions d account_id status entity_type action_type limit offset =
     (let hits = filter (\<lambda>a.
            (case account_id of None \<Rightarrow> True | Some acc \<Rightarrow> ba_account_id a = acc) \<and>
            matches_opt status (action_status_value (ba_status a)) \<and>
            matches_opt entity_type (ba_entity_type a) \<and>
            matches_opt action_type (ba_action_type a)) (db_actions d)
      in (take limit (drop offset (sort_key (\<lambda>a. - ba_created_at a) hits)), length hits))"

text \<open>The grouped scan of \<open>get_stats\<close>: one count per status and reason code, in dicts keyed by
  the reason.\<close>

definition log_groups :: "db \<Rightarrow> uuid \<Rightarrow> (log_status \<times> log_reason option) list" where
  "log_groups d action_id =
     fromkeys (map (\<lambda>l. (bl_status l, bl_reason_code l))
       (filter (\<lambda>l. bl_status l \<in> set [L_FAILED, L_SKIPPED]) (logs_of d action_id)))"

definition group_count :: "db \<Rightarrow> uuid \<Rightarrow> log_status \<times> log_reason option \<Rightarrow> nat" where
  "group_count d action_id g =
     length (filter (\<lambda>l. (bl_status l, bl_reason_code l) = g) (logs_of d action_id))"

definition reason_key :: "log_reason option \<Rightarrow> string" where
  "reason_key r = (case r of None \<Rightarrow> ''unspecified'' | Some c \<Rightarrow> log_reason_value c)"

definition breakdown :: "db \<Rightarrow> uuid \<Rightarrow> log_status \<Rightarrow> (string \<times> nat) list" where
  "breakdown d action_id status =
     fold (\<lambda>g acc. dict_set (reason_key (snd g)) (group_count d action_id g) acc)
       (filter (\<lambda>g. fst g = status) (log_groups d action_id)) []"

record stats =
  st_id :: uuid
  st_status :: string
  st_entity_type :: string
  st_action_type :: string
  st_total_entities :: nat
  st_processed_count :: nat
  st_success_count :: nat
  st_failure_count :: nat
  st_skipped_count :: nat
  st_pending_count :: nat
  st_total_batches :: nat
  st_completed_batches :: nat
  st_progress_percent :: rat
  st_started_at :: "time option"
  st_finished_at :: "time option"
  st_duration_seconds :: "rat option"
  st_entities_per_minute :: "rat option"
  st_failure_breakdown :: "(string \<times> nat) list"
  st_skip_breakdown :: "(string \<times> nat) list"

text \<open>A finished action with nothing to do is at 100 percent. The same rule is in
  \<open>BulkActionResponse.from_model\<close>.\<close>

definition response_percent :: "bulk_action \<Rightarrow> rat" where
  "response_percent a =
     (if ba_total_entities a = 0 \<and> ba_status a \<in> {COMPLETED, COMPLETED_WITH_ERRORS} then 100
      else progress_percent (ba_processed_count a) (ba_total_entities a))"

text \<open>Seconds between start and end (or now), never negative, and the throughput over them.\<close>

definition duration_of :: "bulk_action \<Rightarrow> time \<Rightarrow> rat option" where
  "duration_of a now =
     map_option (\<lambda>s. max (of_int ((case ba_finished_at a of None \<Rightarrow> now | Some f \<Rightarrow> f) - s) / 1000000) 0)
       (ba_started_at a)"

definition throughput_of :: "bulk_action \<Rightarrow> rat option \<Rightarrow> rat option" where
  "throughput_of a duration =
     (case duration of
        None \<Rightarrow> None
      | Some s \<Rightarrow>
          if 0 < s \<and> ba_processed_count a \<noteq> 0
          then Some (of_int (round_half_even (of_nat (ba_processed_count a) / s * 60 * 100)) / 100)
          else None)"

definition get_stats :: "db \<Rightarrow> uuid \<Rightarrow> time \<Rightarrow> stats result" where
  "get_stats d action_id now =
     rbind (get_bulk_action d action_id) (\<lambda>a.
       Inr \<lparr> st_id = ba_id a, st_status = action_status_value (ba_status a),
         st_entity_type = ba_entity_type a, st_action_type = ba_action_type a,
         st_total_entities = ba_total_entities a, st_processed_count = ba_processed_count a,
         st_success_count = ba_success_count a, st_failure_count = ba_failure_count a,
         st_skipped_count = ba_skipped_count a,
         st_pending_count = ba_total_entities a - ba_processed_count a,
         st_total_batches = ba_total_batches a, st_completed_batches = ba_completed_batches a,
         st_progress_percent = response_percent a,
         st_started_at = ba_started_at a, st_finished_at = ba_finished_at a,
         st_duration_seconds = map_option (\<lambda>s. of_int (round_half_even (s * 1000)) / 1000) (duration_of a now),
         st_entities_per_minute = throughput_of a (duration_of a now),
         st_failure_breakdown = breakdown d action_id L_FAILED,
         st_skip_breakdown = breakdown d action_id L_SKIPPED \<rparr>)"

record log_page =
  lp_items :: "log_row list"
  lp_next_cursor :: "nat option"
  lp_has_more :: bool

definition log_matches ::
  "log_status option \<Rightarrow> string option \<Rightarrow> uuid option \<Rightarrow> log_row \<Rightarrow> bool" where
  "log_matches status reason_code entity_id l \<longleftrightarrow>
     (case status of None \<Rightarrow> True | Some s \<Rightarrow> bl_status l = s) \<and>
     (case reason_code of
        None \<Rightarrow> True
      | Some r \<Rightarrow> r = [] \<or> (case bl_reason_code l of None \<Rightarrow> False | Some c \<Rightarrow> log_reason_value c = r)) \<and>
     (case entity_id of None \<Rightarrow> True | Some e \<Rightarrow> bl_entity_id l = Some e)"

definition log_page_of :: "nat option \<Rightarrow> nat \<Rightarrow> log_row list \<Rightarrow> log_page" where
  "log_page_of cursor limit hits =
     (let rows = take (limit + 1) (sort_key bl_id
            (filter (\<lambda>l. case cursor of None \<Rightarrow> True | Some c \<Rightarrow> c < bl_id l) hits));
          page = take limit rows
      in \<lparr> lp_items = page,
           lp_next_cursor = (if page \<noteq> [] \<and> limit < length rows then Some (bl_id (last page)) else None),
           lp_has_more = limit < length rows \<rparr>)"

definition list_logs ::
  "db \<Rightarrow> uuid \<Rightarrow> log_status option \<Rightarrow> string option \<Rightarrow> uuid option \<Rightarrow> nat option \<Rightarrow> nat \<Rightarrow> log_page result" where
  "list_logs d action_id status reason_code entity_id cursor limit =
     rbind (get_bulk_action d action_id) (\<lambda>_.
       Inr (log_page_of cursor limit (filter (log_matches status reason_code entity_id) (logs_of d action_id))))"

definition list_batches :: "db \<Rightarrow> uuid \<Rightarrow> nat \<Rightarrow> nat \<Rightarrow> batch_row list result" where
  "list_batches d action_id limit offset =
     rbind (get_bulk_action d action_id) (\<lambda>_.
       Inr (take limit (drop offset
         (sort_key bb_batch_index (filter (\<lambda>b. bb_bulk_action_id b = action_id) (db_batches d))))))"

definition cancel_bulk_action :: "uuid \<Rightarrow> time \<Rightarrow> db \<Rightarrow> db \<times> bulk_action result" where
  "cancel_bulk_action action_id now = session_scope (\<lambda>d.
     (case get_bulk_action d action_id of
        Inl e \<Rightarrow> (d, Inl e)
      | Inr action \<Rightarrow>
          if \<not> is_cancellable (ba_status action) then (d, Inl (ConflictError ''already finished''))
          else
            (let open_row = (\<lambda>a. ba_id a = action_id \<and> action_status_value (ba_status a) \<notin> set terminal_values);
                 d' = update_actions open_row (\<lambda>a. a\<lparr> ba_status := CANCELLED, ba_finished_at := Some now \<rparr>) d
             in (d', case filter open_row (db_actions d) of
                       [] \<Rightarrow> Inl (ConflictError ''completed before it could be cancelled'')
                     | _ \<Rightarrow> get_bulk_action d' action_id))))"

section \<open>Registry, accounts and entities\<close>

definition supported_combinations :: "entity_registry \<Rightarrow> action_registry \<Rightarrow> (string \<times> string) list" where
  "supported_combinations entities actions =
     concat (map (\<lambda>(aname, h). map (\<lambda>ename. (ename, aname)) (filter (supports h) (sort (map fst entities))))
       (sort_key fst actions))"

definition create_account :: "uuid \<Rightarrow> string \<Rightarrow> int \<Rightarrow> time \<Rightarrow> db \<Rightarrow> account \<times> db" where
  "create_account new_id name rate_limit now d =
     (let a = \<lparr> acc_id = new_id, acc_name = name, acc_rate_limit_per_minute = rate_limit, acc_created_at = now \<rparr>
      in (a, d\<lparr> db_accounts := db_accounts d @ [a] \<rparr>))"

definition list_accounts :: "db \<Rightarrow> nat \<Rightarrow> account list" where
  "list_accounts d limit = take limit (sort_key (\<lambda>a. - acc_created_at a) (db_accounts d))"

definition update_account :: "uuid \<Rightarrow> int \<Rightarrow> db \<Rightarrow> db \<times> account result" where
  "update_account account_id rate_limit d =
     (case get_account d account_id of
        Inl e \<Rightarrow> (d, Inl e)
      | Inr a \<Rightarrow>
          (d\<lparr> db_accounts := upd_where (\<lambda>x. acc_id x = account_id)
               (\<lambda>x. x\<lparr> acc_rate_limit_per_minute := rate_limit \<rparr>) (db_accounts d) \<rparr>,
           Inr (a\<lparr> acc_rate_limit_per_minute := rate_limit \<rparr>)))"

record entity_page =
  ep_items :: "pydict list"
  ep_count :: nat
  ep_has_more :: bool

definition show_value :: "pyval \<Rightarrow> pyval" where
  "show_value v = (case v of PUuid u \<Rightarrow> PStr (uuid_str u) | _ \<Rightarrow> v)"

definition entity_listed :: "descriptor \<Rightarrow> uuid option \<Rightarrow> string option \<Rightarrow> bool \<Rightarrow> crm_row \<Rightarrow> bool" where
  "entity_listed ent account_id status include_deleted r \<longleftrightarrow>
     (case account_id of None \<Rightarrow> True | Some acc \<Rightarrow> row_account_id r = acc) \<and>
     (case status of
        None \<Rightarrow> True
      | Some s \<Rightarrow> s = [] \<or> ''status'' \<notin> set (column_names ent) \<or> row_get r ''status'' = PStr s) \<and>
     (case ent_soft_delete_column ent of
        None \<Rightarrow> True
      | Some c \<Rightarrow> c = [] \<or> include_deleted \<or> row_get r c = PNone)"

definition list_entities ::
  "env \<Rightarrow> db \<Rightarrow> string \<Rightarrow> uuid option \<Rightarrow> string option \<Rightarrow> bool \<Rightarrow> nat \<Rightarrow> nat \<Rightarrow> entity_page result" where
  "list_entities E d entity_type account_id status include_deleted limit offset =
     rbind (get_entity (e_entities E) entity_type) (\<lambda>ent.
     rbind (rmap (column ent) (readable_columns ent)) (\<lambda>_.
       let hits = filter (entity_listed ent account_id status include_deleted) (db_crm d (ent_table ent));
           rows = take limit (drop offset (sort_key row_id hits))
       in Inr \<lparr> ep_items = map (\<lambda>r. map (\<lambda>n. (n, show_value (row_get r n))) (readable_columns ent)) rows,
            ep_count = length hits, ep_has_more = offset + length rows < length hits \<rparr>))"

section \<open>Properties of the write path\<close>

text \<open>
  (C21) A submission that is refused leaves nothing behind: no row and no job. A replayed
  idempotency key answers with the original action and also costs nothing, not even a token of
  the submission limit. A submission that is accepted adds exactly one action and hands exactly
  one plan job to the queue, deferred to the scheduled time if there is one.
\<close>

theorem submission_outcomes:
  "(case sr_reply (create_bulk_action E new_id ck rq R d) of
      Inl e \<Rightarrow> sr_db (create_bulk_action E new_id ck rq R d) = d \<and> sr_calls (create_bulk_action E new_id ck rq R d) = []
    | Inr (a, False) \<Rightarrow> find_replay d rq = Some a \<and>
        create_bulk_action E new_id ck rq R d = \<lparr> sr_redis = R, sr_db = d, sr_calls = [], sr_reply = Inr (a, False) \<rparr>
    | Inr (a, True) \<Rightarrow> find_replay d rq = None \<and> ba_id a = new_id \<and> ba_account_id a = rq_account_id rq \<and>
        ba_status a = (if rq_scheduled_at rq = None then QUEUED else SCHEDULED) \<and>
        sr_db (create_bulk_action E new_id ck rq R d) = d\<lparr> db_actions := db_actions d @ [a] \<rparr> \<and>
        sr_calls (create_bulk_action E new_id ck rq R d) = [plan_call new_id (rq_scheduled_at rq)])"
  by (auto simp: create_bulk_action_def new_action_def insert_action_def Let_def
      split: sum.splits option.splits prod.splits if_splits bool.splits)

lemma accepted_submissionE:
  assumes "sr_reply (create_bulk_action E new_id ck rq R d) = Inr (a, True)"
  obtains account ent h config where "load_account d (rq_account_id rq) = Some account"
    and "validate_request E (ck_now ck) rq = Inr (ent, h, config)"
    and "a = new_action E new_id (ck_now ck) rq account ent h config"
proof -
  from assms obtain account where acc: "get_account d (rq_account_id rq) = Inr account"
    by (cases "get_account d (rq_account_id rq)") (simp_all add: create_bulk_action_def)
  from assms acc have rep: "find_replay d rq = None"
    by (cases "find_replay d rq") (simp_all add: create_bulk_action_def)
  from assms acc rep obtain ent h config where v: "validate_request E (ck_now ck) rq = Inr (ent, h, config)"
    by (cases "validate_request E (ck_now ck) rq") (auto simp: create_bulk_action_def)
  from assms acc rep v have "a = new_action E new_id (ck_now ck) rq account ent h config"
    by (auto simp: create_bulk_action_def Let_def split: sum.splits prod.splits if_splits)
  moreover from acc have "load_account d (rq_account_id rq) = Some account"
    by (auto simp: get_account_def split: option.splits)
  ultimately show ?thesis using v that by blast
qed

lemma validate_requestE:
  assumes "validate_request E now rq = Inr (ent, h, config)"
  shows "get_entity (e_entities E) (rq_entity_type rq) = Inr ent"
    and "get_action (e_actions E) (rq_action_type rq) (Some (rq_entity_type rq)) = Inr h"
    and "h_validate_config h (e_pydantic E) ent (rq_payload rq) = Inr config"
  using assms by (auto simp: validate_request_def rbind_Inr split: option.splits if_splits)

lemma shipped_entity_name: "get_entity shipped_entities n = Inr ent \<Longrightarrow> ent_name ent = n"
  by (auto simp: get_entity_def shipped_entities_def contact_entity_def company_entity_def
      split: option.splits if_splits)

lemma shipped_action_name: "get_action shipped_actions t n = Inr h \<Longrightarrow> h_action_type h = t"
  by (auto simp: get_action_def shipped_actions_def update_handler_def delete_handler_def
      split: option.splits if_splits)

lemma parse_target_set:
  "parse_update_config P p = Inr (BulkUpdateConfig c) \<Longrightarrow> require_a_target_set (uc_filter c) (uc_entity_ids c) = Inr ()"
  "parse_delete_config P p = Inr (BulkDeleteConfig c') \<Longrightarrow> require_a_target_set (dc_filter c') (dc_entity_ids c') = Inr ()"
  by (auto simp: parse_update_config_def parse_delete_config_def rbind_Inr)

text \<open>What a handler's validation passes has a target set and belongs to that handler.\<close>

lemma validated_config:
  assumes "get_action shipped_actions t n = Inr h" and "h_validate_config h P ent payload = Inr c"
  shows "has_target_set c" and "h_config_model h = parser_of c"
    and "validate_filter ent (selection_filters c) = Inr ()"
proof -
  have "has_target_set c \<and> h_config_model h = parser_of c \<and> validate_filter ent (selection_filters c) = Inr ()"
    using shipped_action_cases [OF assms(1)]
  proof
    assume h: "h = update_handler"
    with assms(2) obtain u where u: "parse_update_config P payload = Inr (BulkUpdateConfig u)"
      by (auto simp: update_handler_def update_validate_config_def split: sum.splits config.splits)
    with h assms(2) have v: "rbind (validate_updates P ent (uc_updates u)) (\<lambda>vals.
        rbind (validate_filter ent (uc_filter u)) (\<lambda>_. (case uc_deduplicate_by u of
            None \<Rightarrow> Inr (BulkUpdateConfig (u\<lparr> uc_updates := vals \<rparr>))
          | Some f \<Rightarrow> if f \<noteq> [] \<and> f \<notin> set (map fst (ent_updatable_fields ent)) then Inl (ValidationError (CannotDeduplicateBy f))
              else if f \<noteq> [] \<and> f \<notin> set (ent_dedup_fields ent) then Inl (ValidationError (NotADedupKey f))
              else Inr (BulkUpdateConfig (u\<lparr> uc_updates := vals \<rparr>))))) = Inr c"
      by (simp add: update_handler_def update_validate_config_def)
    obtain vals where "c = BulkUpdateConfig (u\<lparr> uc_updates := vals \<rparr>)"
      and "validate_filter ent (uc_filter u) = Inr ()"
    proof (cases "validate_updates P ent (uc_updates u)")
      case (Inr vals)
      with v that [of vals] show thesis
        by (cases "validate_filter ent (uc_filter u)"; cases "uc_deduplicate_by u") (simp_all split: if_splits)
    qed (use v in simp)
    then show ?thesis using parse_target_set(1) [OF u] h by (simp add: update_handler_def)
  next
    assume h: "h = delete_handler"
    with assms(2) obtain u where u: "parse_delete_config P payload = Inr (BulkDeleteConfig u)"
      by (auto simp: delete_handler_def delete_validate_config_def split: sum.splits config.splits)
    with h assms(2) have "c = BulkDeleteConfig u" and "validate_filter ent (dc_filter u) = Inr ()"
      by (auto simp: delete_handler_def delete_validate_config_def rbind_Inr split: option.splits if_splits)
    then show ?thesis using parse_target_set(2) [OF u] h by (simp add: delete_handler_def)
  qed
  then show "has_target_set c" and "h_config_model h = parser_of c"
    and "validate_filter ent (selection_filters c) = Inr ()" by auto
qed

definition faithful_pydantic :: "pydantic \<Rightarrow> bool" where
  "faithful_pydantic P \<longleftrightarrow> (\<forall>u. pd_uuid P (pd_dump_uuid P u) = Some u) \<and> (\<forall>s. pd_str P (PStr s) = Some s) \<and>
     (\<forall>b. pd_bool P (PBool b) = Some b)"

text \<open>
  (C20) What was accepted is what will run: the stored action resolves, in every worker, to the
  entity, the handler and exactly the validated configuration of the submission, whose filter has
  been checked, and its batch size is at least one and within the account's limit. Worker and API
  need only agree on a pydantic that reads back the UUIDs, strings and booleans it dumps.
\<close>

theorem accepted_submission_resolves:
  assumes "sr_reply (create_bulk_action E new_id ck rq R d) = Inr (a, True)"
    and "e_entities E = shipped_entities" and "e_actions E = shipped_actions"
    and "faithful_pydantic (e_pydantic E)"
    and "\<forall>acc \<in> set (db_accounts d). 1 \<le> acc_rate_limit_per_minute acc"
  shows "\<exists>ent h config account. validate_request E (ck_now ck) rq = Inr (ent, h, config) \<and>
    resolve E a = Inr (ent, h, config) \<and> validate_filter ent (selection_filters config) = Inr () \<and>
    load_account d (ba_account_id a) = Some account \<and>
    1 \<le> ba_batch_size a \<and> int (ba_batch_size a) \<le> acc_rate_limit_per_minute account"
proof -
  from assms(1) obtain account ent h config where acc: "load_account d (rq_account_id rq) = Some account"
    and v: "validate_request E (ck_now ck) rq = Inr (ent, h, config)"
    and a: "a = new_action E new_id (ck_now ck) rq account ent h config"
    by (rule accepted_submissionE)
  note V = validate_requestE [OF v, unfolded assms(2,3)]
  have "h_config_model h (e_pydantic E) (model_dump (e_pydantic E) config) = Inr config"
    unfolding validated_config(2) [OF V(2,3)]
    by (rule parse_model_dump) (use assms(4) validated_config(1) [OF V(2,3)] in \<open>auto simp: faithful_pydantic_def\<close>)
  then have "resolve E a = Inr (ent, h, config)"
    using V by (simp add: resolve_def a new_action_def assms(2,3) shipped_entity_name [OF V(1)]
        shipped_action_name [OF V(2)])
  moreover have "1 \<le> acc_rate_limit_per_minute account"
    using assms(5) find_Some_mem [OF acc [unfolded load_account_def]] by blast
  then have "1 \<le> effective_batch_size (e_settings E) (rq_batch_size rq) (acc_rate_limit_per_minute account) \<and>
      effective_batch_size (e_settings E) (rq_batch_size rq) (acc_rate_limit_per_minute account) \<le> acc_rate_limit_per_minute account"
    by (simp add: effective_batch_size_def Let_def)
  then have "1 \<le> ba_batch_size a \<and> int (ba_batch_size a) \<le> acc_rate_limit_per_minute account"
    by (auto simp: a new_action_def)
  moreover have "ba_account_id a = rq_account_id rq" by (simp add: a new_action_def)
  ultimately show ?thesis
    using v acc validated_config(3) [OF V(2,3)] by auto
qed

definition example_request :: "string option \<Rightarrow> bulk_action_create" where
  "example_request key = \<lparr> rq_account_id = 7, rq_entity_type = ''contact'', rq_action_type = ''delete'',
     rq_payload = [(''filter'', PDict [])], rq_batch_size = None, rq_scheduled_at = None,
     rq_idempotency_key = key \<rparr>"

definition example_submit :: "string option \<Rightarrow> uuid \<Rightarrow> redis \<Rightarrow> db \<Rightarrow> submit_result" where
  "example_submit key new_id = create_bulk_action example_env new_id
     \<lparr> ck_now = 9, ck_now_ms = 0, ck_redis_ms = 0 \<rparr> (example_request key)"

lemma strict_faithful: "faithful_pydantic (e_pydantic example_env)"
  by (simp add: faithful_pydantic_def example_env_def strict_pydantic_def)

lemma example_validate:
  "\<exists>config. validate_request example_env now (example_request key) = Inr (contact_entity, delete_handler, config)"
  by (simp add: validate_request_def example_request_def example_env_def get_entity_def shipped_entities_def
      get_action_def shipped_actions_def supports_def delete_handler_def delete_validate_config_def
      parse_delete_config_def extra_forbid_def field_dict_opt_def field_uuids_opt_def field_bool_def
      field_str_opt_def require_a_target_set_def validate_filter_def contact_entity_def)

lemma example_token:
  "\<exists>R' dec. consume_submission (e_settings example_env) 7 0 0 (\<lambda>_. None) = (R', Inr dec) \<and> rd_allowed dec"
  by (simp add: consume_submission_def consume_def token_bucket_script_def hmget_def Let_def example_env_def)

lemma example_accepted:
  "\<exists>a. sr_reply (example_submit None 500 (\<lambda>_. None) example_db) = Inr (a, True)"
proof -
  obtain config where v: "validate_request example_env 9 (example_request None) = Inr (contact_entity, delete_handler, config)"
    using example_validate by blast
  obtain R' dec where t: "consume_submission (e_settings example_env) 7 0 0 (\<lambda>_. None) = (R', Inr dec)" "rd_allowed dec"
    using example_token by blast
  have "get_account example_db 7 = Inr (hd (db_accounts example_db))" and "rq_account_id (example_request None) = 7"
    and "find_replay example_db (example_request None) = None"
    by (simp_all add: get_account_def load_account_def example_db_def example_request_def find_replay_def)
  with v t show ?thesis
    by (simp add: example_submit_def create_bulk_action_def insert_action_def new_action_def Let_def example_db_def)
qed

theorem accepted_submission_resolves_witness:
  "\<exists>a ent h config. sr_reply (example_submit None 500 (\<lambda>_. None) example_db) = Inr (a, True) \<and>
     resolve example_env a = Inr (ent, h, config)"
proof -
  obtain a where a: "sr_reply (example_submit None 500 (\<lambda>_. None) example_db) = Inr (a, True)"
    using example_accepted by blast
  have "e_entities example_env = shipped_entities" "e_actions example_env = shipped_actions"
    and "\<forall>acc \<in> set (db_accounts example_db). 1 \<le> acc_rate_limit_per_minute acc"
    by (simp_all add: example_env_def example_db_def)
  with a accepted_submission_resolves [OF a [unfolded example_submit_def] _ _ strict_faithful] show ?thesis
    by blast
qed

text \<open>
  The replay check skips an empty idempotency key, but the unique constraint does not: the
  second submission of an account with the key \<open>""\<close> that passes validation and the limiter fails
  with a constraint violation instead of being accepted or answered.
\<close>

theorem empty_idempotency_key_conflicts:
  assumes "rq_idempotency_key rq = Some []" and "load_account d (rq_account_id rq) = Some account"
    and "b \<in> set (db_actions d)" and "ba_account_id b = rq_account_id rq" and "ba_idempotency_key b = Some []"
    and "validate_request E (ck_now ck) rq = Inr (ent, h, config)"
    and "consume_submission (e_settings E) (rq_account_id rq) (ck_now_ms ck) (ck_redis_ms ck) R = (R', Inr decision)"
    and "rd_allowed decision" and "new_id \<notin> ba_id ` set (db_actions d)"
  shows "sr_reply (create_bulk_action E new_id ck rq R d) = Inl (DriverError ''uq_bulk_actions_idempotency'') \<and>
    status_code (DriverError ''uq_bulk_actions_idempotency'') = 500"
proof -
  have "list_ex (\<lambda>b. ba_account_id b = rq_account_id rq \<and> ba_idempotency_key b = Some []) (db_actions d)"
    using assms(3-5) by (auto simp: list_ex_iff)
  with assms(1,2,6-9) show ?thesis
    by (simp add: create_bulk_action_def get_account_def find_replay_def insert_action_def new_action_def Let_def)
qed

theorem empty_idempotency_key_conflicts_witness:
  "sr_reply (example_submit (Some []) 501 (\<lambda>_. None)
     (example_db\<lparr> db_actions := [(example_action QUEUED example_age_update)\<lparr> ba_idempotency_key := Some [] \<rparr>] \<rparr>)) =
   Inl (DriverError ''uq_bulk_actions_idempotency'')"
proof -
  let ?b = "(example_action QUEUED example_age_update)\<lparr> ba_idempotency_key := Some [] \<rparr>"
  let ?d = "example_db\<lparr> db_actions := [?b] \<rparr>"
  let ?rq = "example_request (Some [])"
  let ?ck = "\<lparr> ck_now = 9, ck_now_ms = 0, ck_redis_ms = 0 \<rparr>"
  obtain config where v: "validate_request example_env (ck_now ?ck) ?rq = Inr (contact_entity, delete_handler, config)"
    using example_validate by blast
  have r: "rq_account_id ?rq = 7" "rq_idempotency_key ?rq = Some []" by (simp_all add: example_request_def)
  obtain R' dec where t: "consume_submission (e_settings example_env) (rq_account_id ?rq) (ck_now_ms ?ck) (ck_redis_ms ?ck)
      (\<lambda>_. None) = (R', Inr dec)" "rd_allowed dec"
    using example_token by (auto simp: r)
  have "load_account ?d (rq_account_id ?rq) = Some (hd (db_accounts example_db))"
    by (simp add: r load_account_def example_db_def)
  moreover have "?b \<in> set (db_actions ?d)" "ba_account_id ?b = rq_account_id ?rq" "ba_idempotency_key ?b = Some []"
    by (simp_all add: r example_action_def)
  moreover have "501 \<notin> ba_id ` set (db_actions ?d)" by (simp add: example_action_def)
  ultimately show ?thesis
    using empty_idempotency_key_conflicts [OF r(2) _ _ _ _ v t] unfolding example_submit_def by blast
qed

section \<open>Properties of the read models\<close>

text \<open>Following \<open>next_cursor\<close> until there is no more, with fuel for the number of requests.\<close>

fun read_logs :: "nat \<Rightarrow> nat option \<Rightarrow> nat \<Rightarrow> log_row list \<Rightarrow> log_row list option" where
  "read_logs 0 cursor limit hits = None"
| "read_logs (Suc fuel) cursor limit hits =
     (let p = log_page_of cursor limit hits in
      case lp_next_cursor p of
        None \<Rightarrow> Some (lp_items p)
      | Some c \<Rightarrow> map_option (\<lambda>rest. lp_items p @ rest) (read_logs fuel (Some c) limit hits))"

definition cursor_after :: "log_row list \<Rightarrow> nat option" where
  "cursor_after pre = (if pre = [] then None else Some (bl_id (last pre)))"

lemma sorted_wrt_last: "sorted_wrt (<) (map bl_id xs) \<Longrightarrow> x \<in> set xs \<Longrightarrow> bl_id x \<le> bl_id (last xs)"
  by (induction xs) (auto simp: less_imp_le)

lemma filter_after_cursor:
  assumes "sorted_wrt (<) (map bl_id (pre @ rest))"
  shows "filter (\<lambda>l. case cursor_after pre of None \<Rightarrow> True | Some c \<Rightarrow> c < bl_id l) (pre @ rest) = rest"
proof (cases "pre = []")
  case False
  have "filter (\<lambda>l. bl_id (last pre) < bl_id l) pre = []"
    using assms sorted_wrt_last [of pre] by (fastforce simp: filter_empty_conv sorted_wrt_append not_less)
  moreover have "filter (\<lambda>l. bl_id (last pre) < bl_id l) rest = rest"
    using assms last_in_set [OF False] by (auto simp: filter_id_conv sorted_wrt_append)
  ultimately show ?thesis using False by (simp add: cursor_after_def)
qed (simp add: cursor_after_def)

lemma log_page_slice:
  assumes "sorted_wrt (<) (map bl_id (pre @ rest))" and "0 < limit"
  shows "log_page_of (cursor_after pre) limit (pre @ rest) =
    \<lparr> lp_items = take limit rest,
      lp_next_cursor = (if limit < length rest then cursor_after (pre @ take limit rest) else None),
      lp_has_more = limit < length rest \<rparr>"
proof -
  have "sorted (map bl_id rest)"
    using assms(1) by (simp add: sorted_wrt_append) (metis strict_sorted_imp_sorted)
  then have "sort_key bl_id rest = rest" by (rule sort_key_id_if_sorted)
  moreover have "take limit rest \<noteq> []" if "limit < length rest" using that assms(2) by (cases rest) auto
  ultimately show ?thesis
    using assms(2) unfolding log_page_of_def filter_after_cursor [OF assms(1)]
    by (auto simp: Let_def cursor_after_def min_def)
qed

lemma read_logs_slice:
  assumes "sorted_wrt (<) (map bl_id (pre @ rest))" and "0 < limit" and "length rest < fuel"
  shows "read_logs fuel (cursor_after pre) limit (pre @ rest) = Some rest"
  using assms(1,3)
proof (induction fuel arbitrary: pre rest)
  case (Suc fuel)
  note page = log_page_slice [OF Suc.prems(1) assms(2)]
  show ?case
  proof (cases "limit < length rest")
    case True
    have "read_logs fuel (cursor_after (pre @ take limit rest)) limit ((pre @ take limit rest) @ drop limit rest) =
        Some (drop limit rest)"
      using Suc.prems assms(2) True by (intro Suc.IH) auto
    moreover have "cursor_after (pre @ take limit rest) \<noteq> None"
      using True assms(2) by (cases rest) (auto simp: cursor_after_def)
    ultimately show ?thesis using True by (auto simp: page)
  next
    case False
    then show ?thesis by (simp add: page)
  qed
qed simp

text \<open>
  (C25) Reading the log page by page, following the cursor, returns every matching row exactly
  once and in order, with any page size and any filter; a number of requests one more than the
  number of rows always suffices.
\<close>

theorem log_pages_complete:
  assumes "sorted_wrt (<) (map bl_id (db_logs d))" and "0 < limit"
    and "hits = filter (log_matches status reason entity) (logs_of d action_id)" and "length hits < fuel"
    and "load_action d action_id = Some a"
  shows "read_logs fuel None limit hits = Some hits \<and>
    list_logs d action_id status reason entity cursor limit = Inr (log_page_of cursor limit hits)"
proof -
  have "sorted_wrt (<) (map bl_id hits)"
    using assms(1) by (simp add: assms(3) logs_of_def sorted_wrt_map sorted_wrt_filter)
  then show ?thesis
    using read_logs_slice [of "[]" hits limit fuel] assms
    by (simp add: cursor_after_def list_logs_def get_bulk_action_def)
qed

definition logged_db :: db where
  "logged_db = write_outcomes 100 None 9
     [outcome_success 1 R_UPDATED [], outcome_failed (Some 2) R_ENTITY_NOT_FOUND ''gone'' [],
      outcome_failed (Some 3) R_ENTITY_NOT_FOUND ''gone'' []] running_db"

theorem log_pages_complete_witness:
  "read_logs 4 None 1 (filter (log_matches (Some L_FAILED) None None) (logs_of logged_db 100)) =
     Some (filter (log_matches (Some L_FAILED) None None) (logs_of logged_db 100))"
proof -
  have "sorted_wrt (<) (map bl_id (db_logs logged_db))"
    and "length (filter (log_matches (Some L_FAILED) None None) (logs_of logged_db 100)) < 4"
    and "load_action logged_db 100 = Some (example_action PROCESSING example_age_update)"
    by (simp_all add: logged_db_def write_outcomes_def next_log_id_def running_db_def example_db_def
        log_of_outcome_def logs_of_def log_matches_def load_action_def example_action_def)
  from log_pages_complete [OF this(1) _ refl this(2,3)] show ?thesis by simp
qed

text \<open>The reasons of one status are distinct keys, so the dict holds every group.\<close>

lemma reason_key_inj: "reason_key r = reason_key r' \<Longrightarrow> r = r'"
proof -
  have v: "log_reason_value c \<noteq> ''unspecified''" for c by (cases c) simp_all
  have "log_reason_value c = log_reason_value c' \<Longrightarrow> c = c'" for c c' by (cases c; cases c') simp_all
  with v show "reason_key r = reason_key r' \<Longrightarrow> r = r'"
    by (auto simp: reason_key_def split: option.splits)
qed

lemma dict_set_new: "k \<notin> fst ` set xs \<Longrightarrow> dict_set k v xs = xs @ [(k, v)]"
  by (induction xs) auto

lemma fold_dict_set:
  assumes "distinct (map f gs)" and "f ` set gs \<inter> fst ` set acc = {}"
  shows "fold (\<lambda>g acc. dict_set (f g) (v g) acc) gs acc = acc @ map (\<lambda>g. (f g, v g)) gs"
  using assms
proof (induction gs arbitrary: acc)
  case (Cons g gs)
  then have "dict_set (f g) (v g) acc = acc @ [(f g, v g)]" by (intro dict_set_new) auto
  with Cons.prems Cons.IH [of "acc @ [(f g, v g)]"] show ?case by auto
qed simp

lemma sum_over_groups:
  "set (map f xs) \<subseteq> set gs \<Longrightarrow> distinct gs \<Longrightarrow>
   sum_list (map (\<lambda>g. length (filter (\<lambda>x. f x = g) xs)) gs) = length xs"
proof (induction xs)
  case (Cons x xs)
  have "sum_list (map (\<lambda>g. length (filter (\<lambda>y. f y = g) (x # xs))) gs) =
      sum_list (map (\<lambda>g. if f x = g then 1 else 0) gs) + sum_list (map (\<lambda>g. length (filter (\<lambda>y. f y = g) xs)) gs)"
    unfolding sum_list_addf [symmetric] by (intro arg_cong [of _ _ sum_list] map_cong) auto
  moreover have "sum_list (map (\<lambda>g. if f x = g then 1 else 0) gs) = (1 :: nat)"
    using Cons.prems by (simp add: sum_list_distinct_conv_sum_set)
  ultimately show ?case using Cons by simp
qed simp

text \<open>
  The breakdowns of \<open>/stats\<close> are complete: the counts of the failure breakdown add up to the
  number of failed log rows of the action and those of the skip breakdown to the skipped ones,
  with one entry per reason code.
\<close>

theorem stats_breakdown_complete:
  "sum_list (map snd (breakdown d action_id L_FAILED)) = count_logs d action_id L_FAILED \<and>
   sum_list (map snd (breakdown d action_id L_SKIPPED)) = count_logs d action_id L_SKIPPED \<and>
   distinct (map fst (breakdown d action_id L_FAILED)) \<and> distinct (map fst (breakdown d action_id L_SKIPPED))"
proof -
  have "sum_list (map snd (breakdown d action_id s)) = count_logs d action_id s \<and>
      distinct (map fst (breakdown d action_id s))" if s: "s \<in> {L_FAILED, L_SKIPPED}" for s
  proof -
    let ?gs = "filter (\<lambda>g. fst g = s) (log_groups d action_id)"
    let ?ls = "filter (\<lambda>l. bl_status l = s) (logs_of d action_id)"
    have dist: "distinct ?gs" by (simp add: log_groups_def)
    have inj: "inj_on (\<lambda>g. reason_key (snd g)) (set ?gs)"
      by (rule inj_onI) (auto dest: reason_key_inj simp: prod_eq_iff)
    have b: "breakdown d action_id s = map (\<lambda>g. (reason_key (snd g), group_count d action_id g)) ?gs"
      using fold_dict_set [of "\<lambda>g. reason_key (snd g)" ?gs "[]"] dist inj
      by (simp add: breakdown_def distinct_map)
    have gc: "group_count d action_id g = length (filter (\<lambda>l. (bl_status l, bl_reason_code l) = g) ?ls)"
      if "g \<in> set ?gs" for g
      using that by (auto simp: group_count_def intro!: arg_cong [of _ _ length] filter_cong)
    have "sum_list (map (group_count d action_id) ?gs) =
        sum_list (map (\<lambda>g. length (filter (\<lambda>l. (bl_status l, bl_reason_code l) = g) ?ls)) ?gs)"
      using gc by (intro arg_cong [of _ _ sum_list] map_cong) auto
    also have "\<dots> = length ?ls"
      using s dist by (intro sum_over_groups) (auto simp: log_groups_def)
    finally show ?thesis
      using dist inj by (simp add: b comp_def count_logs_def distinct_map)
  qed
  then show ?thesis by blast
qed

end
