(* ===== verification/Api.thy ===== *)
theory Api
  imports Service
begin

text \<open>
  The HTTP layer: response models (\<open>app/schemas/bulk_action.py\<close>), the routes of
  \<open>app/api/routes/\<close>, the self-description of the registries, the progress stream and the
  request middleware of \<open>app/main.py\<close>. A route returns its status, headers and body, or raises;
  an exception is answered by \<open>problem_response\<close>. FastAPI checks the bounds of query parameters
  before the route runs; they are the predicates \<open>*_query\<close> here.
\<close>

section \<open>Response models\<close>

record bulk_action_response =
  br_id :: uuid
  br_account_id :: uuid
  br_entity_type :: string
  br_action_type :: string
  br_status :: string
  br_configuration :: pydict
  br_batch_size :: nat
  br_total_entities :: nat
  br_processed_count :: nat
  br_success_count :: nat
  br_failure_count :: nat
  br_skipped_count :: nat
  br_total_batches :: nat
  br_completed_batches :: nat
  br_progress_percent :: rat
  br_error :: "string option"
  br_idempotency_key :: "string option"
  br_scheduled_at :: "time option"
  br_created_at :: time
  br_started_at :: "time option"
  br_finished_at :: "time option"

definition from_model :: "bulk_action \<Rightarrow> bulk_action_response" where
  "from_model a = \<lparr> br_id = ba_id a, br_account_id = ba_account_id a, br_entity_type = ba_entity_type a,
     br_action_type = ba_action_type a, br_status = action_status_value (ba_status a),
     br_configuration = ba_configuration a, br_batch_size = ba_batch_size a,
     br_total_entities = ba_total_entities a, br_processed_count = ba_processed_count a,
     br_success_count = ba_success_count a, br_failure_count = ba_failure_count a,
     br_skipped_count = ba_skipped_count a, br_total_batches = ba_total_batches a,
     br_completed_batches = ba_completed_batches a, br_progress_percent = response_percent a,
     br_error = ba_error a, br_idempotency_key = ba_idempotency_key a, br_scheduled_at = ba_scheduled_at a,
     br_created_at = ba_created_at a, br_started_at = ba_started_at a, br_finished_at = ba_finished_at a \<rparr>"

record log_item =
  li_id :: nat
  li_bulk_action_id :: uuid
  li_batch_id :: "uuid option"
  li_entity_id :: "uuid option"
  li_status :: string
  li_reason_code :: "string option"
  li_message :: "string option"
  li_details :: "pydict option"
  li_created_at :: time

definition log_item_of :: "log_row \<Rightarrow> log_item" where
  "log_item_of l = \<lparr> li_id = bl_id l, li_bulk_action_id = bl_bulk_action_id l, li_batch_id = bl_batch_id l,
     li_entity_id = bl_entity_id l, li_status = log_status_value (bl_status l),
     li_reason_code = map_option log_reason_value (bl_reason_code l), li_message = bl_message l,
     li_details = bl_details l, li_created_at = bl_created_at l \<rparr>"

record batch_item =
  bi_id :: uuid
  bi_batch_index :: nat
  bi_status :: string
  bi_entity_count :: nat
  bi_success_count :: nat
  bi_failure_count :: nat
  bi_skipped_count :: nat
  bi_attempts :: nat
  bi_error :: "string option"
  bi_started_at :: "time option"
  bi_finished_at :: "time option"

definition batch_item_of :: "batch_row \<Rightarrow> batch_item" where
  "batch_item_of b = \<lparr> bi_id = bb_id b, bi_batch_index = bb_batch_index b,
     bi_status = batch_status_value (bb_status b), bi_entity_count = bb_entity_count b,
     bi_success_count = bb_success_count b, bi_failure_count = bb_failure_count b,
     bi_skipped_count = bb_skipped_count b, bi_attempts = bb_attempts b, bi_error = bb_error b,
     bi_started_at = bb_started_at b, bi_finished_at = bb_finished_at b \<rparr>"

record 'a page =
  pg_items :: "'a list"
  pg_count :: nat
  pg_next_cursor :: "string option"
  pg_has_more :: bool

record 'a http =
  ht_status :: nat
  ht_headers :: "(string \<times> string) list"
  ht_body :: 'a

section \<open>Describing the registries\<close>

record field_description =
  fd_type :: string
  fd_nullable :: bool
  fd_filterable :: bool
  fd_description :: string

record entity_description =
  ed_name :: string
  ed_label :: string
  ed_table :: string
  ed_updatable_fields :: "(string \<times> field_description) list"
  ed_dedup_fields :: "string list"
  ed_supports_soft_delete :: bool

definition describe_entity :: "(string \<Rightarrow> string) \<Rightarrow> descriptor \<Rightarrow> entity_description" where
  "describe_entity title ent = \<lparr> ed_name = ent_name ent,
     ed_label = (if ent_label ent = [] then title (ent_name ent) else ent_label ent),
     ed_table = ent_table ent,
     ed_updatable_fields = map (\<lambda>(f, spec). (f, \<lparr> fd_type = type_name spec, fd_nullable = fs_nullable spec,
       fd_filterable = fs_filterable spec, fd_description = fs_description spec \<rparr>)) (ent_updatable_fields ent),
     ed_dedup_fields = sort (ent_dedup_fields ent),
     ed_supports_soft_delete = (ent_soft_delete_column ent \<noteq> None) \<rparr>"

text \<open>The JSON schema of a configuration model is pydantic's, hence a parameter.\<close>

record action_description =
  ad_action_type :: string
  ad_description :: string
  ad_supported_entities :: "string list option"
  ad_payload_schema :: pydict

definition describe_action :: "(string \<Rightarrow> pydict) \<Rightarrow> handler \<Rightarrow> action_description" where
  "describe_action json_schema h = \<lparr> ad_action_type = h_action_type h, ad_description = h_description h,
     ad_supported_entities = map_option sort (h_supported_entities h),
     ad_payload_schema = json_schema (h_class h) \<rparr>"

record snapshot =
  rs_entities :: "entity_description list"
  rs_actions :: "action_description list"
  rs_supported_combinations :: "(string \<times> string) list"

definition registry_snapshot ::
  "(string \<Rightarrow> string) \<Rightarrow> (string \<Rightarrow> pydict) \<Rightarrow> entity_registry \<Rightarrow> action_registry \<Rightarrow> snapshot" where
  "registry_snapshot title json_schema entities actions =
     \<lparr> rs_entities = map (describe_entity title \<circ> snd) entities,
       rs_actions = map (describe_action json_schema \<circ> snd) actions,
       rs_supported_combinations = supported_combinations entities actions \<rparr>"

section \<open>Bulk action routes\<close>

record create_result =
  cr_redis :: redis
  cr_db :: db
  cr_calls :: "enqueue_call list"
  cr_response :: "bulk_action_response http result"

text \<open>\<open>POST /bulk-actions\<close>: the body is validated by the schema, which also lowers the two names,
  before the route runs.\<close>

definition post_bulk_action :: "env \<Rightarrow> uuid \<Rightarrow> clock \<Rightarrow> bulk_action_create \<Rightarrow> redis \<Rightarrow> db \<Rightarrow> create_result" where
  "post_bulk_action E new_id ck body R d =
     (if \<not> schema_accepts body
      then \<lparr> cr_redis = R, cr_db = d, cr_calls = [], cr_response = Inl (ValidationError (InvalidPayload ''body'')) \<rparr>
      else
        (let r = create_bulk_action E new_id ck (lower_names body) R d
         in \<lparr> cr_redis = sr_redis r, cr_db = sr_db r, cr_calls = sr_calls r,
              cr_response = (case sr_reply r of
                Inl e \<Rightarrow> Inl e
              | Inr (action, created) \<Rightarrow>
                  Inr \<lparr> ht_status = (if created then 202 else 200),
                        ht_headers = [(''Location'', ''/bulk-actions/'' @ uuid_str (ba_id action))],
                        ht_body = from_model action \<rparr>) \<rparr>))"

definition list_query :: "nat \<Rightarrow> bool" where
  "list_query limit \<longleftrightarrow> 1 \<le> limit \<and> limit \<le> 200"

definition get_bulk_actions ::
  "db \<Rightarrow> uuid option \<Rightarrow> action_status option \<Rightarrow> string option \<Rightarrow> string option \<Rightarrow> nat \<Rightarrow> nat \<Rightarrow> bulk_action_response page result" where
  "get_bulk_actions d account_id status_filter entity_type action_type limit offset =
     (if \<not> list_query limit then Inl (ValidationError (InvalidPayload ''limit''))
      else let (items, tot) = list_bulk_actions d account_id (map_option action_status_value status_filter)
            entity_type action_type limit offset
      in Inr \<lparr> pg_items = map from_model items, pg_count = tot, pg_next_cursor = None,
           pg_has_more = offset + length items < tot \<rparr>)"

definition get_bulk_action_route :: "db \<Rightarrow> uuid \<Rightarrow> bulk_action_response result" where
  "get_bulk_action_route d action_id =
     (case get_bulk_action d action_id of Inl e \<Rightarrow> Inl e | Inr a \<Rightarrow> Inr (from_model a))"

definition get_stats_route :: "db \<Rightarrow> uuid \<Rightarrow> time \<Rightarrow> stats result" where
  "get_stats_route d action_id now = get_stats d action_id now"

definition logs_query :: "nat \<Rightarrow> bool" where
  "logs_query limit \<longleftrightarrow> 1 \<le> limit \<and> limit \<le> 1000"

definition get_logs ::
  "db \<Rightarrow> uuid \<Rightarrow> log_status option \<Rightarrow> string option \<Rightarrow> uuid option \<Rightarrow> nat option \<Rightarrow> nat \<Rightarrow> log_item page result" where
  "get_logs d action_id status reason_code entity_id cursor limit =
     (if \<not> logs_query limit then Inl (ValidationError (InvalidPayload ''limit''))
      else case list_logs d action_id status reason_code entity_id cursor limit of
        Inl e \<Rightarrow> Inl e
      | Inr p \<Rightarrow> Inr \<lparr> pg_items = map log_item_of (lp_items p), pg_count = length (lp_items p),
           pg_next_cursor = map_option nat_str (lp_next_cursor p), pg_has_more = lp_has_more p \<rparr>)"

definition get_batches :: "db \<Rightarrow> uuid \<Rightarrow> nat \<Rightarrow> nat \<Rightarrow> batch_item list result" where
  "get_batches d action_id limit offset =
     (if \<not> logs_query limit then Inl (ValidationError (InvalidPayload ''limit''))
      else case list_batches d action_id limit offset of Inl e \<Rightarrow> Inl e | Inr bs \<Rightarrow> Inr (map batch_item_of bs))"

definition cancel_route :: "uuid \<Rightarrow> time \<Rightarrow> db \<Rightarrow> db \<times> bulk_action_response result" where
  "cancel_route action_id now d =
     (let (d', r) = cancel_bulk_action action_id now d
      in (d', case r of Inl e \<Rightarrow> Inl e | Inr a \<Rightarrow> Inr (from_model a)))"

section \<open>The progress stream\<close>

definition progress_channel :: "string \<Rightarrow> string" where
  "progress_channel action_id = ''bulk-action-progress:'' @ action_id"

text \<open>\<open>publish_progress\<close>: one message on the action's channel; an error of Redis is swallowed.\<close>

definition publish_progress :: "bool \<Rightarrow> progress \<Rightarrow> (string \<times> progress) list" where
  "publish_progress redis_up payload = (if redis_up then [(progress_channel (pp_id payload), payload)] else [])"

text \<open>One turn of the relay loop: the client has gone, nothing came within the timeout, or a message
  came.\<close>

datatype turn = Disconnected | TimedOut | Message progress

datatype frame = ProgressFrame progress | DoneFrame progress | Heartbeat

definition payload_terminal :: "progress \<Rightarrow> bool result" where
  "payload_terminal p = (case action_status_of (pp_status p) of
     None \<Rightarrow> Inl (ValueError (pp_status p)) | Some st \<Rightarrow> Inr (is_terminal st))"

text \<open>The frames sent for the turns so far, and whether the generator has ended.\<close>

fun relay :: "turn list \<Rightarrow> frame list \<times> bool" where
  "relay [] = ([], False)"
| "relay (Disconnected # ts) = ([], True)"
| "relay (TimedOut # ts) = (let (fs, ended) = relay ts in (Heartbeat # fs, ended))"
| "relay (Message p # ts) =
     (case payload_terminal p of
        Inl e \<Rightarrow> ([ProgressFrame p], True)
      | Inr True \<Rightarrow> ([ProgressFrame p, DoneFrame p], True)
      | Inr False \<Rightarrow> (let (fs, ended) = relay ts in (ProgressFrame p # fs, ended)))"

definition event_stream :: "progress \<Rightarrow> turn list \<Rightarrow> frame list \<times> bool" where
  "event_stream initial ts =
     (case payload_terminal initial of
        Inl e \<Rightarrow> ([ProgressFrame initial], True)
      | Inr True \<Rightarrow> ([ProgressFrame initial], True)
      | Inr False \<Rightarrow> (let (fs, ended) = relay ts in (ProgressFrame initial # fs, ended)))"

definition stream_progress :: "db \<Rightarrow> uuid \<Rightarrow> turn list \<Rightarrow> (frame list \<times> bool) result" where
  "stream_progress d action_id ts =
     (case get_bulk_action d action_id of
        Inl e \<Rightarrow> Inl e
      | Inr a \<Rightarrow> Inr (event_stream (progress_payload a) ts))"

text \<open>The text of a frame; \<open>json.dumps\<close> is a parameter.\<close>

definition newline :: string where
  "newline = [CHR 0x0A]"

fun frame_text :: "(progress \<Rightarrow> string) \<Rightarrow> frame \<Rightarrow> string" where
  "frame_text dumps (ProgressFrame p) = ''event: progress'' @ newline @ ''data: '' @ dumps p @ newline @ newline"
| "frame_text dumps (DoneFrame p) = ''event: done'' @ newline @ ''data: '' @ dumps p @ newline @ newline"
| "frame_text dumps Heartbeat = '': heartbeat'' @ newline @ newline"

section \<open>Accounts, probes and middleware\<close>

record account_response =
  ar_id :: uuid
  ar_name :: string
  ar_rate_limit_per_minute :: int

definition account_response_of :: "account \<Rightarrow> account_response" where
  "account_response_of a = \<lparr> ar_id = acc_id a, ar_name = acc_name a,
     ar_rate_limit_per_minute = acc_rate_limit_per_minute a \<rparr>"

definition rate_limit_accepted :: "int \<Rightarrow> bool" where
  "rate_limit_accepted n \<longleftrightarrow> 1 \<le> n \<and> n \<le> 10000000"

text \<open>\<open>AccountCreate\<close>: a limit that is not sent takes the setting, which pydantic does not validate.\<close>

definition account_create_accepts :: "string \<Rightarrow> int option \<Rightarrow> bool" where
  "account_create_accepts name rate \<longleftrightarrow> 1 \<le> length name \<and> length name \<le> 255 \<and>
     (case rate of None \<Rightarrow> True | Some n \<Rightarrow> rate_limit_accepted n)"

definition post_account :: "settings \<Rightarrow> uuid \<Rightarrow> string \<Rightarrow> int option \<Rightarrow> time \<Rightarrow> db \<Rightarrow> db \<times> account_response http result" where
  "post_account S new_id name rate now d =
     (if \<not> account_create_accepts name rate then (d, Inl (ValidationError (InvalidPayload ''body'')))
      else
        (let (a, d') = create_account new_id name
               (case rate of None \<Rightarrow> s_default_rate_limit_per_minute S | Some n \<Rightarrow> n) now d
         in (d', Inr \<lparr> ht_status = 201, ht_headers = [], ht_body = account_response_of a \<rparr>)))"

definition patch_account :: "uuid \<Rightarrow> int \<Rightarrow> db \<Rightarrow> db \<times> account_response result" where
  "patch_account account_id rate d =
     (if \<not> rate_limit_accepted rate then (d, Inl (ValidationError (InvalidPayload ''rate_limit_per_minute'')))
      else (let (d', r) = update_account account_id rate d
            in (d', case r of Inl e \<Rightarrow> Inl e | Inr a \<Rightarrow> Inr (account_response_of a))))"

definition list_entity_types :: "(string \<Rightarrow> string) \<Rightarrow> entity_registry \<Rightarrow> entity_description list" where
  "list_entity_types title entities = map (describe_entity title \<circ> snd) entities"

record health =
  hl_status :: string
  hl_checks :: "(string \<times> string) list"

definition healthz :: "string \<Rightarrow> (string \<times> string) list" where
  "healthz app_name = [(''status'', ''ok''), (''app'', app_name)]"

text \<open>The two probes as the errors they raise, if any.\<close>

definition readyz :: "(exn \<Rightarrow> string) \<Rightarrow> exn option \<Rightarrow> exn option \<Rightarrow> health http" where
  "readyz str pg rd =
     (let check = (\<lambda>p. case p of None \<Rightarrow> ''ok'' | Some e \<Rightarrow> ''error: '' @ str e);
          checks = [(''postgres'', check pg), (''redis'', check rd)];
          healthy = list_all (\<lambda>c. snd c = ''ok'') checks
      in \<lparr> ht_status = (if healthy then 200 else 503), ht_headers = [],
           ht_body = \<lparr> hl_status = (if healthy then ''ok'' else ''degraded''), hl_checks = checks \<rparr> \<rparr>)"

text \<open>\<open>request_context\<close>: a request id that is missing or empty is replaced by the clock; the id is set
  on the response.\<close>

definition request_context :: "string option \<Rightarrow> nat \<Rightarrow> 'a http \<Rightarrow> 'a http" where
  "request_context header monotonic_ns response =
     (let request_id = (case header of None \<Rightarrow> nat_str monotonic_ns
                        | Some h \<Rightarrow> if h = [] then nat_str monotonic_ns else h)
      in response\<lparr> ht_headers := filter (\<lambda>h. fst h \<noteq> ''X-Request-ID'') (ht_headers response) @
           [(''X-Request-ID'', request_id)] \<rparr>)"

section \<open>What a subscriber sees\<close>

text \<open>The messages that arrive while the client is connected.\<close>

fun arrived :: "turn list \<Rightarrow> progress list" where
  "arrived [] = []"
| "arrived (Disconnected # ts) = []"
| "arrived (TimedOut # ts) = arrived ts"
| "arrived (Message p # ts) = p # arrived ts"

definition still_open :: "progress \<Rightarrow> bool" where
  "still_open p \<longleftrightarrow> payload_terminal p = Inr False"

lemma payload_of_action: "payload_terminal (progress_payload a) = Inr (is_terminal (ba_status a))"
  by (simp add: payload_terminal_def progress_payload_def)

lemma still_open_cases:
  assumes "payload_terminal p = Inr b"
  shows "still_open p \<longleftrightarrow> \<not> b"
  by (simp add: still_open_def assms)

lemma relay_frames:
  assumes "\<forall>p \<in> set (arrived ts). \<exists>b. payload_terminal p = Inr b"
  shows "filter (\<lambda>f. f \<noteq> Heartbeat) (fst (relay ts)) =
      (case dropWhile still_open (arrived ts) of
         [] \<Rightarrow> map ProgressFrame (arrived ts)
       | p # _ \<Rightarrow> map ProgressFrame (takeWhile still_open (arrived ts)) @ [ProgressFrame p, DoneFrame p])"
  using assms
proof (induction ts rule: arrived.induct)
  case (4 p ts)
  then obtain b where b: "payload_terminal p = Inr b" by auto
  with 4 show ?case
    by (cases b; cases "dropWhile still_open (arrived ts)") (simp_all add: still_open_cases [OF b] split_beta del: dropWhile_eq_Nil_conv)
qed (simp_all add: split_beta cong: list.case_cong)

lemma relay_ends:
  assumes "\<forall>p \<in> set (arrived ts). \<exists>b. payload_terminal p = Inr b"
  shows "snd (relay ts) \<longleftrightarrow> Disconnected \<in> set ts \<or> \<not> list_all still_open (arrived ts)"
  using assms
proof (induction ts rule: arrived.induct)
  case (4 p ts)
  then obtain b where b: "payload_terminal p = Inr b" by auto
  with 4 show ?case by (cases b) (simp_all add: still_open_cases [OF b] split_beta)
qed (simp_all add: split_beta)



text \<open>
  (C40) An action can close without its subscribers being told. Only a batch that completes
  publishes progress. When the last batch to report has exhausted its tries, the action is closed
  as completed with errors and nothing is published: a client that is connected goes on
  receiving heartbeats, and its stream never ends by itself.
\<close>

theorem silent_close:
  assumes "try_execute E fx aid bid now d = (d1, Inl e)" and "s_job_max_tries (e_settings E) \<le> job_try"
    and "distinct (map ba_id (db_actions d))" and "load_action d aid = Some a" and "ba_status a = PROCESSING"
    and "ba_total_batches a \<le> ba_completed_batches a + 1"
    and "run_work E fx job_try aid bid n now d = (d2, pub, reply)"
  shows "pub = [] \<and> (\<exists>a'. load_action d2 aid = Some a' \<and> is_terminal (ba_status a')) \<and>
    event_stream (progress_payload a) (replicate k TimedOut) =
      (ProgressFrame (progress_payload a) # replicate k Heartbeat, False)"
proof -
  let ?m = "mark_batch_failed E aid bid n (e_str E e) now d"
  have r: "d2 = snd (finalize_if_complete aid now ?m)" "pub = []"
    using assms(1,2,7) try_execute_rollback [OF assms(1)] by (auto simp: run_work_def on_batch_error_def)
  have m: "load_action ?m aid = Some (add_counts n 0 n 0 True a)" by (simp add: load_mark_batch_failed assms(4))
  have "distinct (map ba_id (db_actions ?m))" using assms(3) by (simp add: mark_batch_failed_ids)
  from load_finalize [OF this m, of now] assms(5,6)
  have "\<exists>a'. load_action d2 aid = Some a' \<and> is_terminal (ba_status a')"
    by (simp add: r final_status_def add_counts_def)
  moreover have "relay (replicate k TimedOut) = (replicate k Heartbeat, False)" by (induction k) simp_all
  ultimately show ?thesis by (simp add: r event_stream_def payload_of_action assms(5))
qed

theorem silent_close_witness:
  "\<exists>d2 reply a'. run_work example_env \<lparr> fx_execute = Some NoResultFound, fx_finish = None \<rparr> 3 100 200 3 9 running_db =
     (d2, [], reply) \<and> load_action d2 100 = Some a' \<and> is_terminal (ba_status a')"
proof -
  let ?fx = "\<lparr> fx_execute = Some NoResultFound, fx_finish = None \<rparr>" and ?a = "example_action PROCESSING example_age_update"
  have t: "try_execute example_env ?fx 100 200 9 running_db = (running_db, Inl NoResultFound)"
    by (simp add: try_execute_def)
  have m: "s_job_max_tries (e_settings example_env) \<le> 3" by (simp add: example_env_def)
  have d: "distinct (map ba_id (db_actions running_db))" and l: "load_action running_db 100 = Some ?a"
    by (simp_all add: running_db_def load_action_def example_action_def)
  have s: "ba_status ?a = PROCESSING" "ba_total_batches ?a \<le> ba_completed_batches ?a + 1" by (simp_all add: example_action_def)
  obtain d2 pub reply where r: "run_work example_env ?fx 3 100 200 3 9 running_db = (d2, pub, reply)"
    by (cases "run_work example_env ?fx 3 100 200 3 9 running_db")
  from silent_close [OF t m d l s r, of 0] r show ?thesis by auto
qed

end
