(* ===== verification/Seeding.thy ===== *)
theory Seeding
  imports Api "HOL-Library.Stream"
begin

text \<open>
  Demo data: \<open>app/services/seeding.py\<close>, the seeding endpoint of \<open>app/api/routes/crm.py\<close> and
  \<open>scripts/seed.py\<close>. A generator \<open>random.Random(seed)\<close> is the stream of numbers it draws; every
  result below holds for every stream. \<open>uuid.uuid4()\<close> and \<open>datetime.now\<close> are functions of the
  number of the row and of the chunk.
\<close>

section \<open>Random choices\<close>

type_synonym rng = "nat stream"

text \<open>\<open>choice\<close> of a non-empty list, \<open>randint\<close> with both ends included, and \<open>random\<close>, a multiple of
  \<open>2\<^sup>-\<^sup>5\<^sup>3\<close> below one.\<close>

definition choice :: "'a list \<Rightarrow> rng \<Rightarrow> 'a \<times> rng" where
  "choice xs r = (xs ! (shd r mod length xs), stl r)"

definition randint :: "int \<Rightarrow> int \<Rightarrow> rng \<Rightarrow> int \<times> rng" where
  "randint a b r = (a + int (shd r mod nat (b - a + 1)), stl r)"

definition random_unit :: "rng \<Rightarrow> rat \<times> rng" where
  "random_unit r = (of_nat (shd r mod 2 ^ 53) / 2 ^ 53, stl r)"

section \<open>Rows\<close>

definition chunk_size :: nat where
  "chunk_size = 5000"

definition first_names :: "string list" where
  "first_names = [''Ada'', ''Grace'', ''Alan'', ''Linus'', ''Ravi'', ''Meera'', ''Kiran'', ''Anita'',
     ''Rahul'', ''Priya'', ''Sofia'', ''Diego'', ''Yuki'', ''Chen'', ''Omar'', ''Fatima'']"

definition last_names :: "string list" where
  "last_names = [''Lovelace'', ''Hopper'', ''Turing'', ''Torvalds'', ''Sharma'', ''Iyer'', ''Patel'',
     ''Desai'', ''Nair'', ''Rao'', ''Garcia'', ''Silva'', ''Tanaka'', ''Wei'', ''Haddad'']"

definition seed_statuses :: "string list" where
  "seed_statuses = [''active'', ''inactive'', ''prospect'', ''churned'']"

definition industries :: "string list" where
  "industries = [''logistics'', ''saas'', ''manufacturing'', ''retail'', ''fintech'', ''healthcare'']"

definition mail_domains :: "string list" where
  "mail_domains = [''example.com'', ''acme.io'', ''globex.net'', ''initech.dev'', ''umbrella.co'']"

definition value_for :: "string \<Rightarrow> string \<Rightarrow> rng \<Rightarrow> nat \<Rightarrow> pyval \<times> rng" where
  "value_for field_name spec_type r index =
     (if field_name = ''email'' then
        (let (first, r1) = choice first_names r; (host, r2) = choice mail_domains r1
         in (PStr (py_lower first @ ''.'' @ nat_str index @ ''@'' @ host), r2))
      else if field_name = ''domain'' then
        (let (tld, r1) = choice [''com'', ''io'', ''net''] r
         in (PStr (''company-'' @ nat_str index @ ''.'' @ tld), r1))
      else if field_name = ''name'' then
        (let (first, r1) = choice first_names r; (family, r2) = choice last_names r1
         in (PStr (first @ '' '' @ family), r2))
      else if field_name = ''status'' then (let (s, r1) = choice seed_statuses r in (PStr s, r1))
      else if field_name = ''industry'' then (let (s, r1) = choice industries r in (PStr s, r1))
      else if spec_type = ''int'' then (let (n, r1) = randint 18 75 r in (PInt n, r1))
      else (PStr (field_name @ ''-'' @ nat_str index), r))"

text \<open>The fields of one row, in the order the descriptor declares them.\<close>

fun fill_fields :: "(string \<times> field_spec) list \<Rightarrow> nat \<Rightarrow> rng \<Rightarrow> pydict \<Rightarrow> pydict \<times> rng" where
  "fill_fields [] index r row = (row, r)"
| "fill_fields ((fname, spec) # fs) index r row =
     (let (v, r') = value_for fname (type_name spec) r index
      in fill_fields fs index r' (dict_set fname v row))"

definition key_field :: "descriptor \<Rightarrow> string option" where
  "key_field ent = (case ent_dedup_fields ent of [] \<Rightarrow> None | f # _ \<Rightarrow> if f = [] then None else Some f)"

text \<open>The key of the row: an earlier one is reused with probability \<open>duplicate_ratio\<close>, otherwise the
  row's own is remembered. A number is drawn only when there is a key to reuse.\<close>

definition mint :: "string option \<Rightarrow> rat \<Rightarrow> pydict \<Rightarrow> pyval list \<Rightarrow> rng \<Rightarrow> pydict \<times> pyval list \<times> rng" where
  "mint dedup ratio row minted r =
     (case dedup of
        None \<Rightarrow> (row, minted, r)
      | Some f \<Rightarrow>
          (let own = (case map_of row f of None \<Rightarrow> PNone | Some v \<Rightarrow> v) in
           if minted = [] then (row, minted @ [own], r)
           else (let (u, r1) = random_unit r in
                 if u < ratio then (let (k, r2) = choice minted r1 in (dict_set f k row, minted, r2))
                 else (row, minted @ [own], r1))))"

definition stamp :: "descriptor \<Rightarrow> time \<Rightarrow> pydict \<Rightarrow> pydict" where
  "stamp ent now row =
     (let row1 = (if ''created_at'' \<in> set (column_names ent) then dict_set ''created_at'' (PTime now) row else row);
          row2 = (if ''updated_at'' \<in> set (column_names ent) then dict_set ''updated_at'' (PTime now) row1 else row1)
      in case ent_soft_delete_column ent of
           None \<Rightarrow> row2
         | Some c \<Rightarrow> if c = [] then row2 else dict_set c PNone row2)"

fun build_loop :: "descriptor \<Rightarrow> uuid \<Rightarrow> (nat \<Rightarrow> uuid) \<Rightarrow> time \<Rightarrow> rat \<Rightarrow> nat list \<Rightarrow> pyval list \<Rightarrow> rng \<Rightarrow> crm_row list" where
  "build_loop ent acc new_id now ratio [] minted r = []"
| "build_loop ent acc new_id now ratio (i # is) minted r =
     (let (row, r1) = fill_fields (ent_updatable_fields ent) i r [];
          (row', minted', r2) = mint (key_field ent) ratio row minted r1
      in \<lparr> row_id = new_id i, row_account_id = acc, row_cols = stamp ent now row' \<rparr> #
           build_loop ent acc new_id now ratio is minted' r2)"

definition build_rows :: "descriptor \<Rightarrow> uuid \<Rightarrow> (nat \<Rightarrow> uuid) \<Rightarrow> time \<Rightarrow> nat \<Rightarrow> rat \<Rightarrow> rng \<Rightarrow> crm_row list" where
  "build_rows ent acc new_id now amount ratio r = build_loop ent acc new_id now ratio [0..<amount] [] r"

section \<open>Writing them\<close>

text \<open>What the table's constraints make of an insert: NOT NULL columns, the primary key and the
  account's foreign key.\<close>

definition insert_rows :: "descriptor \<Rightarrow> crm_row list \<Rightarrow> db \<Rightarrow> db result" where
  "insert_rows ent rows d =
     (let t = ent_table ent in
      if list_ex (\<lambda>r. list_ex (\<lambda>c. \<not> col_nullable c \<and> row_get r (col_name c) = PNone) (ent_columns ent)) rows
      then Inl (DriverError ''not null'')
      else if \<not> distinct (map row_id (db_crm d t @ rows)) then Inl (DriverError ''primary key'')
      else if list_ex (\<lambda>r. load_account d (row_account_id r) = None) rows then Inl (DriverError ''foreign key'')
      else Inr (d\<lparr> db_crm := (db_crm d)(t := db_crm d t @ rows) \<rparr>))"

text \<open>\<open>_copy_rows\<close>: whether the driver offers COPY is a parameter; any error is swallowed and
  reported as unavailable.\<close>

definition copy_rows :: "bool \<Rightarrow> descriptor \<Rightarrow> crm_row list \<Rightarrow> db \<Rightarrow> db \<times> bool" where
  "copy_rows has_copy ent rows d =
     (if \<not> has_copy \<or> rows = [] then (d, False)
      else case insert_rows ent rows d of Inl e \<Rightarrow> (d, False) | Inr d' \<Rightarrow> (d', True))"

definition write_chunk :: "bool \<Rightarrow> descriptor \<Rightarrow> crm_row list \<Rightarrow> db \<Rightarrow> db result" where
  "write_chunk has_copy ent rows d =
     (case copy_rows has_copy ent rows d of
        (d', True) \<Rightarrow> Inr d'
      | (d', False) \<Rightarrow> insert_rows ent rows d')"

text \<open>The world outside: the random generators, the fresh ids and the clock.\<close>

record world =
  w_random :: "int option \<Rightarrow> nat \<Rightarrow> rng"
  w_uuid4 :: "nat \<Rightarrow> uuid"
  w_now :: "nat \<Rightarrow> time"
  w_has_copy :: bool

text \<open>The chunk that starts at \<open>start\<close>. Without a seed each generator starts from fresh entropy, so
  it also depends on \<open>start\<close>.\<close>

definition chunk_rows :: "world \<Rightarrow> descriptor \<Rightarrow> uuid \<Rightarrow> nat \<Rightarrow> rat \<Rightarrow> int option \<Rightarrow> nat \<Rightarrow> crm_row list" where
  "chunk_rows W ent acc amount ratio seed start =
     build_rows ent acc (\<lambda>i. w_uuid4 W (start + i)) (w_now W start) (min chunk_size (amount - start)) ratio
       (w_random W (map_option (\<lambda>s. s + int start) seed) start)"

function seed_from :: "world \<Rightarrow> descriptor \<Rightarrow> uuid \<Rightarrow> nat \<Rightarrow> rat \<Rightarrow> int option \<Rightarrow> nat \<Rightarrow> nat \<Rightarrow> db \<Rightarrow> db \<times> nat result" where
  "seed_from W ent acc amount ratio seed start inserted d =
     (if amount \<le> start then (d, Inr inserted)
      else
        (let chunk = chunk_rows W ent acc amount ratio seed start in
         case write_chunk (w_has_copy W) ent chunk d of
           Inl e \<Rightarrow> (d, Inl e)
         | Inr d' \<Rightarrow> seed_from W ent acc amount ratio seed (start + chunk_size) (inserted + length chunk) d'))"
  by pat_completeness auto

termination
  by (relation "measure (\<lambda>(W, ent, acc, amount, ratio, seed, start, inserted, d). amount - start)")
    (auto simp: chunk_size_def)

declare seed_from.simps [simp del]

definition seed_entities :: "world \<Rightarrow> descriptor \<Rightarrow> uuid \<Rightarrow> nat \<Rightarrow> rat \<Rightarrow> int option \<Rightarrow> db \<Rightarrow> db \<times> nat result" where
  "seed_entities W ent acc amount ratio seed d = seed_from W ent acc amount ratio seed 0 0 d"

section \<open>The endpoint and the script\<close>

record seed_request =
  sq_account_id :: uuid
  sq_count :: nat
  sq_duplicate_ratio :: rat

definition seed_request_ok :: "seed_request \<Rightarrow> bool" where
  "seed_request_ok q \<longleftrightarrow> 1 \<le> sq_count q \<and> sq_count q \<le> 1000000 \<and>
     0 \<le> sq_duplicate_ratio q \<and> sq_duplicate_ratio q \<le> 9 / 10"

definition seed_route :: "world \<Rightarrow> entity_registry \<Rightarrow> string \<Rightarrow> seed_request \<Rightarrow> db \<Rightarrow> db \<times> (string \<times> nat) http result" where
  "seed_route W reg entity_type q d =
     (if \<not> seed_request_ok q then (d, Inl (ValidationError (InvalidPayload ''body'')))
      else session_scope (\<lambda>d0.
        case get_entity reg entity_type of
          Inl e \<Rightarrow> (d0, Inl e)
        | Inr ent \<Rightarrow>
            (case seed_entities W ent (sq_account_id q) (sq_count q) (sq_duplicate_ratio q) None d0 of
               (d1, Inl e) \<Rightarrow> (d1, Inl e)
             | (d1, Inr n) \<Rightarrow> (d1, Inr \<lparr> ht_status = 201, ht_headers = [], ht_body = (ent_name ent, n) \<rparr>))) d)"

text \<open>\<open>_resolve_account\<close>: by id when one is given, otherwise by name, creating the account when there
  is none; two accounts of that name make \<open>scalar_one_or_none\<close> raise.\<close>

definition resolve_account :: "uuid \<Rightarrow> time \<Rightarrow> uuid option \<Rightarrow> string \<Rightarrow> db \<Rightarrow> db \<times> account result" where
  "resolve_account new_id now account_id name d =
     (case account_id of
        Some i \<Rightarrow> (d, case load_account d i of
                         None \<Rightarrow> Inl (RuntimeError ''SystemExit: Account not found.'') | Some a \<Rightarrow> Inr a)
      | None \<Rightarrow>
          (case filter (\<lambda>a. acc_name a = name) (db_accounts d) of
             [] \<Rightarrow> (let (a, d') = create_account new_id name 10000 now d in (d', Inr a))
           | [a] \<Rightarrow> (d, Inr a)
           | _ \<Rightarrow> (d, Inl (RuntimeError ''MultipleResultsFound''))))"

text \<open>The transaction of \<open>scripts/seed.py\<close>: the account and the rows, or neither.\<close>

definition seed_main :: "world \<Rightarrow> uuid \<Rightarrow> time \<Rightarrow> entity_registry \<Rightarrow> string \<Rightarrow> int \<Rightarrow> rat \<Rightarrow> uuid option \<Rightarrow> string \<Rightarrow>
    db \<Rightarrow> db \<times> (uuid \<times> nat) result" where
  "seed_main W new_id now reg entity_name amount ratio account_id account_name d =
     (case get_entity reg entity_name of
        Inl e \<Rightarrow> (d, Inl e)
      | Inr ent \<Rightarrow> session_scope (\<lambda>d0.
          case resolve_account new_id now account_id account_name d0 of
            (d1, Inl e) \<Rightarrow> (d1, Inl e)
          | (d1, Inr account) \<Rightarrow>
              (case seed_entities W ent (acc_id account) (nat amount) ratio None d1 of
                 (d2, Inl e) \<Rightarrow> (d2, Inl e)
               | (d2, Inr n) \<Rightarrow> (d2, Inr (acc_id account, n)))) d)"

section \<open>Every generated value is one the entity accepts\<close>

lemma choice_in: "xs \<noteq> [] \<Longrightarrow> fst (choice xs r) \<in> set xs"
  by (simp add: choice_def)

lemma nat_str_nonempty [simp]: "nat_str n \<noteq> []"
  by (simp add: nat_str.simps [of n])

lemma length_nat_str: "n < 10 ^ Suc k \<Longrightarrow> length (nat_str n) \<le> Suc k"
proof (induction k arbitrary: n)
  case 0
  then show ?case by (simp add: nat_str.simps [of n])
next
  case (Suc k)
  show ?case
  proof (cases "n < 10")
    case False
    moreover have "n div 10 < 10 ^ Suc k" using Suc.prems by (simp add: less_mult_imp_div_less mult.commute)
    ultimately show ?thesis using Suc.IH by (simp add: nat_str.simps [of n])
  qed (simp add: nat_str.simps [of n])
qed

lemma digit_not_at_space: "k < 10 \<Longrightarrow> not_at_space (digit_char k)"
proof -
  assume "k < 10"
  moreover have "code (CHR ''@'') = 64" by (simp add: code_def)
  ultimately show ?thesis
    by (auto simp: not_at_space_def regex_space_def digit_char_def Let_def code_def dest: arg_cong [where f = code])
qed

lemma nat_str_not_at_space: "list_all not_at_space (nat_str n)"
proof (induction n rule: nat_str.induct)
  case (1 n)
  then show ?case
    by (cases "n < 10") (simp_all add: nat_str.simps [of n] digit_not_at_space)
qed

lemma matches_email_parts:
  assumes "l \<noteq> []" and "list_all not_at_space l" and "list_all not_at_space h"
    and "list_ex (\<lambda>i. h ! i = CHR ''.'') [1..<length h - 1]"
  shows "matches_email (l @ ''@'' @ h)"
proof -
  have "c \<noteq> CHR ''@''" if "c \<in> set l" for c using assms(2) that by (auto simp: list_all_iff not_at_space_def)
  then have "takeWhile (\<lambda>c. c \<noteq> CHR ''@'') (l @ ''@'' @ h) = l"
    by (subst takeWhile_append2) auto
  with assms show ?thesis by (simp add: matches_email_def)
qed

text \<open>The word lists, as far as the constraints see them.\<close>

definition plain_word :: "nat \<Rightarrow> string \<Rightarrow> bool" where
  "plain_word n x \<longleftrightarrow> 1 \<le> length x \<and> length x \<le> n \<and> list_all not_at_space (py_lower x)"

definition mail_host :: "string \<Rightarrow> bool" where
  "mail_host h \<longleftrightarrow> length h \<le> 11 \<and> list_all not_at_space h \<and>
     list_ex (\<lambda>i. h ! i = CHR ''.'') [1..<length h - 1]"

lemma word_lists:
  "list_all (plain_word 6) first_names" "list_all (plain_word 8) last_names"
  "list_all (plain_word 8) seed_statuses" "list_all (plain_word 13) industries"
  "list_all (plain_word 3) [''com'', ''io'', ''net'']"
  "list_all mail_host mail_domains"
  by code_simp+

lemma plain_choice:
  assumes "list_all (plain_word n) xs" and "xs \<noteq> []"
  shows "plain_word n (fst (choice xs r))"
  using assms choice_in [of xs r] by (simp add: list_all_iff)

lemma nonempty_lists [simp]:
  "first_names \<noteq> []" "last_names \<noteq> []" "seed_statuses \<noteq> []" "industries \<noteq> []" "mail_domains \<noteq> []"
  by (simp_all add: first_names_def last_names_def seed_statuses_def industries_def mail_domains_def)

lemma index_digits: "index < chunk_size \<Longrightarrow> 1 \<le> length (nat_str index) \<and> length (nat_str index) \<le> 4"
  using length_nat_str [of index 3] by (simp add: chunk_size_def Suc_le_eq)

lemma seeded_email:
  assumes "index < chunk_size"
  shows "meets_annotation (AnnStr 3 320 (Some EmailPattern)) (fst (value_for ''email'' ty r index))"
proof -
  let ?n = "fst (choice first_names r)" and ?h = "fst (choice mail_domains (snd (choice first_names r)))"
  let ?l = "py_lower ?n @ ''.'' @ nat_str index"
  have n: "plain_word 6 ?n" by (rule plain_choice) (simp_all add: word_lists)
  have h: "mail_host ?h" using word_lists(6) choice_in [of mail_domains] by (simp add: list_all_iff)
  have dot: "not_at_space (CHR ''.'')" by code_simp
  have "matches_email (?l @ ''@'' @ ?h)"
    using n h dot unfolding plain_word_def mail_host_def
    by (intro matches_email_parts) (simp_all add: nat_str_not_at_space)
  moreover have "3 \<le> length (?l @ ''@'' @ ?h)" "length (?l @ ''@'' @ ?h) \<le> 320"
    using n h index_digits [OF assms] by (simp_all add: plain_word_def mail_host_def py_lower_def)
  ultimately show ?thesis by (simp add: value_for_def split_beta)
qed

lemma seeded_domain:
  assumes "index < chunk_size"
  shows "meets_annotation (AnnStr 3 255 None) (fst (value_for ''domain'' ty r index))"
proof -
  have "plain_word 3 (fst (choice [''com'', ''io'', ''net''] r))"
    by (rule plain_choice [OF word_lists(5)]) simp
  with index_digits [OF assms] show ?thesis by (simp add: value_for_def split_beta plain_word_def)
qed

lemma seeded_name: "meets_annotation (AnnStr 1 255 None) (fst (value_for ''name'' ty r index))"
proof -
  have "plain_word 6 (fst (choice first_names r))"
    "plain_word 8 (fst (choice last_names (snd (choice first_names r))))"
    by (rule plain_choice; simp add: word_lists)+
  then show ?thesis by (simp add: value_for_def split_beta plain_word_def)
qed

lemma seeded_status: "meets_annotation (AnnStr 1 50 None) (fst (value_for ''status'' ty r index))"
proof -
  have "plain_word 8 (fst (choice seed_statuses r))" by (rule plain_choice) (simp_all add: word_lists)
  then show ?thesis by (simp add: value_for_def split_beta plain_word_def)
qed

lemma seeded_industry: "meets_annotation (AnnStr 1 100 None) (fst (value_for ''industry'' ty r index))"
proof -
  have "plain_word 13 (fst (choice industries r))" by (rule plain_choice) (simp_all add: word_lists)
  then show ?thesis by (simp add: value_for_def split_beta plain_word_def)
qed

lemma seeded_int:
  assumes "f \<in> {''age'', ''employee_count''}" and "lo \<le> 18" and "75 \<le> hi"
  shows "meets_annotation (AnnInt lo hi) (fst (value_for f ''int'' r index))"
proof -
  define x where "x = shd r mod 58"
  have x: "x < 58" by (simp add: x_def)
  have "fst (randint 18 75 r) = 18 + int x" unfolding randint_def x_def by simp
  then have "fst (value_for f ''int'' r index) = PInt (18 + int x)"
    using assms(1) by (elim insertE emptyE) (simp_all add: value_for_def split_beta)
  with x assms(2,3) show ?thesis by simp
qed

lemma value_for_meets:
  assumes "ent \<in> {contact_entity, company_entity}" and "(f, spec) \<in> set (ent_updatable_fields ent)"
    and "index < chunk_size"
  shows "meets_annotation (fs_annotation spec) (fst (value_for f (type_name spec) r index))"
  using assms seeded_int [of f 0 150] seeded_int [of f 0 10000000]
  by (auto simp: contact_entity_def company_entity_def type_name_def seeded_name seeded_status seeded_industry
      seeded_email [OF assms(3)] seeded_domain [OF assms(3)] simp del: meets_annotation.simps One_nat_def)

section \<open>What a row of a chunk holds\<close>

lemma fill_fields_other: "f \<notin> fst ` set fs \<Longrightarrow> map_of (fst (fill_fields fs i r row)) f = map_of row f"
  by (induction fs i r row rule: fill_fields.induct) (auto split: prod.splits)

lemma fill_fields_value:
  assumes "distinct (map fst fs)" and "(f, spec) \<in> set fs"
  shows "\<exists>r'. map_of (fst (fill_fields fs i r row)) f = Some (fst (value_for f (type_name spec) r' i))"
  using assms
proof (induction fs i r row rule: fill_fields.induct)
  case (2 g sp fs i r row)
  show ?case
  proof (cases "f = g")
    case True
    with 2 have "f \<notin> fst ` set fs" "spec = sp" by force+
    with True show ?thesis by (auto simp: split_beta fill_fields_other)
  next
    case False
    with 2 show ?thesis by (auto simp: split_beta)
  qed
qed simp

text \<open>The row under construction holds an accepted value in every declared field.\<close>

definition filled :: "descriptor \<Rightarrow> pydict \<Rightarrow> bool" where
  "filled ent row \<longleftrightarrow> list_all (\<lambda>(f, spec). case map_of row f of None \<Rightarrow> False
     | Some v \<Rightarrow> meets_annotation (fs_annotation spec) v) (ent_updatable_fields ent)"

lemma filledD:
  "filled ent row \<Longrightarrow> (f, spec) \<in> set (ent_updatable_fields ent) \<Longrightarrow>
     \<exists>v. map_of row f = Some v \<and> meets_annotation (fs_annotation spec) v"
  by (fastforce simp: filled_def list_all_iff split: option.splits)

lemma filledI:
  "(\<And>f spec. (f, spec) \<in> set (ent_updatable_fields ent) \<Longrightarrow>
     \<exists>v. map_of row f = Some v \<and> meets_annotation (fs_annotation spec) v) \<Longrightarrow> filled ent row"
  by (fastforce simp: filled_def list_all_iff split: option.splits)

lemma fill_fields_filled:
  assumes "ent \<in> {contact_entity, company_entity}" and "i < chunk_size"
  shows "filled ent (fst (fill_fields (ent_updatable_fields ent) i r []))"
proof (rule filledI)
  fix f spec assume f: "(f, spec) \<in> set (ent_updatable_fields ent)"
  have "distinct (map fst (ent_updatable_fields ent))"
    using assms(1) contact.fields_distinct company.fields_distinct by blast
  from fill_fields_value [OF this f] value_for_meets [OF assms(1) f assms(2)]
  show "\<exists>v. map_of (fst (fill_fields (ent_updatable_fields ent) i r [])) f = Some v \<and>
    meets_annotation (fs_annotation spec) v" by fastforce
qed

text \<open>The remembered keys are values of the key field.\<close>

definition keys_meet :: "descriptor \<Rightarrow> pyval list \<Rightarrow> bool" where
  "keys_meet ent minted \<longleftrightarrow> list_all (\<lambda>(f, spec). key_field ent = Some f \<longrightarrow>
     list_all (meets_annotation (fs_annotation spec)) minted) (ent_updatable_fields ent)"

lemma keys_meet_Nil [simp]: "keys_meet ent []"
  by (simp add: keys_meet_def list_all_iff)

lemma random_below_zero: "\<not> fst (random_unit r) < 0"
  by (simp add: random_unit_def)

lemma mint_keeps:
  assumes "filled ent row" and "keys_meet ent minted"
    and "mint (key_field ent) ratio row minted r = (row', minted', r')"
  shows "filled ent row'" and "keys_meet ent minted'"
proof -
  have own: "keys_meet ent (minted @ [case map_of row f of None \<Rightarrow> PNone | Some v \<Rightarrow> v])"
    if "key_field ent = Some f" for f
    using assms(2) that filledD [OF assms(1), of f] by (fastforce simp: keys_meet_def list_all_iff)
  have reuse: "filled ent (dict_set f k row)" if "key_field ent = Some f" and "k \<in> set minted" for f k
  proof (rule filledI)
    fix g spec assume g: "(g, spec) \<in> set (ent_updatable_fields ent)"
    show "\<exists>v. map_of (dict_set f k row) g = Some v \<and> meets_annotation (fs_annotation spec) v"
      using filledD [OF assms(1) g] assms(2) that g by (fastforce simp: keys_meet_def list_all_iff)
  qed
  have "filled ent row' \<and> keys_meet ent minted'"
    using assms own reuse choice_in [of minted]
    by (auto simp: mint_def split_beta Let_def split: option.splits if_splits)
  then show "filled ent row'" and "keys_meet ent minted'" by simp_all
qed

text \<open>A finished row: accepted values, time stamps, not deleted.\<close>

definition seeded :: "descriptor \<Rightarrow> uuid \<Rightarrow> crm_row \<Rightarrow> bool" where
  "seeded ent acc r \<longleftrightarrow> row_account_id r = acc \<and> filled ent (row_cols r) \<and>
     row_get r ''created_at'' \<noteq> PNone \<and> row_get r ''updated_at'' \<noteq> PNone \<and>
     row_get r ''deleted_at'' = PNone"

lemma map_of_stamp:
  assumes "ent \<in> {contact_entity, company_entity}"
  shows "map_of (stamp ent now row) =
    (map_of row)(''created_at'' \<mapsto> PTime now, ''updated_at'' \<mapsto> PTime now, ''deleted_at'' \<mapsto> PNone)"
  using assms by (auto simp: stamp_def column_names_def contact_entity_def company_entity_def
      contacts_columns_def companies_columns_def)

lemma stamp_seeded:
  assumes "ent \<in> {contact_entity, company_entity}" and "filled ent row"
  shows "seeded ent acc \<lparr> row_id = i, row_account_id = acc, row_cols = stamp ent now row \<rparr>"
proof -
  let ?s = "stamp ent now row"
  note m = map_of_stamp [OF assms(1), of now row]
  have other: "f \<noteq> ''created_at'' \<and> f \<noteq> ''updated_at'' \<and> f \<noteq> ''deleted_at''"
    if "(f, spec) \<in> set (ent_updatable_fields ent)" for f spec
    using assms(1) that by (auto simp: contact_entity_def company_entity_def)
  have "filled ent ?s"
    using filledD [OF assms(2)] other by (intro filledI) (fastforce simp: m)
  then show ?thesis by (simp add: seeded_def row_get_def m)
qed

lemma build_loop_rows:
  assumes "ent \<in> {contact_entity, company_entity}" and "list_all (\<lambda>i. i < chunk_size) is"
    and "keys_meet ent minted"
  shows "list_all (seeded ent acc) (build_loop ent acc new_id now ratio is minted r)"
  using assms(2,3)
proof (induction "is" arbitrary: minted r)
  case (Cons i "is")
  obtain row r1 where f: "fill_fields (ent_updatable_fields ent) i r [] = (row, r1)" by fastforce
  obtain row' minted' r2 where m: "mint (key_field ent) ratio row minted r1 = (row', minted', r2)"
    by (cases "mint (key_field ent) ratio row minted r1")
  have "filled ent row" using fill_fields_filled [OF assms(1), of i r] Cons.prems(1) by (simp add: f)
  note k = mint_keeps [OF this Cons.prems(2) m]
  show ?case using Cons.IH [OF _ k(2)] Cons.prems(1) stamp_seeded [OF assms(1) k(1)] by (simp add: f m)
qed simp

lemma build_loop_ids: "map row_id (build_loop ent acc new_id now ratio is minted r) = map new_id is"
  by (induction "is" arbitrary: minted r) (simp_all add: split_beta)

section \<open>Chunks\<close>

lemma chunk_rows_seeded:
  "ent \<in> {contact_entity, company_entity} \<Longrightarrow> list_all (seeded ent acc) (chunk_rows W ent acc n ratio seed start)"
  unfolding chunk_rows_def build_rows_def by (rule build_loop_rows) (auto simp: list_all_iff)

lemma chunk_rows_ids:
  "map row_id (chunk_rows W ent acc n ratio seed start) = map (w_uuid4 W) [start..<start + min chunk_size (n - start)]"
proof -
  have "map (\<lambda>i. w_uuid4 W (start + i)) [0..<k] = map (w_uuid4 W) [start..<start + k]" for k
    by (rule nth_equalityI) auto
  then show ?thesis by (simp add: chunk_rows_def build_rows_def build_loop_ids)
qed

lemma length_chunk_rows: "length (chunk_rows W ent acc n ratio seed start) = min chunk_size (n - start)"
  using arg_cong [OF chunk_rows_ids, of length W ent acc n ratio seed start] by simp

lemma meets_not_none: "meets_annotation ann v \<Longrightarrow> v \<noteq> PNone"
  by (cases ann) auto

lemma filled_not_none:
  "filled ent row \<Longrightarrow> f \<in> fst ` set (ent_updatable_fields ent) \<Longrightarrow> \<exists>v. map_of row f = Some v \<and> v \<noteq> PNone"
  using filledD meets_not_none by fastforce

lemma seeded_not_null:
  assumes "ent \<in> {contact_entity, company_entity}" and "seeded ent acc r" and "c \<in> set (ent_columns ent)"
    and "\<not> col_nullable c"
  shows "row_get r (col_name c) \<noteq> PNone"
proof -
  have "col_name c \<in> {''id'', ''account_id'', ''created_at'', ''updated_at''} \<union> fst ` set (ent_updatable_fields ent)"
    using assms(1,3,4) by (auto simp: contact_entity_def company_entity_def contacts_columns_def companies_columns_def)
  moreover have "row_get r (col_name c) \<noteq> PNone" if f: "col_name c \<in> fst ` set (ent_updatable_fields ent)"
  proof -
    have "filled ent (row_cols r)" using assms(2) by (simp add: seeded_def)
    from filled_not_none [OF this f] show ?thesis by (auto simp: row_get_def)
  qed
  ultimately show ?thesis using assms(2) by (auto simp: seeded_def) (simp_all add: row_get_def)
qed

lemma insert_seeded:
  assumes "ent \<in> {contact_entity, company_entity}" and "list_all (seeded ent acc) rows"
    and "distinct (map row_id (db_crm d (ent_table ent) @ rows))" and "load_account d acc \<noteq> None"
  shows "insert_rows ent rows d =
    Inr (d\<lparr> db_crm := (db_crm d)(ent_table ent := db_crm d (ent_table ent) @ rows) \<rparr>)"
proof -
  have "\<not> list_ex (\<lambda>r. list_ex (\<lambda>c. \<not> col_nullable c \<and> row_get r (col_name c) = PNone) (ent_columns ent)) rows"
    using assms(1,2) seeded_not_null by (fastforce simp: list_all_iff list_ex_iff)
  moreover have "\<not> list_ex (\<lambda>r. load_account d (row_account_id r) = None) rows"
    using assms(2,4) by (auto simp: list_all_iff list_ex_iff seeded_def)
  ultimately show ?thesis using assms(3) by (simp add: insert_rows_def Let_def)
qed

lemma write_chunk_insert: "write_chunk has_copy ent rows d = insert_rows ent rows d"
  by (simp add: write_chunk_def copy_rows_def split: sum.splits)

lemma insert_unknown_account:
  assumes "load_account d acc = None" and "list_all (seeded ent acc) rows" and "rows \<noteq> []"
  shows "\<exists>e. insert_rows ent rows d = Inl e"
proof -
  have "list_ex (\<lambda>r. load_account d (row_account_id r) = None) rows"
    using assms by (cases rows) (simp_all add: seeded_def)
  then show ?thesis by (simp add: insert_rows_def Let_def)
qed

text \<open>The whole run: the rows of the chunks, one after the other.\<close>

lemma seed_from_rows:
  assumes "ent \<in> {contact_entity, company_entity}" and "load_account d acc \<noteq> None"
    and "distinct (map row_id (db_crm d (ent_table ent)) @ map (w_uuid4 W) [start..<n])"
  shows "\<exists>rows. seed_from W ent acc n ratio seed start inserted d =
      (d\<lparr> db_crm := (db_crm d)(ent_table ent := db_crm d (ent_table ent) @ rows) \<rparr>, Inr (inserted + (n - start))) \<and>
    map row_id rows = map (w_uuid4 W) [start..<n] \<and> list_all (seeded ent acc) rows"
  using assms(2,3)
proof (induction "n - start" arbitrary: start inserted d rule: less_induct)
  case less
  show ?case
  proof (cases "n \<le> start")
    case True
    then show ?thesis by (intro exI [of _ "[]"]) (simp add: seed_from.simps)
  next
    case False
    let ?t = "ent_table ent" and ?c = "chunk_rows W ent acc n ratio seed start"
    let ?d = "d\<lparr> db_crm := (db_crm d)(?t := db_crm d ?t @ ?c) \<rparr>"
    let ?m = "min chunk_size (n - start)"
    have up: "[start..<n] = [start..<start + ?m] @ [start + ?m..<n]" using upt_add_eq_append [of start "start + ?m" "n - (start + ?m)"] False by simp
    have nx: "[start + ?m..<n] = [start + chunk_size..<n]" by (simp add: min_def)
    have split: "map (w_uuid4 W) [start..<n] = map row_id ?c @ map (w_uuid4 W) [start + chunk_size..<n]"
      by (simp only: up map_append chunk_rows_ids nx)
    have "distinct (map row_id (db_crm d ?t @ ?c))" using less.prems(2) by (auto simp: split)
    from insert_seeded [OF assms(1) chunk_rows_seeded [OF assms(1)] this less.prems(1)]
    have w: "write_chunk (w_has_copy W) ent ?c d = Inr ?d" by (simp add: write_chunk_insert)
    have "load_account ?d acc \<noteq> None" using less.prems(1) by (simp add: load_account_def)
    moreover have "distinct (map row_id (db_crm ?d ?t) @ map (w_uuid4 W) [start + chunk_size..<n])"
      using less.prems(2) by (simp add: split)
    moreover have "n - (start + chunk_size) < n - start" using False by (simp add: chunk_size_def)
    ultimately obtain rows where rows:
      "seed_from W ent acc n ratio seed (start + chunk_size) (inserted + length ?c) ?d =
        (?d\<lparr> db_crm := (db_crm ?d)(?t := db_crm ?d ?t @ rows) \<rparr>, Inr (inserted + length ?c + (n - (start + chunk_size))))"
      "map row_id rows = map (w_uuid4 W) [start + chunk_size..<n]" "list_all (seeded ent acc) rows"
      using less.hyps by blast
    have "seed_from W ent acc n ratio seed start inserted d =
        (d\<lparr> db_crm := (db_crm d)(?t := db_crm d ?t @ (?c @ rows)) \<rparr>, Inr (inserted + (n - start)))"
      using False rows(1) by (subst seed_from.simps) (simp add: w length_chunk_rows)
    moreover have "map row_id (?c @ rows) = map (w_uuid4 W) [start..<n]" by (simp only: split map_append rows(2))
    moreover have "list_all (seeded ent acc) (?c @ rows)" using chunk_rows_seeded [OF assms(1)] rows(3) by simp
    ultimately show ?thesis by blast
  qed
qed

text \<open>Without the account the first chunk already fails.\<close>

lemma seed_unknown_account:
  assumes "ent \<in> {contact_entity, company_entity}" and "load_account d acc = None" and "0 < n"
  shows "\<exists>e. seed_entities W ent acc n ratio seed d = (d, Inl e)"
proof -
  let ?c = "chunk_rows W ent acc n ratio seed 0"
  have "?c \<noteq> []" using length_chunk_rows [of W ent acc n ratio seed 0] assms(3) by (auto simp: chunk_size_def)
  from insert_unknown_account [OF assms(2) chunk_rows_seeded [OF assms(1)] this]
  show ?thesis using assms(3) by (auto simp: seed_entities_def seed_from.simps [of W ent acc n] write_chunk_insert)
qed

text \<open>
  The index of a row restarts with every chunk. Two generators that start alike therefore give the
  first rows of two chunks the same key, although no row was asked to reuse one.
\<close>

lemma first_row_cols:
  assumes "start < n"
  shows "row_cols (hd (chunk_rows W ent acc n ratio seed start)) = stamp ent (w_now W start)
    (fst (fill_fields (ent_updatable_fields ent) 0 (w_random W (map_option (\<lambda>s. s + int start) seed) start) []))"
proof -
  have up: "[0..<k] = 0 # [1..<k]" if "0 < k" for k :: nat using that by (simp add: upt_conv_Cons)
  have "0 < min chunk_size (n - start)" using assms by (simp add: chunk_size_def)
  then show ?thesis
    by (simp add: chunk_rows_def build_rows_def up split_beta mint_def split: option.splits)
qed

lemma keys_repeat_across_chunks:
  assumes "w_random W None 0 = w_random W None chunk_size" and "chunk_size < n"
  shows "row_get (hd (chunk_rows W contact_entity acc n 0 None 0)) ''email'' =
    row_get (hd (chunk_rows W contact_entity acc n 0 None chunk_size)) ''email''"
proof -
  have "0 < n" using assms(2) by simp
  then show ?thesis
    by (simp add: row_get_def first_row_cols assms map_of_stamp)
qed

section \<open>The endpoint\<close>


definition example_world :: world where
  "example_world = \<lparr> w_random = (\<lambda>_ _. siterate Suc 0), w_uuid4 = (\<lambda>i. of_nat (i + 1000)),
     w_now = (\<lambda>_. 5), w_has_copy = True \<rparr>"


end
