(* ===== verification/Invariant.thy ===== *)
theory Invariant
  imports Service
begin

text \<open>
  The invariant of the database: what holds of the tables after every transaction of the platform,
  whatever order the transactions commit in. It has three parts: the declared keys (\<open>keys_ok\<close>),
  the references between tables (\<open>refs_ok\<close>), and the books (\<open>counted_ok\<close>): the counters of an
  action are the numbers of its audit-log rows. Two locales carry the proofs: \<open>status_update\<close>
  for UPDATEs of an action that leave its books alone, \<open>batch_update\<close> for UPDATEs of a batch that
  do not report it. The statements of the source are their interpretations; the transactions
  that do report a batch go through \<open>report_keeps\<close>.
\<close>

section \<open>The invariant\<close>

definition batch_reported :: "batch_row \<Rightarrow> bool" where
  "batch_reported b \<longleftrightarrow> bb_status b \<in> {B_COMPLETED, B_FAILED}"

definition reported_batches :: "db \<Rightarrow> uuid \<Rightarrow> nat" where
  "reported_batches d aid =
     length (filter (\<lambda>b. bb_bulk_action_id b = aid \<and> batch_reported b) (db_batches d))"

definition refs_ok :: "db \<Rightarrow> bool" where
  "refs_ok d \<longleftrightarrow>
     ba_account_id ` set (db_actions d) \<subseteq> acc_id ` set (db_accounts d) \<and>
     bb_bulk_action_id ` set (db_batches d) \<subseteq> ba_id ` set (db_actions d) \<and>
     bl_bulk_action_id ` set (db_logs d) \<subseteq> ba_id ` set (db_actions d) \<and>
     bl_batch_id ` set (db_logs d) \<subseteq> insert None (Some ` bb_id ` set (db_batches d))"

definition counted_ok :: "db \<Rightarrow> bulk_action \<Rightarrow> bool" where
  "counted_ok d a \<longleftrightarrow>
     ba_processed_count a = length (logs_of d (ba_id a)) \<and>
     ba_success_count a = count_logs d (ba_id a) L_SUCCESS \<and>
     ba_failure_count a = count_logs d (ba_id a) L_FAILED \<and>
     ba_skipped_count a = count_logs d (ba_id a) L_SKIPPED \<and>
     reported_batches d (ba_id a) \<le> ba_completed_batches a"

definition db_ok :: "db \<Rightarrow> bool" where
  "db_ok d \<longleftrightarrow> keys_ok d \<and> refs_ok d \<and> (\<forall>a \<in> set (db_actions d). counted_ok d a)"

text \<open>What no transaction takes away: the actions, and the batches of each.\<close>

definition batch_owner :: "batch_row \<Rightarrow> uuid \<times> uuid" where
  "batch_owner b = (bb_id b, bb_bulk_action_id b)"

definition grows :: "db \<Rightarrow> db \<Rightarrow> bool" where
  "grows d d' \<longleftrightarrow> ba_id ` set (db_actions d) \<subseteq> ba_id ` set (db_actions d') \<and>
     batch_owner ` set (db_batches d) \<subseteq> batch_owner ` set (db_batches d') \<and>
     acc_id ` set (db_accounts d) \<subseteq> acc_id ` set (db_accounts d')"

lemma grows_refl [simp, intro]: "grows d d"
  by (simp add: grows_def)

lemma grows_trans [trans]: "grows d d' \<Longrightarrow> grows d' d'' \<Longrightarrow> grows d d''"
  unfolding grows_def by (meson subset_trans)

section \<open>Updates that leave the books alone\<close>

definition books :: "bulk_action \<Rightarrow> uuid \<times> uuid \<times> nat \<times> nat \<times> nat \<times> nat \<times> nat" where
  "books a = (ba_id a, ba_account_id a, ba_processed_count a, ba_success_count a, ba_failure_count a,
     ba_skipped_count a, ba_completed_batches a)"

text \<open>The invariant reads only the books of an action, and of the other tables what is listed here.\<close>

lemma db_ok_books:
  assumes "map books (db_actions d') = map books (db_actions d)" and "db_batches d' = db_batches d"
    and "db_logs d' = db_logs d" and "db_dedup d' = db_dedup d"
    and "map acc_id (db_accounts d') = map acc_id (db_accounts d)"
    and "\<And>t. distinct (map row_id (db_crm d t)) \<Longrightarrow> distinct (map row_id (db_crm d' t))"
  shows "db_ok d \<Longrightarrow> db_ok d'" and "grows d d'"
proof -
  have sel: "map ba_id as = map (fst \<circ> books) as" "map ba_account_id as = map ((\<lambda>x. fst (snd x)) \<circ> books) as" for as
    by (simp_all add: books_def comp_def)
  have ids: "map ba_id (db_actions d') = map ba_id (db_actions d)"
    "map ba_account_id (db_actions d') = map ba_account_id (db_actions d)"
    unfolding sel map_map [symmetric] by (simp_all only: assms(1))
  have counted: "counted_ok e a = counted_ok d b" if "books a = books b" "db_logs e = db_logs d" "db_batches e = db_batches d" for e a b
    using that by (simp add: counted_ok_def books_def logs_of_def count_logs_def reported_batches_def)
  have "books ` set (db_actions d') = books ` set (db_actions d)"
    using arg_cong [OF assms(1), of set] by simp
  then have "\<forall>a \<in> set (db_actions d'). counted_ok d' a" if "\<forall>a \<in> set (db_actions d). counted_ok d a"
    using that counted [OF _ assms(3,2)] by (metis (no_types, lifting) imageE imageI)
  moreover have img: "ba_id ` set (db_actions d') = ba_id ` set (db_actions d)"
    "ba_account_id ` set (db_actions d') = ba_account_id ` set (db_actions d)"
    "acc_id ` set (db_accounts d') = acc_id ` set (db_accounts d)"
    using arg_cong [OF ids(1), of set] arg_cong [OF ids(2), of set] arg_cong [OF assms(5), of set] by simp_all
  ultimately show "db_ok d \<Longrightarrow> db_ok d'"
    using assms(6) by (simp add: db_ok_def keys_ok_def refs_ok_def assms(2-5) ids)
  show "grows d d'" by (simp add: grows_def assms(2) img)
qed

locale status_update =
  fixes f :: "bulk_action \<Rightarrow> bulk_action"
  assumes books_kept: "books (f a) = books a"
begin

lemma keeps: "db_ok d \<Longrightarrow> db_ok (update_actions p f d)"
  and growing: "grows d (update_actions p f d)"
  using db_ok_books [of "update_actions p f d" d] books_kept
  by (simp_all add: update_actions_def map_upd_where)

end

interpretation opened: status_update "\<lambda>a. a\<lparr> ba_status := s, ba_started_at := t \<rparr>" for s t
  by unfold_locales (simp add: books_def)

interpretation shut: status_update "\<lambda>a. a\<lparr> ba_status := s, ba_finished_at := t \<rparr>" for s t
  by unfold_locales (simp add: books_def)

interpretation broke: status_update "\<lambda>a. a\<lparr> ba_status := s, ba_error := e, ba_finished_at := t \<rparr>" for s e t
  by unfold_locales (simp add: books_def)

interpretation totals: status_update "\<lambda>a. a\<lparr> ba_total_entities := te, ba_total_batches := tb \<rparr>" for te tb
  by unfold_locales (simp add: books_def)

locale batch_update =
  fixes g :: "batch_row \<Rightarrow> batch_row"
  assumes owner_kept: "batch_owner (g b) = batch_owner b" and slot_kept: "batch_slot (g b) = batch_slot b"
    and not_reporting: "batch_reported (g b) \<Longrightarrow> batch_reported b"
begin

lemma owners: "map batch_owner (upd_where p g rows) = map batch_owner rows"
  and slots: "map batch_slot (upd_where p g rows) = map batch_slot rows"
  by (simp_all add: map_upd_where owner_kept slot_kept)

lemma fewer_reported: "reported_batches (update_batches p g d) aid \<le> reported_batches d aid"
proof -
  have own: "bb_bulk_action_id (g b) = bb_bulk_action_id b" for b
    using owner_kept [of b] by (simp add: batch_owner_def)
  have "length (filter (\<lambda>b. bb_bulk_action_id b = aid \<and> batch_reported b) (upd_where p g rows)) \<le>
      length (filter (\<lambda>b. bb_bulk_action_id b = aid \<and> batch_reported b) rows)" for rows
    by (induction rows) (auto simp: own dest: not_reporting)
  then show ?thesis by (simp add: reported_batches_def update_batches_def)
qed

end

lemma batch_keys:
  assumes "map batch_owner rows' = map batch_owner rows"
  shows "map bb_id rows' = map bb_id rows" and "bb_bulk_action_id ` set rows' = bb_bulk_action_id ` set rows"
    and "bb_id ` set rows' = bb_id ` set rows"
proof -
  have sel: "map bb_id bs = map (fst \<circ> batch_owner) bs" "map bb_bulk_action_id bs = map (snd \<circ> batch_owner) bs" for bs
    by (simp_all add: batch_owner_def comp_def)
  have k: "map bb_id rows' = map bb_id rows" "map bb_bulk_action_id rows' = map bb_bulk_action_id rows"
    unfolding sel map_map [symmetric] by (simp_all only: assms)
  from k(1) show "map bb_id rows' = map bb_id rows" .
  show "bb_bulk_action_id ` set rows' = bb_bulk_action_id ` set rows" "bb_id ` set rows' = bb_id ` set rows"
    using arg_cong [OF k(2), of set] arg_cong [OF k(1), of set] by simp_all
qed

lemma batch_slot_eq: "(\<lambda>b. (bb_bulk_action_id b, bb_batch_index b)) = batch_slot"
  by (simp add: fun_eq_iff batch_slot_def)

context batch_update
begin

lemma keeps:
  assumes "db_ok d"
  shows "db_ok (update_batches p g d)"
proof -
  note k = batch_keys [OF owners, of p "db_batches d"]
  have "counted_ok (update_batches p g d) a" if "counted_ok d a" for a
    using that fewer_reported [of p d "ba_id a"]
    by (auto simp: counted_ok_def count_logs_def logs_of_def intro: order_trans)
  with assms show ?thesis
    by (simp add: db_ok_def keys_ok_def refs_ok_def batch_slot_eq)
      (simp add: update_batches_def k slots)
qed

lemma growing: "grows d (update_batches p g d)"
  using arg_cong [OF owners [of p "db_batches d"], of set] by (simp add: grows_def update_batches_def)

end

interpretation withdrawn: batch_update "\<lambda>b. b\<lparr> bb_status := B_CANCELLED, bb_finished_at := t \<rparr>" for t
  by unfold_locales (simp_all add: batch_owner_def batch_slot_def batch_reported_def)

interpretation attempted: batch_update
  "\<lambda>b. b\<lparr> bb_status := B_PROCESSING, bb_attempts := bb_attempts b + 1, bb_started_at := t \<rparr>" for t
  by unfold_locales (simp_all add: batch_owner_def batch_slot_def batch_reported_def)

section \<open>Reporting a batch\<close>

lemma reported_upd_key:
  assumes "distinct (map bb_id rows)" and "\<And>b. b \<in> set rows \<Longrightarrow> bb_id b = bid \<Longrightarrow> bb_bulk_action_id b = aid"
    and "\<And>b. bb_bulk_action_id (g b) = bb_bulk_action_id b"
  shows "length (filter (\<lambda>b. bb_bulk_action_id b = aid' \<and> batch_reported b) (upd_where (\<lambda>b. bb_id b = bid) g rows)) \<le>
    length (filter (\<lambda>b. bb_bulk_action_id b = aid' \<and> batch_reported b) rows) + (if aid' = aid then 1 else 0)"
  using assms(1,2)
proof (induction rows)
  case (Cons b rows)
  show ?case
  proof (cases "bb_id b = bid")
    case True
    then have "upd_where (\<lambda>b. bb_id b = bid) g rows = rows"
      using Cons.prems(1) by (intro upd_where_none) (auto simp: rev_image_eqI)
    with True Cons.prems(2) [of b] show ?thesis by (simp add: assms(3))
  next
    case False
    with Cons show ?thesis by auto
  qed
qed simp

lemma new_logs_sel:
  assumes "l \<in> set (db_logs (write_outcomes aid bid now os d))"
  shows "l \<in> set (db_logs d) \<or> bl_bulk_action_id l = aid \<and> bl_batch_id l = bid"
  using assms by (auto simp: write_outcomes_def log_of_outcome_def in_set_enumerate_eq split: if_splits)

lemma write_outcomes_distinct:
  assumes "distinct (map bl_id (db_logs d))"
  shows "distinct (map bl_id (db_logs (write_outcomes aid bid now os d)))"
proof -
  have new: "map bl_id (map (\<lambda>(i, oc). log_of_outcome aid bid now i oc) (enumerate k os)) = [k..<k + length os]" for k
    by (induction os arbitrary: k) (simp_all add: log_of_outcome_def upt_conv_Cons del: upt_Suc)
  have "bl_id ` set (db_logs d) \<inter> set [next_log_id d..<next_log_id d + length os] = {}"
    using next_log_id_bound [of _ d] by fastforce
  with assms show ?thesis
    using new [of "next_log_id d"] by (simp add: write_outcomes_def del: map_map set_upt)
qed

text \<open>The shape both reporting transactions have: a log row per outcome, counters moved by their
  numbers, one batch of the action updated.\<close>

lemma report_keeps:
  assumes ok: "db_ok d" and own: "(bid, aid) \<in> batch_owner ` set (db_batches d)"
    and g: "\<And>b. batch_owner (g b) = batch_owner b" "\<And>b. batch_slot (g b) = batch_slot b"
    and acts: "db_actions d' = upd_where (\<lambda>a. ba_id a = aid) (counted_result os) (db_actions d)"
    and bats: "db_batches d' = upd_where (\<lambda>b. bb_id b = bid) g (db_batches d)"
    and logs: "db_logs d' = db_logs (write_outcomes aid (Some bid) now os d)"
    and rest: "db_accounts d' = db_accounts d" "distinct (db_dedup d) \<Longrightarrow> distinct (db_dedup d')"
      "\<And>t. distinct (map row_id (db_crm d t)) \<Longrightarrow> distinct (map row_id (db_crm d' t))"
  shows "db_ok d'" and "grows d d'"
proof -
  have k: "keys_ok d" "refs_ok d" and cnt: "\<And>a. a \<in> set (db_actions d) \<Longrightarrow> counted_ok d a"
    using ok by (auto simp: db_ok_def)
  have owners: "map batch_owner (db_batches d') = map batch_owner (db_batches d)"
    and slots: "map batch_slot (db_batches d') = map batch_slot (db_batches d)"
    by (simp_all add: bats map_upd_where g)
  note bk = batch_keys [OF owners]
  have ids: "map ba_id (db_actions d') = map ba_id (db_actions d)"
    "map ba_account_id (db_actions d') = map ba_account_id (db_actions d)"
    by (simp_all add: acts map_upd_where counted_result_def add_counts_def)
  have img: "ba_id ` set (db_actions d') = ba_id ` set (db_actions d)"
    "ba_account_id ` set (db_actions d') = ba_account_id ` set (db_actions d)"
    using arg_cong [OF ids(1), of set] arg_cong [OF ids(2), of set] by simp_all
  show grow: "grows d d'"
    using arg_cong [OF owners, of set] by (simp add: grows_def img rest(1))
  have aid: "aid \<in> ba_id ` set (db_actions d)" "bid \<in> bb_id ` set (db_batches d)"
    using own k(2) by (auto simp: refs_ok_def batch_owner_def)
  have "bl_bulk_action_id l \<in> ba_id ` set (db_actions d)"
    and "bl_batch_id l \<in> insert None (Some ` bb_id ` set (db_batches d))" if "l \<in> set (db_logs d')" for l
    using new_logs_sel [OF that [unfolded logs]] aid k(2) by (auto simp: refs_ok_def image_subset_iff)
  then have refs: "refs_ok d'"
    using k(2) unfolding refs_ok_def img bk(2,3) rest(1) by (simp add: image_subset_iff)
  have keys: "keys_ok d'"
    using k(1) rest write_outcomes_distinct [of d aid "Some bid" now os]
    by (simp add: keys_ok_def batch_slot_eq ids bk(1) slots logs)
  have mine: "bb_bulk_action_id b = aid" if "b \<in> set (db_batches d)" "bb_id b = bid" for b
    using that own k(1) by (auto simp: batch_owner_def keys_ok_def distinct_map inj_on_def)
  have gb: "bb_bulk_action_id (g b) = bb_bulk_action_id b" for b
    using g(1) [of b] by (simp add: batch_owner_def)
  have rep: "reported_batches d' x \<le> reported_batches d x + (if x = aid then 1 else 0)" for x
    unfolding reported_batches_def bats
    by (rule reported_upd_key) (use k(1) mine gb in \<open>simp_all add: keys_ok_def\<close>)
  have lg: "logs_of d' = logs_of (write_outcomes aid (Some bid) now os d)"
    "count_logs d' = count_logs (write_outcomes aid (Some bid) now os d)"
    by (simp_all add: fun_eq_iff logs_of_def count_logs_def logs)
  have new: "counted_ok d' (if ba_id a = aid then counted_result os a else a)" if "a \<in> set (db_actions d)" for a
    using cnt [OF that] rep [of "ba_id a"]
    by (auto simp: counted_ok_def lg length_logs_write_outcomes count_logs_write_outcomes counted_result_def
        add_counts_def)
  have "\<forall>a \<in> set (db_actions d'). counted_ok d' a"
    unfolding acts set_upd_where ball_simps by (intro ballI new)
  with keys refs show "db_ok d'" by (simp add: db_ok_def)
qed

section \<open>Every transaction keeps the invariant\<close>

definition evolves :: "db \<Rightarrow> db \<Rightarrow> bool" where
  "evolves d d' \<longleftrightarrow> db_ok d' \<and> grows d d'"

lemma evolves_refl [simp, intro]: "db_ok d \<Longrightarrow> evolves d d"
  by (simp add: evolves_def)

lemma evolves_trans: "evolves d d' \<Longrightarrow> (db_ok d' \<Longrightarrow> evolves d' d'') \<Longrightarrow> evolves d d''"
  by (auto simp: evolves_def intro: grows_trans)

lemma shut_evolves: "db_ok d \<Longrightarrow> evolves d (update_actions p (\<lambda>a. a\<lparr> ba_status := s, ba_finished_at := t \<rparr>) d)"
  by (simp add: evolves_def shut.keeps shut.growing)

lemma mark_started_evolves: "db_ok d \<Longrightarrow> evolves d (mark_started aid now d)"
  by (simp add: mark_started_def evolves_def opened.keeps opened.growing)

lemma fail_action_evolves: "db_ok d \<Longrightarrow> evolves d (fail_action aid err now d)"
  by (simp add: fail_action_def evolves_def broke.keeps broke.growing)

lemma finalize_evolves: "db_ok d \<Longrightarrow> evolves d (snd (finalize_if_complete aid now d))"
  by (auto simp: finalize_if_complete_def Let_def intro: shut_evolves split: option.splits)

lemma plan_finish_evolves:
  assumes "db_ok d"
  shows "evolves d (plan_finish aid te tb now d)"
proof -
  have "evolves d (update_actions (\<lambda>a. ba_id a = aid) (\<lambda>a. a\<lparr> ba_total_entities := te, ba_total_batches := tb \<rparr>) d)"
    using assms by (simp add: evolves_def totals.keeps totals.growing)
  then show ?thesis
    unfolding plan_finish_def Let_def
    by (rule evolves_trans) (auto intro: mark_started_evolves shut_evolves)
qed

lemma cancel_evolves: "db_ok d \<Longrightarrow> evolves d (fst (cancel_bulk_action aid now d))"
  by (auto simp: cancel_bulk_action_def session_scope_def Let_def intro: shut_evolves
      split: sum.splits if_splits list.splits)

lemma mark_attempt_evolves: "db_ok d \<Longrightarrow> evolves d (mark_attempt bid now d)"
  unfolding mark_attempt_def evolves_def by (simp only: attempted.keeps attempted.growing simp_thms)

lemma plan_open_evolves: "db_ok d \<Longrightarrow> evolves d (plan_open aid now d)"
  by (simp add: plan_open_def evolves_def opened.keeps opened.growing)

lemma plan_fail_evolves: "db_ok d \<Longrightarrow> evolves d (plan_fail E aid e now d)"
  by (simp add: plan_fail_def fail_action_evolves)

lemma finish_txn_evolves: "db_ok d \<Longrightarrow> evolves d (fst (finish_txn aid now d))"
  by (simp add: finish_txn_def Let_def finalize_evolves)

lemma cancel_batch_evolves: "db_ok d \<Longrightarrow> evolves d (cancel_batch bid now d)"
  by (simp add: cancel_batch_def evolves_def withdrawn.keeps withdrawn.growing)

lemma mark_batch_failed_evolves:
  assumes "db_ok d" and "(bid, aid) \<in> batch_owner ` set (db_batches d)"
  shows "evolves d (mark_batch_failed E aid bid n err now d)"
proof -
  have "add_counts n 0 n 0 True = counted_result (batch_error_outcomes E n err)"
    by (simp add: counted_result_def batch_error_outcomes_counts)
  then show ?thesis
    unfolding evolves_def
    by (intro conjI report_keeps [OF assms _ _ _ mark_batch_failed_batches mark_batch_failed_logs])
      (simp_all add: mark_batch_failed_actions batch_owner_def batch_slot_def)
qed

lemma dedup_step_distinct:
  "dedup_step aid fld rows d = (todo, dups, d1) \<Longrightarrow> distinct (db_dedup d) \<Longrightarrow> distinct (db_dedup d1)"
  by (auto simp: dedup_step_def split: option.splits if_splits prod.splits dest: partition_duplicates_spec(5))

context action_handler
begin

lemma run_batch_evolves:
  assumes "run_batch D now action batch ent h config d = Inr (outcomes, d')" and "db_ok d"
    and "(bb_id batch, ba_id action) \<in> batch_owner ` set (db_batches d)"
  shows "evolves d d'"
proof -
  have ded: "distinct (db_dedup d')" if "distinct (db_dedup d)"
    using assms(1) that
    by (elim run_batch_InrE) (auto dest!: control_plane_untouched(5) dedup_step_distinct)
  show ?thesis
    using assms(1)
  proof (rule run_batch_spec)
    fix rows
    assume *: "db_actions d' = upd_where (\<lambda>a. ba_id a = ba_id action) (counted_result outcomes) (db_actions d)"
      "db_batches d' = upd_where (\<lambda>b. bb_id b = bb_id batch) (completed_with outcomes now) (db_batches d)"
      "db_logs d' = db_logs (write_outcomes (ba_id action) (Some (bb_id batch)) now outcomes d)"
      "db_accounts d' = db_accounts d"
      and w: "writes_within (ent_table ent) (map er_id rows) (ba_account_id action) d (d\<lparr> db_crm := db_crm d' \<rparr>)"
    from w have "distinct (map row_id (db_crm d t)) \<Longrightarrow> distinct (map row_id (db_crm d' t))" for t
      by (simp add: writes_within_def)
    with * ded show ?thesis
      unfolding evolves_def
      by (intro conjI report_keeps [OF assms(2,3) _ _ *(1-3)])
        (simp_all add: completed_with_def batch_owner_def batch_slot_def)
  qed
qed

end

lemma shipped_run_batch_evolves:
  assumes "get_action shipped_actions t n = Inr h"
    and "run_batch D now action batch ent h config d = Inr (outcomes, d')" and "db_ok d"
    and "(bb_id batch, ba_id action) \<in> batch_owner ` set (db_batches d)"
  shows "evolves d d'"
  using action_handler.run_batch_evolves [OF shipped_handler [OF assms(1)] assms(2-4)] .

lemma flush_evolves:
  assumes "flush aid rows d = Inr (d', calls)" and "db_ok d"
    and "\<forall>r \<in> set rows. bb_bulk_action_id r = aid \<and> \<not> batch_reported r" and "aid \<in> ba_id ` set (db_actions d)"
  shows "evolves d d'"
proof (cases "rows = []")
  case False
  let ?new = "ins_fresh batch_slot (map batch_slot (db_batches d)) rows"
  have d': "d' = d\<lparr> db_batches := db_batches d @ ?new \<rparr>" and dist: "distinct (map bb_id (db_batches d @ ?new))"
    using assms(1) False by (auto simp: flush_def Let_def ins_ignore_def split: if_splits)
  have new: "\<forall>r \<in> set ?new. bb_bulk_action_id r = aid \<and> \<not> batch_reported r"
    using assms(3) ins_fresh_subset [of batch_slot "map batch_slot (db_batches d)" rows] by blast
  then have "filter (\<lambda>b. bb_bulk_action_id b = x \<and> batch_reported b) ?new = []" for x
    by (auto simp: filter_empty_conv)
  then have "counted_ok d' a = counted_ok d a" for a
    by (simp add: d' counted_ok_def logs_of_def count_logs_def reported_batches_def)
  moreover have "distinct (map batch_slot (db_batches d @ ?new))"
    using assms(2) ins_ignore_distinct [of batch_slot "db_batches d" rows]
    by (simp add: ins_ignore_def db_ok_def keys_ok_def batch_slot_eq)
  moreover have "refs_ok d'"
    using assms(2,4) new by (auto simp: d' refs_ok_def db_ok_def image_subset_iff)
  ultimately show ?thesis
    using assms(2) dist by (auto simp: evolves_def db_ok_def keys_ok_def batch_slot_eq d' grows_def)
qed (use assms in \<open>auto simp: flush_def\<close>)

text \<open>A new action starts with empty books, and no log row or batch can be waiting for it.\<close>

lemma insert_action_evolves:
  assumes "insert_action a d = Inr d'" and "db_ok d" and "ba_account_id a \<in> acc_id ` set (db_accounts d)"
    and "ba_processed_count a = 0" "ba_success_count a = 0" "ba_failure_count a = 0" "ba_skipped_count a = 0"
  shows "evolves d d'"
proof -
  have d': "d' = d\<lparr> db_actions := db_actions d @ [a] \<rparr>" and new: "ba_id a \<notin> ba_id ` set (db_actions d)"
    using assms(1) by (auto simp: insert_action_def split: if_splits)
  have r: "refs_ok d" using assms(2) by (simp add: db_ok_def)
  have "x \<noteq> ba_id a" if "x \<in> bl_bulk_action_id ` set (db_logs d) \<union> bb_bulk_action_id ` set (db_batches d)" for x
    using that r new unfolding refs_ok_def by blast
  then have "logs_of d (ba_id a) = []" and "reported_batches d (ba_id a) = 0"
    by (auto simp: logs_of_def reported_batches_def filter_empty_conv)
  then have "counted_ok d' a"
    by (simp add: counted_ok_def d' logs_of_def count_logs_def reported_batches_def assms(4-7))
  moreover have "counted_ok d' b = counted_ok d b" for b
    by (simp add: d' counted_ok_def logs_of_def count_logs_def reported_batches_def)
  moreover have "refs_ok d'" using r assms(3) by (auto simp: d' refs_ok_def image_subset_iff)
  ultimately show ?thesis
    using assms(2) new by (auto simp: evolves_def db_ok_def keys_ok_def d' grows_def)
qed

lemma accounts_evolve:
  assumes "db_ok d" and "new_id \<notin> acc_id ` set (db_accounts d)"
  shows "evolves d (snd (create_account new_id name rate now d))"
proof -
  let ?d = "snd (create_account new_id name rate now d)"
  have "counted_ok ?d b = counted_ok d b" for b
    by (simp add: create_account_def Let_def counted_ok_def logs_of_def count_logs_def reported_batches_def)
  then show ?thesis
    using assms by (auto simp: evolves_def db_ok_def keys_ok_def create_account_def Let_def grows_def refs_ok_def)
qed

lemma update_account_evolves: "db_ok d \<Longrightarrow> evolves d (fst (update_account acc rate d))"
  unfolding evolves_def update_account_def
  by (auto intro!: db_ok_books [of _ d] simp: map_upd_where split: sum.splits)

text \<open>Anything else may edit CRM rows, under their primary key.\<close>

lemma crm_edit_evolves:
  "db_ok d \<Longrightarrow> (\<And>t. distinct (map row_id (crm t))) \<Longrightarrow> evolves d (d\<lparr> db_crm := crm \<rparr>)"
  unfolding evolves_def by (auto intro!: db_ok_books [of _ d])

lemmas evolve_intros = mark_started_evolves plan_open_evolves plan_finish_evolves plan_fail_evolves
  finalize_evolves finish_txn_evolves cancel_evolves cancel_batch_evolves mark_attempt_evolves
  update_account_evolves crm_edit_evolves accounts_evolve

end
