(* ===== verification/System.thy ===== *)
theory System
  imports Invariant
begin

text \<open>
  The platform as a whole: any number of API requests and worker tasks whose transactions
  interleave, on one database, one Redis and one queue. A task is what is left to do of one
  running coroutine; each rule of \<open>task_step\<close> is one transaction of \<open>app/workers/tasks.py\<close>
  or one call of Redis, with its faults. Where a transaction reads a row and later writes by id
  alone, the read and the write are separate steps: PostgreSQL's default isolation lets another
  transaction commit in between. The queue may deliver any job it was ever given, any number of
  times and with any try number, a task may vanish at any step, and other programs may edit CRM
  rows; nothing is assumed about clocks or fresh ids beyond the keys the database checks.
\<close>

section \<open>Tasks\<close>

datatype task =
    PlanTask uuid
  | OpenTask uuid planner
  | WalkTask uuid planner
  | PlannedTask uuid nat nat
  | PlanFailedTask uuid exn
  | BatchTask uuid nat nat int
  | CancelBatchTask uuid
  | GateTask uuid nat nat int go
  | AttemptTask uuid int go
  | ReadTask uuid int go
  | WorkTask uuid int go work
  | FinishTask uuid int go
  | ErrorTask uuid int go exn
  | CloseTask uuid
  | CommitTask bulk_action

definition task_of :: "job \<Rightarrow> int \<Rightarrow> task" where
  "task_of j job_try = (case j of PlanJob aid \<Rightarrow> PlanTask aid
     | BatchJob aid i deferrals \<Rightarrow> BatchTask aid i deferrals job_try)"

text \<open>One step of one task: the shared state before and after, the calls of \<open>enqueue_job\<close> it
  makes, and what is left of it.\<close>

inductive task_step ::
  "env \<Rightarrow> task \<Rightarrow> db \<times> redis \<Rightarrow> db \<times> redis \<Rightarrow> enqueue_call list \<Rightarrow> task option \<Rightarrow> bool" for E :: env where
  plan_error: "plan_read E aid d = Inl e \<Longrightarrow> task_step E (PlanTask aid) (d, R) (d, R) [] None"
| plan_reply: "plan_read E aid d = Inr (Inl reply) \<Longrightarrow> task_step E (PlanTask aid) (d, R) (d, R) [] None"
| plan_go: "plan_read E aid d = Inr (Inr pl) \<Longrightarrow>
    task_step E (PlanTask aid) (d, R) (d, R) [] (Some (OpenTask aid pl))"
| plan_opens: "task_step E (OpenTask aid pl) (d, R) (plan_open aid now d, R) [] (Some (WalkTask aid pl))"
| walk_more: "plan_page E uuid4 now aid pl d = (d', calls, PageMore pl') \<Longrightarrow>
    task_step E (WalkTask aid pl) (d, R) (d', R) calls (Some (WalkTask aid pl'))"
| walk_last: "plan_page E uuid4 now aid pl d = (d', calls, PageLast pl') \<Longrightarrow>
    task_step E (WalkTask aid pl) (d, R) (d', R) calls
      (Some (PlannedTask aid (pl_total_entities pl') (pl_total_batches pl')))"
| walk_failed: "plan_page E uuid4 now aid pl d = (d', calls, PageFailed e) \<Longrightarrow>
    task_step E (WalkTask aid pl) (d, R) (d', R) calls (Some (PlanFailedTask aid e))"
| walk_enqueue_fault: "plan_page E uuid4 now aid pl d = (d', calls, r) \<Longrightarrow>
    task_step E (WalkTask aid pl) (d, R) (d', R) (take k calls) (Some (PlanFailedTask aid e))"
| walk_crash: "plan_page E uuid4 now aid pl d = (d', calls, r) \<Longrightarrow>
    task_step E (WalkTask aid pl) (d, R) (d', R) (take k calls) None"
| walk_fault: "task_step E (WalkTask aid pl) (d, R) (d, R) [] (Some (PlanFailedTask aid e))"
| plan_finishes: "task_step E (PlannedTask aid te tb) (d, R) (plan_finish aid te tb now d, R) [] None"
| plan_fails: "task_step E (PlanFailedTask aid e) (d, R) (plan_fail E aid e now d, R) [] None"
| preflight_error: "preflight_read aid i d = Inl e \<Longrightarrow>
    task_step E (BatchTask aid i deferrals n) (d, R) (d, R) [] None"
| preflight_reply: "preflight_read aid i d = Inr (Inl reply) \<Longrightarrow>
    task_step E (BatchTask aid i deferrals n) (d, R) (d, R) [] None"
| preflight_cancel: "preflight_read aid i d = Inr (Inr (Inl bid)) \<Longrightarrow>
    task_step E (BatchTask aid i deferrals n) (d, R) (d, R) [] (Some (CancelBatchTask bid))"
| preflight_go: "preflight_read aid i d = Inr (Inr (Inr g)) \<Longrightarrow>
    task_step E (BatchTask aid i deferrals n) (d, R) (d, R) [] (Some (GateTask aid i deferrals n g))"
| batch_cancels: "task_step E (CancelBatchTask bid) (d, R) (cancel_batch bid now d, R) [] None"
| gate_error: "consume_entities (go_account_id g) (go_limit_per_minute g) (int (go_entity_count g))
      now_ms redis_ms R = (R', Inl e) \<Longrightarrow>
    task_step E (GateTask aid i deferrals n g) (d, R) (d, R') [] None"
| gate_denied: "consume_entities (go_account_id g) (go_limit_per_minute g) (int (go_entity_count g))
      now_ms redis_ms R = (R', Inr decision) \<Longrightarrow> \<not> rd_allowed decision \<Longrightarrow>
    task_step E (GateTask aid i deferrals n g) (d, R) (d, R')
      [deferred_call aid i deferrals (retry_after_ms decision)] None"
| gate_open: "consume_entities (go_account_id g) (go_limit_per_minute g) (int (go_entity_count g))
      now_ms redis_ms R = (R', Inr decision) \<Longrightarrow> rd_allowed decision \<Longrightarrow>
    task_step E (GateTask aid i deferrals n g) (d, R) (d, R') [] (Some (AttemptTask aid n g))"
| attempt: "task_step E (AttemptTask aid n g) (d, R) (mark_attempt (go_batch_id g) now d, R) []
    (Some (ReadTask aid n g))"
| work_error: "execute_read E aid (go_batch_id g) d = Inl e \<Longrightarrow>
    task_step E (ReadTask aid n g) (d, R) (d, R) [] (Some (ErrorTask aid n g e))"
| work_reply: "execute_read E aid (go_batch_id g) d = Inr (Inl reply) \<Longrightarrow>
    task_step E (ReadTask aid n g) (d, R) (d, R) [] None"
| work_go: "execute_read E aid (go_batch_id g) d = Inr (Inr w) \<Longrightarrow>
    task_step E (ReadTask aid n g) (d, R) (d, R) [] (Some (WorkTask aid n g w))"
| work_commits: "execute_work E w now d = Inr (outcomes, d') \<Longrightarrow>
    task_step E (WorkTask aid n g w) (d, R) (d', R) [] (Some (FinishTask aid n g))"
| work_raises: "execute_work E w now d = Inl e \<Longrightarrow>
    task_step E (WorkTask aid n g w) (d, R) (d, R) [] (Some (ErrorTask aid n g e))"
| work_fault: "task_step E (WorkTask aid n g w) (d, R) (d, R) [] (Some (ErrorTask aid n g e))"
| finishes: "task_step E (FinishTask aid n g) (d, R) (fst (finish_txn aid now d), R) [] None"
| finish_fault: "task_step E (FinishTask aid n g) (d, R) (d, R) [] (Some (ErrorTask aid n g e))"
| retries: "n < s_job_max_tries (e_settings E) \<Longrightarrow>
    task_step E (ErrorTask aid n g e) (d, R) (d, R) [] None"
| gives_up: "s_job_max_tries (e_settings E) \<le> n \<Longrightarrow>
    task_step E (ErrorTask aid n g e) (d, R)
      (mark_batch_failed E aid (go_batch_id g) (go_entity_count g) (e_str E e) now d, R) [] (Some (CloseTask aid))"
| closes: "task_step E (CloseTask aid) (d, R) (snd (finalize_if_complete aid now d), R) [] None"
| commits: "insert_action a d = Inr d' \<Longrightarrow> task_step E (CommitTask a) (d, R) (d', R) [] None"
| commit_conflict: "insert_action a d = Inl e \<Longrightarrow> task_step E (CommitTask a) (d, R) (d, R) [] None"

section \<open>The system\<close>

record sys =
  sy_db :: db
  sy_redis :: redis
  sy_calls :: "enqueue_call list"
  sy_tasks :: "task list"

definition submitted :: "submit_result \<Rightarrow> sys \<Rightarrow> sys" where
  "submitted r s = s\<lparr> sy_redis := sr_redis r, sy_calls := sy_calls s @ sr_calls r,
     sy_tasks := sy_tasks s @ (case sr_reply r of Inr (a, True) \<Rightarrow> [CommitTask a] | _ \<Rightarrow> []) \<rparr>"

inductive step :: "env \<Rightarrow> sys \<Rightarrow> sys \<Rightarrow> bool" for E :: env where
  run: "sy_tasks s = ts @ t # us \<Longrightarrow>
    task_step E t (sy_db s, sy_redis s) (d', R') calls t' \<Longrightarrow>
    step E s (s\<lparr> sy_db := d', sy_redis := R', sy_calls := sy_calls s @ calls,
      sy_tasks := ts @ (case t' of None \<Rightarrow> [] | Some u \<Rightarrow> [u]) @ us \<rparr>)"
| deliver: "c \<in> set (sy_calls s) \<Longrightarrow>
    step E s (s\<lparr> sy_tasks := sy_tasks s @ [task_of (q_job c) job_try] \<rparr>)"
| crash: "sy_tasks s = ts @ t # us \<Longrightarrow> step E s (s\<lparr> sy_tasks := ts @ us \<rparr>)"
| submit: "step E s (submitted (create_bulk_action E new_id ck rq (sy_redis s) (sy_db s)) s)"
| cancel: "step E s (s\<lparr> sy_db := fst (cancel_bulk_action aid now (sy_db s)) \<rparr>)"
| new_account: "new_id \<notin> acc_id ` set (db_accounts (sy_db s)) \<Longrightarrow>
    step E s (s\<lparr> sy_db := snd (create_account new_id name rate now (sy_db s)) \<rparr>)"
| patch_account: "step E s (s\<lparr> sy_db := fst (update_account acc rate (sy_db s)) \<rparr>)"
| crm_edit: "\<forall>t. distinct (map row_id (crm t)) \<Longrightarrow> step E s (s\<lparr> sy_db := (sy_db s)\<lparr> db_crm := crm \<rparr> \<rparr>)"

text \<open>The platform starts with CRM rows and accounts, and with no bulk action.\<close>

definition initial :: "sys \<Rightarrow> bool" where
  "initial s \<longleftrightarrow> db_actions (sy_db s) = [] \<and> db_batches (sy_db s) = [] \<and> db_logs (sy_db s) = [] \<and>
     db_dedup (sy_db s) = [] \<and> distinct (map acc_id (db_accounts (sy_db s))) \<and>
     (\<forall>t. distinct (map row_id (db_crm (sy_db s) t))) \<and> sy_calls s = [] \<and> sy_tasks s = []"

inductive reachable :: "env \<Rightarrow> sys \<Rightarrow> bool" for E :: env where
  start: "initial s \<Longrightarrow> reachable E s"
| more: "reachable E s \<Longrightarrow> step E s s' \<Longrightarrow> reachable E s'"

section \<open>What a running task may rely on\<close>

definition owns :: "db \<Rightarrow> uuid \<Rightarrow> uuid \<Rightarrow> bool" where
  "owns d aid bid \<longleftrightarrow> (bid, aid) \<in> batch_owner ` set (db_batches d)"

definition planner_ok :: "db \<Rightarrow> uuid \<Rightarrow> planner \<Rightarrow> bool" where
  "planner_ok d aid pl \<longleftrightarrow> aid \<in> ba_id ` set (db_actions d) \<and>
     (\<forall>r \<in> set (pl_pending pl). bb_bulk_action_id r = aid \<and> \<not> batch_reported r)"

fun task_ok :: "db \<Rightarrow> task \<Rightarrow> bool" where
  "task_ok d (OpenTask aid pl) \<longleftrightarrow> planner_ok d aid pl"
| "task_ok d (WalkTask aid pl) \<longleftrightarrow> planner_ok d aid pl"
| "task_ok d (GateTask aid i deferrals n g) \<longleftrightarrow> owns d aid (go_batch_id g)"
| "task_ok d (AttemptTask aid n g) \<longleftrightarrow> owns d aid (go_batch_id g)"
| "task_ok d (ReadTask aid n g) \<longleftrightarrow> owns d aid (go_batch_id g)"
| "task_ok d (WorkTask aid n g w) \<longleftrightarrow> owns d aid (go_batch_id g) \<and>
     owns d (ba_id (wk_action w)) (bb_id (wk_batch w)) \<and> ba_id (wk_action w) = aid \<and>
     (\<exists>t et. get_action shipped_actions t et = Inr (wk_handler w))"
| "task_ok d (FinishTask aid n g) \<longleftrightarrow> owns d aid (go_batch_id g)"
| "task_ok d (ErrorTask aid n g e) \<longleftrightarrow> owns d aid (go_batch_id g)"
| "task_ok d (CommitTask a) \<longleftrightarrow> ba_account_id a \<in> acc_id ` set (db_accounts d) \<and>
     ba_processed_count a = 0 \<and> ba_success_count a = 0 \<and> ba_failure_count a = 0 \<and> ba_skipped_count a = 0 \<and>
     ba_completed_batches a = 0 \<and> ba_total_entities a = 0 \<and> ba_total_batches a = 0 \<and>
     ba_status a \<in> {QUEUED, SCHEDULED}"
| "task_ok d _ \<longleftrightarrow> True"

definition sys_ok :: "sys \<Rightarrow> bool" where
  "sys_ok s \<longleftrightarrow> db_ok (sy_db s) \<and> list_all (task_ok (sy_db s)) (sy_tasks s)"

lemma task_ok_mono: "grows d d' \<Longrightarrow> task_ok d t \<Longrightarrow> task_ok d' t"
  by (cases t) (auto simp: owns_def planner_ok_def grows_def)

lemma tasks_ok_mono: "grows d d' \<Longrightarrow> list_all (task_ok d) ts \<Longrightarrow> list_all (task_ok d') ts"
  using task_ok_mono by (auto simp: list_all_iff)

lemma plan_read_ok: "plan_read E aid d = Inr (Inr pl) \<Longrightarrow> planner_ok d aid pl"
  by (auto simp: plan_read_def rbind_Inr planner_ok_def load_action_def split: option.splits if_splits
      dest!: find_Some_mem)

lemma plan_page_ok:
  assumes "plan_page E uuid4 now aid pl d = (d', calls, r)" and "db_ok d" and "planner_ok d aid pl"
  shows "evolves d d'" and "r = PageMore pl' \<Longrightarrow> planner_ok d' aid pl'"
proof -
  have fl: "evolves d e" if "flush aid (pl_pending pl @ rows) d = Inr (e, c)"
    and "\<forall>r \<in> set rows. bb_bulk_action_id r = aid \<and> \<not> batch_reported r" for rows e c
    by (rule flush_evolves [OF that(1) assms(2)]) (use assms(3) that(2) in \<open>auto simp: planner_ok_def\<close>)
  have new: "\<forall>r \<in> set [batch_of_planned u aid now p]. bb_bulk_action_id r = aid \<and> \<not> batch_reported r" for u p
    by (simp add: batch_of_planned_def batch_reported_def)
  show ev: "evolves d d'"
    using assms(1,2) fl [of "[]"] fl [OF _ new]
    by (auto simp: plan_page_def Let_def split: sum.splits option.splits prod.splits if_splits)
  then have "aid \<in> ba_id ` set (db_actions d')"
    using assms(3) by (auto simp: planner_ok_def evolves_def grows_def)
  then show "r = PageMore pl' \<Longrightarrow> planner_ok d' aid pl'"
    using assms(1,3) new
    by (auto simp: plan_page_def Let_def planner_ok_def split: sum.splits option.splits prod.splits if_splits)
qed

lemma preflight_read_ok: "preflight_read aid i d = Inr (Inr (Inr g)) \<Longrightarrow> owns d aid (go_batch_id g)"
  by (auto simp: preflight_read_def load_batch_def owns_def batch_owner_def image_iff
      split: option.splits if_splits dest!: find_Some_mem)

lemma execute_read_ok:
  assumes "execute_read E aid bid d = Inr (Inr w)" and "owns d aid bid" and "keys_ok d"
    and "e_actions E = shipped_actions"
  shows "owns d (ba_id (wk_action w)) (bb_id (wk_batch w))" and "ba_id (wk_action w) = aid"
    and "\<exists>t et. get_action shipped_actions t et = Inr (wk_handler w)"
proof -
  from assms(1) have "load_action d aid = Some (wk_action w)" "load_batch_by_id d bid = Some (wk_batch w)"
    and "\<exists>ent c. resolve E (wk_action w) = Inr (ent, wk_handler w, c)"
    by (auto simp: execute_read_def rbind_Inr split: option.splits if_splits)
  then show "owns d (ba_id (wk_action w)) (bb_id (wk_batch w))" and "ba_id (wk_action w) = aid"
    and "\<exists>t et. get_action shipped_actions t et = Inr (wk_handler w)"
    using assms(2,4)
    by (auto simp: load_action_def load_batch_by_id_def resolve_def rbind_Inr dest!: find_Some_mem)
qed

lemma task_step_evolves:
  assumes "task_step E t (d, R) (d', R') calls t'" and "db_ok d" and "task_ok d t"
  shows "evolves d d'"
  using assms(1)
proof cases
  case (work_commits w now outcomes aid n g)
  with assms(2,3) show ?thesis
    by (auto simp: execute_work_def owns_def dest: shipped_run_batch_evolves)
next
  case (commits a)
  with assms(2,3) show ?thesis by (auto intro: insert_action_evolves)
qed (use assms(2,3) in \<open>auto simp: owns_def intro: evolve_intros mark_batch_failed_evolves plan_page_ok(1)\<close>)

lemma task_step_ok:
  assumes "task_step E t (d, R) (d', R') calls (Some u)" and "db_ok d" and "task_ok d t"
    and "e_actions E = shipped_actions"
  shows "task_ok d' u"
proof -
  have g: "grows d d'" using task_step_evolves [OF assms(1-3)] by (simp add: evolves_def)
  have "task_ok d u \<or> task_ok d' u"
    using assms(1)
  proof cases
    case (walk_more uuid4 now aid pl pl')
    with plan_page_ok(2) assms(2,3) show ?thesis by auto
  next
    case (work_go aid g w n)
    with execute_read_ok assms(2-4) show ?thesis by (auto simp: db_ok_def)
  qed (use assms(3) in \<open>auto intro: plan_read_ok preflight_read_ok\<close>)
  with g show ?thesis by (auto intro: task_ok_mono)
qed

lemma sys_ok_db: "sys_ok s \<Longrightarrow> (db_ok (sy_db s) \<Longrightarrow> evolves (sy_db s) d') \<Longrightarrow> sys_ok (s\<lparr> sy_db := d' \<rparr>)"
  by (auto simp: sys_ok_def evolves_def intro: tasks_ok_mono)

lemma submitted_ok:
  assumes "sys_ok s"
  shows "sys_ok (submitted (create_bulk_action E new_id ck rq (sy_redis s) (sy_db s)) s)"
proof -
  let ?r = "create_bulk_action E new_id ck rq (sy_redis s) (sy_db s)"
  have "task_ok (sy_db s) (CommitTask a)" if "sr_reply ?r = Inr (a, True)" for a
    using that
  proof (rule accepted_submissionE)
    fix account ent h config
    assume "load_account (sy_db s) (rq_account_id rq) = Some account"
      and "a = new_action E new_id (ck_now ck) rq account ent h config"
    then show ?thesis
      by (auto simp: new_action_def load_account_def image_iff intro: sym dest!: find_Some_mem)
  qed
  then show ?thesis
    using assms by (auto simp: sys_ok_def submitted_def split: sum.splits bool.splits)
qed

lemma step_ok:
  assumes "step E s s'" and "sys_ok s" and "e_actions E = shipped_actions"
  shows "sys_ok s'"
  using assms(1)
proof cases
  case (run ts t us d' R' calls t')
  have t: "db_ok (sy_db s)" "task_ok (sy_db s) t" "list_all (task_ok (sy_db s)) (ts @ us)"
    using assms(2) run(2) by (auto simp: sys_ok_def)
  have ev: "evolves (sy_db s) d'" by (rule task_step_evolves [OF run(3) t(1,2)])
  moreover have "task_ok d' u" if "t' = Some u" for u
    using task_step_ok [OF run(3) [unfolded that] t(1,2) assms(3)] .
  moreover have "list_all (task_ok d') (ts @ us)"
    using ev t(3) tasks_ok_mono by (auto simp: evolves_def)
  ultimately show ?thesis by (auto simp: sys_ok_def evolves_def run(1) split: option.splits)
next
  case (deliver c job_try)
  have "task_ok d (task_of j n)" for d j n by (simp add: task_of_def split: job.splits)
  with deliver assms(2) show ?thesis by (simp add: sys_ok_def)
next
  case (submit new_id ck rq)
  with assms(2) show ?thesis by (simp add: submitted_ok)
next
  case (crash ts t us)
  with assms(2) show ?thesis by (simp add: sys_ok_def)
qed (use assms(2) in \<open>auto intro!: sys_ok_db evolve_intros\<close>)

lemma reachable_ok:
  assumes "reachable E s" and "e_actions E = shipped_actions"
  shows "sys_ok s"
  using assms(1)
proof induction
  case (start s)
  then show ?case
    by (simp add: sys_ok_def initial_def db_ok_def keys_ok_def refs_ok_def)
next
  case (more s s')
  with assms(2) show ?case by (blast intro: step_ok)
qed

section \<open>Properties of every reachable state\<close>

text \<open>
  (C1) In every state the platform can reach, whatever is submitted, delivered twice, cancelled,
  retried or lost in a crash, the counters of every action agree with its audit log: as many
  entities are counted as processed as there are log rows, as success, failure and skipped as
  there are rows with that status, so that the three add up; and no batch is finished without
  having been counted.
\<close>

theorem counters_agree_with_log:
  assumes "reachable E s" and "e_actions E = shipped_actions" and "a \<in> set (db_actions (sy_db s))"
  shows "ba_processed_count a = length (logs_of (sy_db s) (ba_id a)) \<and>
    ba_success_count a = count_logs (sy_db s) (ba_id a) L_SUCCESS \<and>
    ba_failure_count a = count_logs (sy_db s) (ba_id a) L_FAILED \<and>
    ba_skipped_count a = count_logs (sy_db s) (ba_id a) L_SKIPPED \<and>
    ba_processed_count a = ba_success_count a + ba_failure_count a + ba_skipped_count a \<and>
    reported_batches (sy_db s) (ba_id a) \<le> ba_completed_batches a"
proof -
  have "counted_ok (sy_db s) a" using reachable_ok [OF assms(1,2)] assms(3) by (auto simp: sys_ok_def db_ok_def)
  moreover have "length ls = length (filter (\<lambda>l. bl_status l = L_SUCCESS) ls) +
      length (filter (\<lambda>l. bl_status l = L_FAILED) ls) + length (filter (\<lambda>l. bl_status l = L_SKIPPED) ls)" for ls
  proof (induction ls)
    case (Cons l ls)
    then show ?case by (cases "bl_status l") auto
  qed simp
  ultimately show ?thesis by (simp add: counted_ok_def count_logs_def)
qed

text \<open>
  (C3) In every reachable state the declared keys hold: accounts, CRM rows, actions, batches and
  log rows are found by unique ids, an action has one batch per index, the de-duplication ledger
  has no entry twice; and every reference resolves: actions name an account, batches and log rows
  an action, log rows a batch of the table.
\<close>

theorem tables_stay_keyed:
  assumes "reachable E s" and "e_actions E = shipped_actions"
  shows "keys_ok (sy_db s) \<and> refs_ok (sy_db s)"
  using reachable_ok [OF assms] by (simp add: sys_ok_def db_ok_def)

section \<open>Terminal states\<close>

definition keeps_final :: "db \<Rightarrow> db \<Rightarrow> bool" where
  "keeps_final d d' \<longleftrightarrow> (\<forall>aid a. load_action d aid = Some a \<longrightarrow> is_terminal (ba_status a) \<longrightarrow>
     (\<exists>a'. load_action d' aid = Some a' \<and> ba_status a' = ba_status a))"

lemma keeps_final_trans: "keeps_final d d' \<Longrightarrow> keeps_final d' d'' \<Longrightarrow> keeps_final d d''"
  unfolding keeps_final_def by metis

lemma keeps_final_refl: "keeps_final d d"
  by (simp add: keeps_final_def)

lemma keeps_final_same: "db_actions d' = db_actions d \<Longrightarrow> keeps_final d d'"
  by (simp add: keeps_final_def load_action_def)

text \<open>An UPDATE whose WHERE clause or SET clause spares terminal rows.\<close>

lemma keeps_final_upd:
  assumes "db_actions d' = upd_where p f (db_actions d)" and "\<And>a. ba_id (f a) = ba_id a"
    and "\<And>a. p a \<Longrightarrow> is_terminal (ba_status a) \<Longrightarrow> ba_status (f a) = ba_status a"
  shows "keeps_final d d'"
proof -
  have "find (\<lambda>a. ba_id a = aid) (upd_where p f xs) =
      map_option (\<lambda>a. if p a then f a else a) (find (\<lambda>a. ba_id a = aid) xs)" for aid xs
    by (induction xs) (auto simp: assms(2))
  then show ?thesis using assms(3) by (auto simp: keeps_final_def load_action_def assms(1))
qed

lemma keeps_final_update:
  assumes "\<And>a. ba_id (f a) = ba_id a" and "\<And>a. p a \<Longrightarrow> is_terminal (ba_status a) \<Longrightarrow> ba_status (f a) = ba_status a"
  shows "keeps_final d (update_actions p f d)"
  using assms by (intro keeps_final_upd [of _ p f]) (simp_all add: update_actions_def)

lemma not_terminal [simp]:
  "\<not> is_terminal QUEUED" "\<not> is_terminal SCHEDULED" "\<not> is_terminal PLANNING" "\<not> is_terminal PROCESSING"
  by (simp_all add: is_terminal_def terminal_statuses_def)

lemma mark_started_final: "keeps_final d (mark_started aid now d)"
  unfolding mark_started_def by (rule keeps_final_update) auto

lemma fail_action_final: "keeps_final d (fail_action aid err now d)"
  unfolding fail_action_def by (rule keeps_final_update) (auto simp: terminal_values_iff)

lemma finalize_final: "keeps_final d (snd (finalize_if_complete aid now d))"
  by (auto simp: finalize_if_complete_def Let_def intro!: keeps_final_update keeps_final_refl split: option.splits)

lemma plan_finish_final: "keeps_final d (plan_finish aid te tb now d)"
proof -
  have "keeps_final d (update_actions (\<lambda>a. ba_id a = aid) (\<lambda>a. a\<lparr> ba_total_entities := te, ba_total_batches := tb \<rparr>) d)"
    by (rule keeps_final_update) simp_all
  then show ?thesis
    unfolding plan_finish_def Let_def
    by (rule keeps_final_trans) (auto intro: mark_started_final keeps_final_update)
qed

lemma cancel_final: "keeps_final d (fst (cancel_bulk_action aid now d))"
  by (auto simp: cancel_bulk_action_def session_scope_def Let_def terminal_values_iff
      intro!: keeps_final_update keeps_final_refl split: sum.splits if_splits list.splits)

lemma mark_batch_failed_final: "keeps_final d (mark_batch_failed E aid bid n err now d)"
  by (rule keeps_final_upd [OF mark_batch_failed_actions]) (simp_all add: add_counts_def)

lemma run_batch_final:
  assumes "get_action shipped_actions t n = Inr h" and "run_batch D now action batch ent h config d = Inr (outcomes, d')"
  shows "keeps_final d d'"
proof -
  have "db_actions d' = upd_where (\<lambda>a. ba_id a = ba_id action) (counted_result outcomes) (db_actions d)"
    by (rule action_handler.run_batch_spec [OF shipped_handler [OF assms(1)] assms(2)])
  then show ?thesis by (rule keeps_final_upd) (simp_all add: counted_result_def add_counts_def)
qed

lemma insert_action_final:
  assumes "insert_action a d = Inr d'"
  shows "keeps_final d d'"
proof -
  have "find p (xs @ ys) = (case find p xs of None \<Rightarrow> find p ys | Some x \<Rightarrow> Some x)" for p :: "bulk_action \<Rightarrow> bool" and xs ys
    by (induction xs) auto
  with assms show ?thesis
    by (auto simp: insert_action_def keeps_final_def load_action_def split: if_splits)
qed

lemma plan_page_actions: "plan_page E uuid4 now aid pl d = (d', calls, r) \<Longrightarrow> db_actions d' = db_actions d"
  by (auto simp: plan_page_def flush_def Let_def split: sum.splits option.splits prod.splits if_splits)

lemmas final_intros = mark_started_final fail_action_final finalize_final plan_finish_final cancel_final
  mark_batch_failed_final insert_action_final

lemma task_step_final:
  assumes "task_step E t (d, R) (d', R') calls t'" and "task_ok d t" and "\<And>aid pl. t \<noteq> OpenTask aid pl"
  shows "keeps_final d d'"
  using assms(1)
proof cases
  case (work_commits w now outcomes aid n g)
  with assms(2) show ?thesis by (auto simp: execute_work_def dest: run_batch_final)
qed (use assms(3) in \<open>auto simp: finish_txn_def plan_fail_def cancel_batch_def mark_attempt_def Let_def
       intro: final_intros keeps_final_same dest: plan_page_actions\<close>)

lemma load_plan_open_other:
  assumes "x \<noteq> aid"
  shows "load_action (plan_open x now d) aid = load_action d aid"
proof -
  have "find (\<lambda>a. ba_id a = aid) (upd_where (\<lambda>a. ba_id a = x)
      (\<lambda>a. a\<lparr> ba_status := PLANNING, ba_started_at := Some now \<rparr>) xs) = find (\<lambda>a. ba_id a = aid) xs" for xs
    using assms by (induction xs) auto
  then show ?thesis by (simp add: plan_open_def load_action_def update_actions_def)
qed

text \<open>
  (C2) A terminal status is final, with one exception: no step of the system, whether a worker, the
  planner, a submission, a cancellation, an account change or a crash, changes the status of an
  action once it is terminal, unless a planner that read the action before it became terminal is
  about to open it, and that planner sets the status back to \<open>planning\<close>.
\<close>

theorem terminal_status_is_final:
  assumes "reachable E s" and "e_actions E = shipped_actions" and "step E s s'"
    and "load_action (sy_db s) aid = Some a" and "is_terminal (ba_status a)"
  shows "\<exists>a'. load_action (sy_db s') aid = Some a' \<and>
    (ba_status a' = ba_status a \<or> (\<exists>pl. OpenTask aid pl \<in> set (sy_tasks s)) \<and> ba_status a' = PLANNING)"
  using assms(3)
proof cases
  case (run ts t us d' R' calls t')
  show ?thesis
  proof (cases "\<exists>pl. t = OpenTask aid pl")
    case True
    then have "\<exists>now. d' = plan_open aid now (sy_db s)" using run(3) by (auto elim: task_step.cases)
    with True run(1,2) assms(4) show ?thesis by (auto simp: plan_open_def load_update_planning)
  next
    case other: False
    show ?thesis
    proof (cases "\<exists>x pl. t = OpenTask x pl")
      case True
      then obtain x now where "x \<noteq> aid" "d' = plan_open x now (sy_db s)"
        using run(3) other by (auto elim: task_step.cases)
      then show ?thesis using assms(4) by (simp add: run(1) load_plan_open_other)
    next
      case False
      have "task_ok (sy_db s) t" using reachable_ok [OF assms(1,2)] run(2) by (simp add: sys_ok_def)
      then have "keeps_final (sy_db s) d'" using task_step_final [OF run(3)] False by blast
      then obtain a' where "load_action d' aid = Some a'" "ba_status a' = ba_status a"
        using assms(4,5) unfolding keeps_final_def by blast
      then show ?thesis by (simp add: run(1))
    qed
  qed
next
  case (cancel x now)
  then obtain a' where "load_action (sy_db s') aid = Some a'" "ba_status a' = ba_status a"
    using cancel_final [of "sy_db s" x now] assms(4,5) by (auto simp: keeps_final_def)
  then show ?thesis by simp
qed (use assms(4) in \<open>auto simp: submitted_def create_account_def update_account_def load_action_def Let_def
       split: sum.splits\<close>)

section \<open>A concrete run\<close>

definition example_start :: sys where
  "example_start = \<lparr> sy_db = example_db, sy_redis = (\<lambda>_. None), sy_calls = [], sy_tasks = [] \<rparr>"

definition submitted_action :: bulk_action where
  "submitted_action = new_action example_env 500 9 (example_request None) (hd (db_accounts example_db))
     contact_entity delete_handler (BulkDeleteConfig (example_delete False))"

lemma example_initial: "initial example_start"
  by (simp add: initial_def example_start_def example_db_def example_contact_def)

lemma example_validated:
  "validate_request example_env 9 (example_request None) = Inr (contact_entity, delete_handler, (BulkDeleteConfig (example_delete False)))"
  by (simp add: validate_request_def example_request_def example_env_def get_entity_def shipped_entities_def
      get_action_def shipped_actions_def supports_def delete_handler_def delete_validate_config_def
      parse_delete_config_def extra_forbid_def field_dict_opt_def field_uuids_opt_def field_bool_def
      field_str_opt_def require_a_target_set_def validate_filter_def contact_entity_def example_delete_def)

lemma example_submission:
  "\<exists>R. create_bulk_action example_env 500 \<lparr> ck_now = 9, ck_now_ms = 0, ck_redis_ms = 0 \<rparr> (example_request None)
     (\<lambda>_. None) example_db =
     \<lparr> sr_redis = R, sr_db = example_db\<lparr> db_actions := [submitted_action] \<rparr>, sr_calls = [plan_call 500 None],
       sr_reply = Inr (submitted_action, True) \<rparr>"
proof -
  obtain R dec where t: "consume_submission (e_settings example_env) 7 0 0 (\<lambda>_. None) = (R, Inr dec)" "rd_allowed dec"
    using example_token by blast
  have "get_account example_db 7 = Inr (hd (db_accounts example_db))" and "rq_account_id (example_request None) = 7"
    "rq_scheduled_at (example_request None) = None" and "find_replay example_db (example_request None) = None"
    by (simp_all add: get_account_def load_account_def example_db_def example_request_def find_replay_def)
  with t example_validated show ?thesis
    by (simp add: create_bulk_action_def insert_action_def submitted_action_def new_action_def Let_def example_db_def)
qed

abbreviation example_state :: "action_status \<Rightarrow> redis \<Rightarrow> task list \<Rightarrow> sys" where
  "example_state st R ts \<equiv> \<lparr> sy_db = example_db\<lparr> db_actions := [submitted_action\<lparr> ba_status := st \<rparr>] \<rparr>,
     sy_redis = R, sy_calls = [plan_call 500 None], sy_tasks = ts \<rparr>"

lemma submitted_action_sel [simp]:
  "ba_id submitted_action = 500" "ba_status submitted_action = QUEUED" "ba_account_id submitted_action = 7"
  by (simp_all add: submitted_action_def new_action_def example_request_def)

lemma submitted_action_queued [simp]: "submitted_action\<lparr> ba_status := QUEUED \<rparr> = submitted_action"
  by (rule bulk_action.equality) simp_all

lemma example_committed: "\<exists>R. reachable example_env (example_state QUEUED R [])"
proof -
  obtain R where c: "create_bulk_action example_env 500 \<lparr> ck_now = 9, ck_now_ms = 0, ck_redis_ms = 0 \<rparr>
      (example_request None) (sy_redis example_start) (sy_db example_start) =
     \<lparr> sr_redis = R, sr_db = example_db\<lparr> db_actions := [submitted_action] \<rparr>, sr_calls = [plan_call 500 None],
       sr_reply = Inr (submitted_action, True) \<rparr>"
    using example_submission by (auto simp: example_start_def)
  let ?s = "\<lparr> sy_db = example_db, sy_redis = R, sy_calls = [plan_call 500 None], sy_tasks = [CommitTask submitted_action] \<rparr>"
  have "step example_env example_start ?s"
    using step.submit [of example_env example_start 500 "\<lparr> ck_now = 9, ck_now_ms = 0, ck_redis_ms = 0 \<rparr>" "example_request None"]
    unfolding c by (simp add: submitted_def example_start_def)
  with example_initial have r: "reachable example_env ?s" by (meson reachable.intros)
  have "insert_action submitted_action example_db = Inr (example_db\<lparr> db_actions := [submitted_action] \<rparr>)"
    by (simp add: insert_action_def example_db_def)
  then have "step example_env ?s (example_state QUEUED R [])"
    using step.run [of ?s "[]" _ "[]", OF _ task_step.commits] by simp
  with r show ?thesis by (meson reachable.more)
qed

lemma example_plan_read:
  "\<exists>pl. plan_read example_env 500 (sy_db (example_state QUEUED R ts)) = Inr (Inr pl)"
proof -
  have "resolve example_env submitted_action = Inr (contact_entity, delete_handler, BulkDeleteConfig (example_delete False))"
    by (simp add: resolve_def submitted_action_def new_action_def example_request_def example_env_def get_entity_def
        shipped_entities_def get_action_def shipped_actions_def supports_def delete_handler_def contact_entity_def
        parse_delete_config_def extra_forbid_def field_dict_opt_def field_uuids_opt_def field_bool_def
        field_str_opt_def require_a_target_set_def example_delete_def strict_pydantic_def dump_opt_def)
  then show ?thesis by (simp add: plan_read_def load_action_def)
qed

lemma example_opening: "\<exists>R pl. reachable example_env (example_state QUEUED R [OpenTask 500 pl])"
proof -
  obtain R where r: "reachable example_env (example_state QUEUED R [])" using example_committed by blast
  have "step example_env (example_state QUEUED R []) (example_state QUEUED R [PlanTask 500])"
    using step.deliver [of "plan_call 500 None" "example_state QUEUED R []" example_env 1]
    by (simp add: plan_call_def task_of_def)
  with r have r1: "reachable example_env (example_state QUEUED R [PlanTask 500])" by (rule reachable.more)
  obtain pl where "plan_read example_env 500 (sy_db (example_state QUEUED R [PlanTask 500])) = Inr (Inr pl)"
    using example_plan_read by blast
  then have "step example_env (example_state QUEUED R [PlanTask 500]) (example_state QUEUED R [OpenTask 500 pl])"
    using step.run [of "example_state QUEUED R [PlanTask 500]" "[]" _ "[]", OF _ task_step.plan_go] by simp
  with r1 show ?thesis by (meson reachable.more)
qed

theorem counters_agree_with_log_witness:
  "\<exists>R. reachable example_env (example_state QUEUED R []) \<and>
     ba_processed_count submitted_action = length (logs_of (sy_db (example_state QUEUED R [])) 500)"
proof -
  obtain R where r: "reachable example_env (example_state QUEUED R [])" using example_committed by blast
  have "e_actions example_env = shipped_actions" by (simp add: example_env_def)
  from r counters_agree_with_log [OF r this, of submitted_action] show ?thesis by auto
qed

theorem tables_stay_keyed_witness:
  "\<exists>R pl. reachable example_env (example_state QUEUED R [OpenTask 500 pl]) \<and>
     keys_ok (sy_db (example_state QUEUED R [OpenTask 500 pl]))"
proof -
  obtain R pl where r: "reachable example_env (example_state QUEUED R [OpenTask 500 pl])"
    using example_opening by blast
  have "e_actions example_env = shipped_actions" by (simp add: example_env_def)
  from r tables_stay_keyed [OF r this] show ?thesis by blast
qed

lemma example_cancel:
  "fst (cancel_bulk_action 500 10 (sy_db (example_state QUEUED R ts))) =
   example_db\<lparr> db_actions := [submitted_action\<lparr> ba_status := CANCELLED, ba_finished_at := Some 10 \<rparr>] \<rparr>"
  by (simp add: cancel_bulk_action_def session_scope_def get_bulk_action_def load_action_def is_cancellable_def
      terminal_values_iff update_actions_def Let_def)

theorem terminal_status_is_final_witness:
  "\<exists>s s'. reachable example_env s \<and> step example_env s s' \<and>
     map_option ba_status (load_action (sy_db s) 500) = Some CANCELLED \<and>
     map_option ba_status (load_action (sy_db s') 500) = Some CANCELLED"
proof -
  obtain R where r: "reachable example_env (example_state QUEUED R [])" using example_committed by blast
  let ?s = "(example_state QUEUED R [])\<lparr> sy_db := fst (cancel_bulk_action 500 10 (sy_db (example_state QUEUED R []))) \<rparr>"
  let ?s' = "?s\<lparr> sy_db := fst (update_account 7 5 (sy_db ?s)) \<rparr>"
  have s: "reachable example_env ?s" using r step.cancel by (rule reachable.more)
  have l: "load_action (sy_db ?s) 500 = Some (submitted_action\<lparr> ba_status := CANCELLED, ba_finished_at := Some 10 \<rparr>)"
    using example_cancel [of R "[]"] by (simp add: load_action_def)
  have st: "step example_env ?s ?s'" by (rule step.patch_account)
  have e: "e_actions example_env = shipped_actions" by (simp add: example_env_def)
  obtain a' where "load_action (sy_db ?s') 500 = Some a'" "ba_status a' = CANCELLED"
    using terminal_status_is_final [OF s e st l] by (auto simp: is_terminal_def terminal_statuses_def)
  with s st l show ?thesis by (intro exI [of _ ?s] exI [of _ ?s']) simp
qed

section \<open>A cancellation the planner does not see\<close>

text \<open>
  (C36) A cancellation can be lost. The planner's first transaction reads the action and then sets
  its status by id alone. In every state where a planner has read an action that is not finished,
  a cancellation is accepted and answered with \<open>cancelled\<close>, and the planner's next statement puts
  the action back to \<open>planning\<close> and goes on to enqueue its batches.
\<close>

theorem cancel_lost_to_planner:
  assumes "sy_tasks s = ts @ OpenTask aid pl # us" and "load_action (sy_db s) aid = Some a"
    and "\<not> is_terminal (ba_status a)"
  shows "\<exists>s1 s2 reply. step E s s1 \<and> sy_db s1 = fst (cancel_bulk_action aid now (sy_db s)) \<and>
    snd (cancel_bulk_action aid now (sy_db s)) = Inr reply \<and> ba_status reply = CANCELLED \<and>
    step E s1 s2 \<and> map_option ba_status (load_action (sy_db s2) aid) = Some PLANNING \<and>
    sy_tasks s2 = ts @ WalkTask aid pl # us"
proof -
  let ?d = "fst (cancel_bulk_action aid now (sy_db s))"
  let ?s1 = "s\<lparr> sy_db := ?d \<rparr>"
  let ?s2 = "?s1\<lparr> sy_db := plan_open aid now ?d, sy_tasks := ts @ WalkTask aid pl # us \<rparr>"
  have "filter (\<lambda>b. ba_id b = aid \<and> action_status_value (ba_status b) \<notin> set terminal_values) (db_actions (sy_db s)) \<noteq> []"
    using assms(2,3) by (auto simp: load_action_def terminal_values_iff filter_empty_conv dest!: find_Some_mem)
  moreover have "load_action (update_actions (\<lambda>b. ba_id b = aid \<and> action_status_value (ba_status b) \<notin> set terminal_values)
      (\<lambda>b. b\<lparr> ba_status := CANCELLED, ba_finished_at := Some now \<rparr>) (sy_db s)) aid =
      Some (a\<lparr> ba_status := CANCELLED, ba_finished_at := Some now \<rparr>)"
    using assms(2,3) by (simp add: load_action_def update_actions_def finished.find_guarded terminal_values_iff)
  ultimately have c: "snd (cancel_bulk_action aid now (sy_db s)) = Inr (a\<lparr> ba_status := CANCELLED, ba_finished_at := Some now \<rparr>)"
    and l: "load_action ?d aid = Some (a\<lparr> ba_status := CANCELLED, ba_finished_at := Some now \<rparr>)"
    using assms(2,3)
    by (auto simp: cancel_bulk_action_def session_scope_def get_bulk_action_def is_cancellable_def Let_def split: list.splits)
  have "step E ?s1 ?s2"
    using step.run [of ?s1 ts "OpenTask aid pl" us E, OF _ task_step.plan_opens] assms(1) by simp
  moreover have "map_option ba_status (load_action (sy_db ?s2) aid) = Some PLANNING"
    using l by (simp add: plan_open_def load_update_planning)
  moreover have "step E s ?s1" by (rule step.cancel)
  ultimately show ?thesis
    using c by (intro exI [of _ ?s1] exI [of _ ?s2] exI [of _ "a\<lparr> ba_status := CANCELLED, ba_finished_at := Some now \<rparr>"]) simp
qed

theorem cancel_lost_to_planner_witness:
  "\<exists>R pl s1 s2. reachable example_env (example_state QUEUED R [OpenTask 500 pl]) \<and>
     step example_env (example_state QUEUED R [OpenTask 500 pl]) s1 \<and> step example_env s1 s2 \<and>
     map_option ba_status (load_action (sy_db s2) 500) = Some PLANNING"
proof -
  obtain R pl where r: "reachable example_env (example_state QUEUED R [OpenTask 500 pl])"
    using example_opening by blast
  have "sy_tasks (example_state QUEUED R [OpenTask 500 pl]) = [] @ OpenTask 500 pl # []"
    and "load_action (sy_db (example_state QUEUED R [OpenTask 500 pl])) 500 = Some submitted_action"
    and "\<not> is_terminal (ba_status submitted_action)"
    by (simp_all add: load_action_def)
  from cancel_lost_to_planner [OF this, of example_env 10] r show ?thesis by blast
qed

end
