(* ===== verification/EndToEnd.thy ===== *)
theory EndToEnd
  imports System
begin

text \<open>
  From submission to the end: planning an action and then running every batch job it enqueued, one
  after the other in any order, with any faults of the database, closes the action. The
  transactions are those of Tasks; what the theory adds is that each job moves the action forward
  (\<open>advanced\<close>), the jobs of the other batches stay to be done, and the sums meet the plan's
  totals.
\<close>

section \<open>One batch job\<close>

definition booked :: "bulk_action \<Rightarrow> nat \<Rightarrow> bulk_action \<Rightarrow> bool" where
  "booked a m a' \<longleftrightarrow> ba_status a' = ba_status a \<and> ba_total_entities a' = ba_total_entities a \<and>
     ba_total_batches a' = ba_total_batches a \<and>
     ba_processed_count a + m \<le> ba_processed_count a' \<and> ba_completed_batches a + 1 \<le> ba_completed_batches a'"

definition advanced :: "bulk_action \<Rightarrow> nat \<Rightarrow> bulk_action \<Rightarrow> bool" where
  "advanced a m a' \<longleftrightarrow>
     ba_status a' = (if ba_status a = PROCESSING \<and> ba_total_batches a \<le> ba_completed_batches a'
       then (if 0 < ba_failure_count a' then COMPLETED_WITH_ERRORS else COMPLETED) else ba_status a) \<and>
     ba_total_entities a' = ba_total_entities a \<and> ba_total_batches a' = ba_total_batches a \<and>
     ba_processed_count a + m \<le> ba_processed_count a' \<and> ba_completed_batches a + 1 \<le> ba_completed_batches a'"

lemma booked_more: "booked a m a1 \<Longrightarrow> booked a1 n a2 \<Longrightarrow> booked a m a2"
  by (auto simp: booked_def)

lemma finalize_advances:
  assumes "db_ok d" and "load_action d aid = Some a1" and "booked a m a1"
  shows "\<exists>a'. load_action (snd (finalize_if_complete aid now d)) aid = Some a' \<and> advanced a m a'"
proof -
  have "distinct (map ba_id (db_actions d))" using assms(1) by (simp add: db_ok_def keys_ok_def)
  from load_finalize [OF this assms(2), of now] assms(3) show ?thesis
    by (auto simp: final_status_def booked_def advanced_def split: option.splits if_splits)
qed

lemma mark_batch_failed_books:
  "load_action d aid = Some a \<Longrightarrow>
   \<exists>a'. load_action (mark_batch_failed E aid bid n err now d) aid = Some a' \<and> booked a n a'"
  by (simp add: load_mark_batch_failed booked_def add_counts_def)

lemma find_upd_other:
  "(\<And>r. r \<in> set rows \<Longrightarrow> p r \<Longrightarrow> \<not> q r \<and> \<not> q (g r)) \<Longrightarrow> find q (upd_where p g rows) = find q rows"
  by (induction rows) auto

text \<open>Updating one batch leaves the other slots of its action alone.\<close>

lemma load_batch_other:
  assumes "distinct (map bb_id (db_batches d))" and "b \<in> set (db_batches d)" and "batch_slot b \<noteq> (aid, j)"
    and "\<And>x. batch_slot (g x) = batch_slot x" and "db_batches d' = upd_where (\<lambda>x. bb_id x = bb_id b \<and> q x) g (db_batches d)"
  shows "load_batch d' aid j = load_batch d aid j"
proof -
  have "batch_slot x \<noteq> (aid, j) \<and> batch_slot (g x) \<noteq> (aid, j)" if "x \<in> set (db_batches d)" "bb_id x = bb_id b" for x
  proof -
    have "x = b" using that assms(1,2) by (auto simp: distinct_map inj_on_def)
    then show ?thesis using assms(3,4) by simp
  qed
  then show ?thesis
    unfolding load_batch_def assms(5) by (intro find_upd_other) (auto simp: batch_slot_def)
qed

lemma mark_batch_failed_other:
  assumes "distinct (map bb_id (db_batches d))" and "b \<in> set (db_batches d)" and "batch_slot b \<noteq> (aid, j)"
  shows "load_batch (mark_batch_failed E x (bb_id b) n err now d) aid j = load_batch d aid j"
  by (rule load_batch_other [OF assms, where q = "\<lambda>_. True"]) (simp_all add: mark_batch_failed_batches batch_slot_def)

lemma finalize_load_batch [simp]: "load_batch (snd (finalize_if_complete aid now d)) = load_batch d"
  by (simp add: load_batch_def fun_eq_iff)

lemma try_execute_InrE:
  assumes "try_execute E fx aid bid now d = (d1, Inr (Inr outcomes))"
  obtains w where "execute_read E aid bid d = Inr (Inr w)" and "execute_work E w now d = Inr (outcomes, d1)"
  using assms
  by (auto simp: try_execute_def execute_txn_def session_scope_def split: option.splits sum.splits prod.splits)

lemma executed_batch:
  assumes "execute_read E aid (bb_id b) d = Inr (Inr w)" and "execute_work E w now d = Inr (outcomes, d1)"
    and "db_ok d" and "e_actions E = shipped_actions" and "b \<in> set (db_batches d)" and "bb_bulk_action_id b = aid"
    and "load_action d aid = Some a"
  shows "evolves d d1" and "\<exists>a1. load_action d1 aid = Some a1 \<and> booked a (bb_entity_count b) a1"
    and "batch_slot b \<noteq> (aid, j) \<Longrightarrow> load_batch d1 aid j = load_batch d aid j"
    and "\<exists>b1 \<in> set (db_batches d1). bb_id b1 = bb_id b \<and> batch_slot b1 = batch_slot b"
proof -
  have k: "keys_ok d" "distinct (map bb_id (db_batches d))" using assms(3) by (auto simp: db_ok_def keys_ok_def)
  have o: "owns d aid (bb_id b)" using assms(5,6) by (auto simp: owns_def batch_owner_def)
  from execute_read_ok [OF assms(1) o k(1) assms(4)] obtain t et
    where h: "get_action shipped_actions t et = Inr (wk_handler w)" and ow: "owns d (ba_id (wk_action w)) (bb_id (wk_batch w))"
    by blast
  have "load_batch_by_id d (bb_id b) = Some b" using find_unique [OF k(2) assms(5)] by (simp add: load_batch_by_id_def)
  then have w: "wk_action w = a" "wk_batch w = b"
    using assms(1,7) by (auto simp: execute_read_def rbind_Inr split: if_splits)
  have aid: "ba_id a = aid" using assms(7) find_Some_mem [of _ "db_actions d" a] by (auto simp: load_action_def)
  note rb = assms(2) [unfolded execute_work_def w]
  show ev: "evolves d d1"
    using shipped_run_batch_evolves [OF h rb assms(3)] ow by (simp add: owns_def w)
  have s: "db_actions d1 = upd_where (\<lambda>x. ba_id x = ba_id a) (counted_result outcomes) (db_actions d)"
    "db_batches d1 = upd_where (\<lambda>x. bb_id x = bb_id b) (completed_with outcomes now) (db_batches d)"
    by (rule action_handler.run_batch_spec [OF shipped_handler [OF h] rb], assumption)+
  have len: "bb_entity_count b \<le> length outcomes"
    by (rule action_handler.run_batch_spec [OF shipped_handler [OF h] rb]) simp
  have "load_action d1 aid = Some (counted_result outcomes a)"
    using assms(7) by (simp add: load_action_def s aid counted_result_def counted.find_updated)
  with len show "\<exists>a1. load_action d1 aid = Some a1 \<and> booked a (bb_entity_count b) a1"
    by (simp add: booked_def counted_result_def add_counts_def)
  show "load_batch d1 aid j = load_batch d aid j" if "batch_slot b \<noteq> (aid, j)"
    by (rule load_batch_other [OF k(2) assms(5) that, where q = "\<lambda>_. True"])
      (simp_all add: s completed_with_def batch_slot_def)
  show "\<exists>b1 \<in> set (db_batches d1). bb_id b1 = bb_id b \<and> batch_slot b1 = batch_slot b"
    using assms(5) by (intro bexI [of _ "completed_with outcomes now b"])
      (auto simp: s set_upd_where completed_with_def batch_slot_def)
qed

text \<open>Giving up on a batch, from a state where the action may already have been counted up.\<close>

lemma on_batch_error_advances:
  assumes "on_batch_error E n aid (bb_id b) m e now d = (d', reply)" and "s_job_max_tries (e_settings E) \<le> n"
    and "db_ok d" and "b \<in> set (db_batches d)" and "bb_bulk_action_id b = aid" and "load_action d aid = Some a"
  shows "evolves d d'" and "\<exists>a'. load_action d' aid = Some a' \<and> advanced a m a'"
    and "booked c k a \<Longrightarrow> \<exists>a'. load_action d' aid = Some a' \<and> advanced c k a'"
    and "batch_slot b \<noteq> (aid, j) \<Longrightarrow> load_batch d' aid j = load_batch d aid j"
proof -
  let ?x = "mark_batch_failed E aid (bb_id b) m (e_str E e) now d"
  have d': "d' = snd (finalize_if_complete aid now ?x)" using assms(1,2) by (simp add: on_batch_error_def)
  have k: "distinct (map bb_id (db_batches d))" using assms(3) by (auto simp: db_ok_def keys_ok_def)
  have ev: "evolves d ?x"
    by (rule mark_batch_failed_evolves [OF assms(3)]) (use assms(4,5) in \<open>auto simp: batch_owner_def\<close>)
  then show "evolves d d'" unfolding d' by (rule evolves_trans) (rule finalize_evolves)
  obtain a1 where a1: "load_action ?x aid = Some a1" "booked a m a1" using mark_batch_failed_books [OF assms(6)] by blast
  have ok: "db_ok ?x" using ev by (simp add: evolves_def)
  show "\<exists>a'. load_action d' aid = Some a' \<and> advanced a m a'"
    unfolding d' by (rule finalize_advances [OF ok a1])
  show "\<exists>a'. load_action d' aid = Some a' \<and> advanced c k a'" if "booked c k a"
    unfolding d' by (rule finalize_advances [OF ok a1(1) booked_more [OF that a1(2)]])
  show "load_batch d' aid j = load_batch d aid j" if "batch_slot b \<noteq> (aid, j)"
    unfolding d' by (simp add: mark_batch_failed_other [OF k assms(4) that])
qed

text \<open>The work of a job that is not deferred on its last try: it always ends, reports its batch, and leaves the
  others alone.\<close>

lemma run_work_advances:
  assumes "run_work E fx n aid (bb_id b) (bb_entity_count b) now d = (d', pub, reply)"
    and "db_ok d" and "e_actions E = shipped_actions" and "s_job_max_tries (e_settings E) \<le> n"
    and "b \<in> set (db_batches d)" and "bb_bulk_action_id b = aid" and "bb_status b \<noteq> B_COMPLETED"
    and "load_action d aid = Some a"
  shows "evolves d d' \<and> (\<exists>a'. load_action d' aid = Some a' \<and> advanced a (bb_entity_count b) a') \<and>
    (batch_slot b \<noteq> (aid, j) \<longrightarrow> load_batch d' aid j = load_batch d aid j)"
proof -
  let ?m = "bb_entity_count b"
  have k: "distinct (map bb_id (db_batches d))" using assms(2) by (auto simp: db_ok_def keys_ok_def)
  have by_id: "load_batch_by_id d (bb_id b) = Some b" using find_unique [OF k assms(5)] by (simp add: load_batch_by_id_def)
  consider (raised) e where "try_execute E fx aid (bb_id b) now d = (d, Inl e)"
    | (worked) d1 outcomes where "try_execute E fx aid (bb_id b) now d = (d1, Inr (Inr outcomes))"
  proof (cases "try_execute E fx aid (bb_id b) now d")
    case (Pair d1 r)
    have "r \<noteq> Inr (Inl reply')" for reply'
      using Pair by_id assms(7,8)
      by (auto simp: try_execute_def execute_txn_def execute_read_def session_scope_def rbind_def
          split: option.splits sum.splits prod.splits)
    with Pair that try_execute_rollback show thesis by (metis sum.exhaust)
  qed
  then show ?thesis
  proof cases
    case (raised e)
    then obtain reply' where "on_batch_error E n aid (bb_id b) ?m e now d = (d', reply')"
      using assms(1) by (auto simp: run_work_def split: prod.splits)
    from on_batch_error_advances [OF this assms(4,2,5,6,8)] show ?thesis by blast
  next
    case (worked d1 outcomes)
    then obtain w where w: "execute_read E aid (bb_id b) d = Inr (Inr w)" "execute_work E w now d = Inr (outcomes, d1)"
      by (rule try_execute_InrE)
    note X = executed_batch [OF w assms(2,3,5,6,8)]
    from X(2) obtain a1 where a1: "load_action d1 aid = Some a1" "booked a ?m a1" by blast
    from X(4) obtain b1 where b1: "b1 \<in> set (db_batches d1)" "bb_id b1 = bb_id b" "batch_slot b1 = batch_slot b" by blast
    have ok1: "db_ok d1" using X(1) by (simp add: evolves_def)
    show ?thesis
    proof (cases "fx_finish fx")
      case None
      then have "d' = snd (finalize_if_complete aid now d1)"
        using assms(1) worked by (auto simp: run_work_def finish_txn_def Let_def)
      with finalize_advances [OF ok1 a1] evolves_trans [OF X(1) finalize_evolves] X(3) show ?thesis by simp
    next
      case (Some e)
      then obtain reply' where e: "on_batch_error E n aid (bb_id b1) ?m e now d1 = (d', reply')"
        using assms(1) worked b1(2) by (auto simp: run_work_def split: prod.splits)
      have "bb_bulk_action_id b1 = aid" using b1(3) assms(6) by (simp add: batch_slot_def)
      note Y = on_batch_error_advances [OF e assms(4) ok1 b1(1) this a1(1)]
      from Y(3) [OF a1(2)] Y(4) evolves_trans [OF X(1) Y(1)] X(3) b1(3) show ?thesis by simp
    qed
  qed
qed

section \<open>All the jobs of an action\<close>

text \<open>The jobs of one action, one after the other: index, faults and clock of each.\<close>

fun run_jobs :: "env \<Rightarrow> int \<Rightarrow> uuid \<Rightarrow> (nat \<times> faults \<times> clock) list \<Rightarrow> redis \<Rightarrow> db \<Rightarrow> batch_reply result list \<times> db" where
  "run_jobs E n aid [] R d = ([], d)"
| "run_jobs E n aid ((i, fx, ck) # js) R d =
     (let t = process_batch E fx ck n aid i 0 R d;
          (replies, d') = run_jobs E n aid js (tr_redis t) (tr_db t)
      in (tr_reply t # replies, d'))"

text \<open>A job got past the pre-flight check and the limiter.\<close>

fun not_deferred :: "batch_reply result \<Rightarrow> bool" where
  "not_deferred (Inl e) = False"
| "not_deferred (Inr (RateLimited ms)) = False"
| "not_deferred (Inr r) = True"

lemma job_advances:
  assumes "not_deferred (tr_reply (process_batch E fx ck n aid i df R d))" and "db_ok d"
    and "e_actions E = shipped_actions" and "s_job_max_tries (e_settings E) \<le> n"
    and "load_batch d aid i = Some b" and "bb_status b \<noteq> B_COMPLETED"
    and "load_action d aid = Some a" and "ba_status a \<noteq> CANCELLED"
  shows "evolves d (tr_db (process_batch E fx ck n aid i df R d)) \<and>
    (\<exists>a'. load_action (tr_db (process_batch E fx ck n aid i df R d)) aid = Some a' \<and> advanced a (bb_entity_count b) a') \<and>
    (\<forall>j. j \<noteq> i \<longrightarrow> load_batch (tr_db (process_batch E fx ck n aid i df R d)) aid j = load_batch d aid j)"
proof -
  let ?t = "process_batch E fx ck n aid i df R d" and ?now = "ck_now ck"
  have b: "b \<in> set (db_batches d)" "bb_bulk_action_id b = aid" "bb_batch_index b = i"
    using assms(5) by (auto simp: load_batch_def dest: find_Some_mem)
  have k: "distinct (map bb_id (db_batches d))" using assms(2) by (auto simp: db_ok_def keys_ok_def)
  let ?g = "\<lambda>b. b\<lparr> bb_status := B_PROCESSING, bb_attempts := bb_attempts b + 1, bb_started_at := Some ?now \<rparr>"
  let ?d = "mark_attempt (bb_id b) ?now d"
  obtain d2 pub reply where w: "run_work E fx n aid (bb_id b) (bb_entity_count b) ?now ?d = (d2, pub, reply)"
    by (cases "run_work E fx n aid (bb_id b) (bb_entity_count b) ?now ?d")
  have t: "tr_db ?t = d2"
    using assms(1,5-8) w
    by (auto simp: process_batch_def preflight_def preflight_read_def session_scope_def
        split: option.splits sum.splits prod.splits if_splits)
  have ev: "evolves d ?d" by (rule mark_attempt_evolves [OF assms(2)])
  have gb: "?g b \<in> set (db_batches ?d)"
    using b(1) assms(6) by (auto simp: mark_attempt_def update_batches_def set_upd_where)
  have W: "evolves ?d d2 \<and> (\<exists>a'. load_action d2 aid = Some a' \<and> advanced a (bb_entity_count b) a') \<and>
      (batch_slot b \<noteq> (aid, j) \<longrightarrow> load_batch d2 aid j = load_batch ?d aid j)" for j
    using run_work_advances [of E fx n aid "?g b" ?now ?d d2 pub reply a j] w ev gb assms(3,4,7) b(2)
    by (simp add: evolves_def batch_slot_def) (simp add: mark_attempt_def)
  have "load_batch ?d aid j = load_batch d aid j" if "j \<noteq> i" for j
    by (rule load_batch_other [OF k b(1), where q = "\<lambda>x. bb_status x \<noteq> B_COMPLETED" and g = ?g])
      (use that b in \<open>auto simp: mark_attempt_def update_batches_def batch_slot_def\<close>)
  with W evolves_trans [OF ev] b(2,3) show ?thesis by (auto simp: t batch_slot_def)
qed

definition running :: "bulk_action \<Rightarrow> bool" where
  "running a \<longleftrightarrow> ba_status a \<in> {PROCESSING, COMPLETED, COMPLETED_WITH_ERRORS}"

definition settled :: "bulk_action \<Rightarrow> bool" where
  "settled a \<longleftrightarrow> (ba_total_batches a \<le> ba_completed_batches a \<longrightarrow> ba_status a \<noteq> PROCESSING)"

lemma advanced_running: "advanced a m a' \<Longrightarrow> running a \<Longrightarrow> running a' \<and> settled a'"
  by (auto simp: advanced_def running_def settled_def)

lemma run_jobs_advance:
  assumes "run_jobs E n aid js R d = (replies, d')" and "list_all not_deferred replies" and "db_ok d"
    and "e_actions E = shipped_actions" and "s_job_max_tries (e_settings E) \<le> n" and "distinct (map fst js)"
    and "\<And>i. i \<in> fst ` set js \<Longrightarrow> \<exists>b. load_batch d aid i = Some b \<and> bb_status b \<noteq> B_COMPLETED \<and> bb_entity_count b = cnt i"
    and "load_action d aid = Some a" and "running a" and "js \<noteq> [] \<or> settled a"
  shows "db_ok d' \<and> (\<exists>a'. load_action d' aid = Some a' \<and> running a' \<and> settled a' \<and>
    ba_total_entities a' = ba_total_entities a \<and> ba_total_batches a' = ba_total_batches a \<and>
    ba_processed_count a + sum_list (map cnt (map fst js)) \<le> ba_processed_count a' \<and>
    ba_completed_batches a + length js \<le> ba_completed_batches a')"
  using assms(1,2,3,6-)
proof (induction js arbitrary: R d replies a)
  case (Cons j js)
  obtain i fx ck where j: "j = (i, fx, ck)" by (cases j)
  let ?t = "process_batch E fx ck n aid i 0 R d"
  obtain rs where rs: "run_jobs E n aid js (tr_redis ?t) (tr_db ?t) = (rs, d')" "replies = tr_reply ?t # rs"
    using Cons.prems(1) by (auto simp: j Let_def split: prod.splits)
  obtain b where b: "load_batch d aid i = Some b" "bb_status b \<noteq> B_COMPLETED" "bb_entity_count b = cnt i"
    using Cons.prems(5) [of i] by (auto simp: j)
  have "not_deferred (tr_reply ?t)" and adm: "list_all not_deferred rs" using Cons.prems(2) rs(2) by simp_all
  moreover have "ba_status a \<noteq> CANCELLED" using Cons.prems(7) by (auto simp: running_def)
  ultimately have J: "evolves d (tr_db ?t) \<and>
      (\<exists>a1. load_action (tr_db ?t) aid = Some a1 \<and> advanced a (bb_entity_count b) a1) \<and>
      (\<forall>k. k \<noteq> i \<longrightarrow> load_batch (tr_db ?t) aid k = load_batch d aid k)"
    by (intro job_advances) (use Cons.prems(3,6) assms(4,5) b(1,2) in simp_all)
  then obtain a1 where a1: "load_action (tr_db ?t) aid = Some a1" "advanced a (cnt i) a1" using b(3) by auto
  have "\<exists>b. load_batch (tr_db ?t) aid k = Some b \<and> bb_status b \<noteq> B_COMPLETED \<and> bb_entity_count b = cnt k"
    if "k \<in> fst ` set js" for k
    using that Cons.prems(4) Cons.prems(5) [of k] J by (auto simp: j)
  with Cons.IH [OF rs(1) adm _ _ _ a1(1)] J Cons.prems(4) advanced_running [OF a1(2) Cons.prems(7)]
  obtain a' where "db_ok d'" "load_action d' aid = Some a'" "running a'" "settled a'" "ba_total_entities a' = ba_total_entities a1"
    "ba_total_batches a' = ba_total_batches a1" "ba_processed_count a1 + sum_list (map cnt (map fst js)) \<le> ba_processed_count a'"
    "ba_completed_batches a1 + length js \<le> ba_completed_batches a'"
    by (auto simp: evolves_def)
  with a1(2) show ?case by (auto simp: j advanced_def)
qed auto

section \<open>The plan\<close>

text \<open>A generator numbers its batches in order.\<close>

fun numbered :: "nat \<Rightarrow> plan_gen \<Rightarrow> bool" where
  "numbered k (FilterGen ps last_id index finished) \<longleftrightarrow> index = k"
| "numbered k (IdsGen bs) \<longleftrightarrow> map pb_index bs = [k..<k + length bs]"

lemma gen_next_numbered:
  assumes "gen_next D ent n rows g = Inr (Some (p, g'))" and "numbered k g"
  shows "pb_index p = k" and "numbered (Suc k) g'"
proof -
  have "pb_index p = k \<and> numbered (Suc k) g'"
  proof (cases g)
    case (IdsGen bs)
    with assms show ?thesis by (cases bs) (auto simp: upt_conv_Cons simp del: upt_Suc)
  qed (use assms in \<open>auto split: if_splits sum.splits\<close>)
  then show "pb_index p = k" and "numbered (Suc k) g'" by auto
qed

lemma plan_batches_numbered:
  assumes "plan_batches ent acc n flt ids incl = Inr g"
  shows "numbered 0 g"
proof -
  have "map pb_index (map (\<lambda>(i, c). ids_batch i c) (enumerate k cs)) = [k..<k + length cs]" for k cs
    by (induction cs arbitrary: k) (simp_all add: upt_conv_Cons del: upt_Suc)
  from this [of 0] assms show ?thesis
    by (auto simp: plan_batches_def plan_from_ids_def split: option.splits sum.splits if_splits)
qed

lemma plan_page_more:
  assumes "plan_page E uuid4 now aid pl d = (d1, calls, PageMore pl1)" and "pl_gen pl = Inr g"
  obtains p g' row where "gen_next (e_driver E) (pl_entity pl) (ba_batch_size (pl_action pl))
      (db_crm d (ent_table (pl_entity pl))) g = Inr (Some (p, g'))"
    and "row = batch_of_planned (uuid4 (pl_total_batches pl)) aid now p" and "pl_gen pl1 = Inr g'"
    and "pl_total_entities pl1 = pl_total_entities pl + pb_entity_count p"
    and "pl_total_batches pl1 = Suc (pl_total_batches pl)"
    and "d1 = d \<and> calls = [] \<and> pl_pending pl1 = pl_pending pl @ [row] \<or>
      d1 = d\<lparr> db_batches := ins_ignore batch_slot (db_batches d) (pl_pending pl @ [row]) \<rparr> \<and>
      calls = map (\<lambda>row. batch_call aid (bb_batch_index row)) (pl_pending pl @ [row]) \<and> pl_pending pl1 = []"
  using assms
  by (auto simp: plan_page_def flush_def Let_def split: sum.splits option.splits prod.splits if_splits)

lemma plan_loop_rows:
  assumes "plan_loop E uuid4 now aid pl d = (d', calls, Inr pl')" and "pl_gen pl = Inr g"
    and "numbered (pl_total_batches pl) g"
  shows "\<exists>rows. d' = d\<lparr> db_batches := ins_ignore batch_slot (db_batches d) (pl_pending pl @ rows) \<rparr> \<and>
    calls = map (\<lambda>row. batch_call aid (bb_batch_index row)) (pl_pending pl @ rows) \<and>
    map batch_slot rows = map (Pair aid) [pl_total_batches pl..<pl_total_batches pl'] \<and>
    list_all (\<lambda>r. bb_status r = B_PENDING) rows \<and>
    pl_total_entities pl' = pl_total_entities pl + sum_list (map bb_entity_count rows) \<and>
    pl_total_batches pl \<le> pl_total_batches pl'"
  using assms
proof (induction E uuid4 now aid pl d arbitrary: d' calls pl' g rule: plan_loop.induct)
  case (1 E uuid4 now aid pl d)
  obtain d1 c1 r where p: "plan_page E uuid4 now aid pl d = (d1, c1, r)" by (cases "plan_page E uuid4 now aid pl d")
  show ?case
  proof (cases r)
    case (PageFailed e)
    with 1(2) p show ?thesis by (subst (asm) plan_loop.simps) simp
  next
    case (PageLast pl1)
    with 1(2) p have e: "d' = d1" "calls = c1" "pl' = pl1" by (subst (asm) plan_loop.simps, simp)+
    from p PageLast 1(3) show ?thesis
      by (intro exI [of _ "[]"])
        (auto simp: e plan_page_def flush_def Let_def split: sum.splits option.splits prod.splits if_splits)
  next
    case (PageMore pl1)
    with 1(2) p obtain c2 where rest: "plan_loop E uuid4 now aid pl1 d1 = (d', c2, Inr pl')" "calls = c1 @ c2"
      by (subst (asm) plan_loop.simps) (auto split: prod.splits)
    from p PageMore 1(3) obtain q g' row where nxt: "gen_next (e_driver E) (pl_entity pl) (ba_batch_size (pl_action pl))
        (db_crm d (ent_table (pl_entity pl))) g = Inr (Some (q, g'))"
      and row: "row = batch_of_planned (uuid4 (pl_total_batches pl)) aid now q" and g': "pl_gen pl1 = Inr g'"
      and tot: "pl_total_entities pl1 = pl_total_entities pl + pb_entity_count q"
        "pl_total_batches pl1 = Suc (pl_total_batches pl)"
      and eff: "d1 = d \<and> c1 = [] \<and> pl_pending pl1 = pl_pending pl @ [row] \<or>
        d1 = d\<lparr> db_batches := ins_ignore batch_slot (db_batches d) (pl_pending pl @ [row]) \<rparr> \<and>
        c1 = map (\<lambda>row. batch_call aid (bb_batch_index row)) (pl_pending pl @ [row]) \<and> pl_pending pl1 = []"
      using plan_page_more [of E uuid4 now aid pl d d1 c1 pl1 g] by metis
    note num = gen_next_numbered [OF nxt 1(4)]
    from 1(1) [OF p [symmetric] refl PageMore rest(1) g'] num(2) tot(2)
    obtain rows where R: "d' = d1\<lparr> db_batches := ins_ignore batch_slot (db_batches d1) (pl_pending pl1 @ rows) \<rparr>"
      "c2 = map (\<lambda>row. batch_call aid (bb_batch_index row)) (pl_pending pl1 @ rows)"
      "map batch_slot rows = map (Pair aid) [Suc (pl_total_batches pl)..<pl_total_batches pl']"
      "list_all (\<lambda>r. bb_status r = B_PENDING) rows"
      "pl_total_entities pl' = pl_total_entities pl1 + sum_list (map bb_entity_count rows)"
      "Suc (pl_total_batches pl) \<le> pl_total_batches pl'" by auto
    have "batch_slot row = (aid, pl_total_batches pl)" "bb_status row = B_PENDING" "bb_entity_count row = pb_entity_count q"
      using num(1) by (simp_all add: row batch_of_planned_def batch_slot_def)
    with R eff tot rest(2) show ?thesis
      by (intro exI [of _ "row # rows"]) (auto simp: ins_ignore_append upt_conv_Cons simp del: upt_Suc)
  qed
qed

lemma plan_loop_evolves:
  assumes "plan_loop E uuid4 now aid pl d = (d', calls, r)" and "db_ok d" and "planner_ok d aid pl"
  shows "evolves d d'"
  using assms
proof (induction E uuid4 now aid pl d arbitrary: d' calls r rule: plan_loop.induct)
  case (1 E uuid4 now aid pl d)
  obtain d1 c1 q where p: "plan_page E uuid4 now aid pl d = (d1, c1, q)" by (cases "plan_page E uuid4 now aid pl d")
  note ok = plan_page_ok [OF p 1(3,4)]
  show ?case
  proof (cases q)
    case (PageMore pl1)
    with 1(2) p obtain c2 where rest: "plan_loop E uuid4 now aid pl1 d1 = (d', c2, r)"
      by (subst (asm) plan_loop.simps) (auto split: prod.splits)
    from ok(1) show ?thesis
      by (rule evolves_trans) (rule 1(1) [OF p [symmetric] refl PageMore rest _ ok(2) [OF PageMore]])
  qed (use 1(2) p ok(1) in \<open>subst (asm) plan_loop.simps, simp\<close>)+
qed

lemma plan_read_no_plan: "plan_read E aid d \<noteq> Inr (Inl (Planned te tb))"
  by (auto simp: plan_read_def rbind_def split: option.splits sum.splits)

lemma planned_read:
  assumes "plan_bulk_action E uuid4 now aid d = (d', calls, Inr (Planned te tb))"
  shows "\<exists>pl. plan_read E aid d = Inr (Inr pl)"
proof (cases "plan_read E aid d")
  case (Inl e)
  with assms show ?thesis by (simp add: plan_bulk_action_def plan_start_def session_scope_def)
next
  case (Inr x)
  show ?thesis
  proof (cases x)
    case (Inl reply)
    with Inr assms have "reply = Planned te tb"
      by (simp add: plan_bulk_action_def plan_start_def session_scope_def)
    with Inr Inl show ?thesis using plan_read_no_plan by blast
  qed (use Inr in blast)
qed

text \<open>A planning pass that returned has opened the action, inserted the rows of its batches and closed
  the plan.\<close>

lemma plan_bulk_actionE:
  assumes "plan_bulk_action E uuid4 now aid d = (d', calls, Inr (Planned te tb))" and "db_ok d"
  obtains a0 rows where "db_ok d'" and "load_action d aid = Some a0"
    and "d' = plan_finish aid te tb now ((plan_open aid now d)\<lparr> db_batches := ins_ignore batch_slot (db_batches d) rows \<rparr>)"
    and "calls = map (\<lambda>row. batch_call aid (bb_batch_index row)) rows"
    and "map batch_slot rows = map (Pair aid) [0..<tb]" and "list_all (\<lambda>r. bb_status r = B_PENDING) rows"
    and "te = sum_list (map bb_entity_count rows)"
proof -
  obtain pl where r: "plan_read E aid d = Inr (Inr pl)"
    using planned_read [OF assms(1)] by blast
  let ?d1 = "plan_open aid now d"
  obtain d2 c res where l: "plan_loop E uuid4 now aid pl ?d1 = (d2, c, res)" by (cases "plan_loop E uuid4 now aid pl ?d1")
  then obtain pl' where res: "res = Inr pl'"
    using assms(1) r by (cases res) (simp_all add: plan_bulk_action_def plan_start_def session_scope_def)
  with l assms(1) r have lp: "plan_loop E uuid4 now aid pl ?d1 = (d2, calls, Inr pl')"
    and d': "d' = plan_finish aid te tb now d2" and tot: "te = pl_total_entities pl'" "tb = pl_total_batches pl'"
    by (auto simp: plan_bulk_action_def plan_start_def session_scope_def)
  obtain a0 where a0: "load_action d aid = Some a0"
    using r by (auto simp: plan_read_def split: option.splits)
  have pl: "pl_pending pl = []" "pl_total_batches pl = 0" "pl_total_entities pl = 0"
    "\<exists>ent n acc f i b. pl_gen pl = plan_batches ent acc n f i b"
    using r by (auto simp: plan_read_def rbind_Inr split: option.splits if_splits) blast
  have ev1: "evolves d ?d1" by (rule plan_open_evolves [OF assms(2)])
  then have "planner_ok ?d1 aid pl"
    using plan_read_ok [OF r] by (auto simp: planner_ok_def evolves_def grows_def)
  with ev1 lp have "evolves d d2" by (auto intro: evolves_trans plan_loop_evolves)
  then have ok: "db_ok d'" unfolding d' using plan_finish_evolves by (auto simp: evolves_def)
  obtain g where g: "pl_gen pl = Inr g"
  proof (cases "pl_gen pl")
    case (Inl e)
    with lp show thesis by (subst (asm) plan_loop.simps) (simp add: plan_page_def)
  qed (rule that)
  show thesis
    using that [OF ok a0] plan_loop_rows [OF lp g] plan_batches_numbered pl g
    by (auto simp: tot d') (simp add: plan_open_def)
qed

text \<open>For an action that had no batches, every planned batch is there and waiting.\<close>

lemma planned_state:
  assumes "plan_bulk_action E uuid4 now aid d = (d', calls, Inr (Planned te tb))" and "db_ok d"
    and "aid \<notin> bb_bulk_action_id ` set (db_batches d)"
  obtains a rows where "db_ok d'" and "load_action d' aid = Some a"
    and "ba_total_entities a = te" and "ba_total_batches a = tb"
    and "ba_status a = (if tb = 0 then COMPLETED else PROCESSING)"
    and "map q_job calls = map (\<lambda>i. BatchJob aid i 0) [0..<tb]"
    and "length rows = tb" and "te = sum_list (map bb_entity_count rows)"
    and "\<And>i. i < tb \<Longrightarrow> load_batch d' aid i = Some (rows ! i) \<and> bb_status (rows ! i) = B_PENDING"
  using assms(1,2)
proof (rule plan_bulk_actionE)
  fix a0 rows
  assume ok: "db_ok d'" and a0: "load_action d aid = Some a0"
    and d': "d' = plan_finish aid te tb now ((plan_open aid now d)\<lparr> db_batches := ins_ignore batch_slot (db_batches d) rows \<rparr>)"
    and calls: "calls = map (\<lambda>row. batch_call aid (bb_batch_index row)) rows"
    and slots: "map batch_slot rows = map (Pair aid) [0..<tb]" and pend: "list_all (\<lambda>r. bb_status r = B_PENDING) rows"
    and te: "te = sum_list (map bb_entity_count rows)"
  have len: "length rows = tb" using arg_cong [OF slots, of length] by simp
  have "map bb_batch_index rows = map snd (map batch_slot rows)" by (simp add: batch_slot_def)
  then have idx: "map bb_batch_index rows = [0..<tb]" by (simp add: slots comp_def)
  have "load_action ((plan_open aid now d)\<lparr> db_batches := bs \<rparr>) aid =
      Some (a0\<lparr> ba_status := PLANNING, ba_started_at := Some now \<rparr>)" for bs
    using load_update_planning [where s = PLANNING and t = "Some now"] by (simp add: load_action_def plan_open_def a0 [unfolded load_action_def])
  then have a: "load_action d' aid \<noteq> None" and st: "\<And>x. load_action d' aid = Some x \<Longrightarrow>
      ba_total_entities x = te \<and> ba_total_batches x = tb \<and> ba_status x = (if tb = 0 then COMPLETED else PROCESSING)"
    by (auto simp: d' load_plan_finish Let_def)
  have "fst s = aid" if "s \<in> set (map batch_slot rows)" for s using that unfolding slots by auto
  then have own: "bb_bulk_action_id r = aid" if "r \<in> set rows" for r
    using that by (metis batch_slot_def fst_conv imageI list.set_map)
  have "batch_slot ` set rows \<inter> batch_slot ` set (db_batches d) = {}"
    using assms(3) own by (auto simp: batch_slot_def dest: own)
  moreover have "distinct (map batch_slot rows)" by (simp add: slots distinct_map inj_on_def)
  ultimately have bats: "db_batches d' = db_batches d @ rows" by (simp add: d' ins_ignore_fresh)
  have "load_batch d' aid i = Some (rows ! i)" if "i < tb" for i
  proof -
    have "rows ! i \<in> set (db_batches d')" using that len by (simp add: bats)
    moreover have "batch_slot (rows ! i) = (aid, i)" using arg_cong [OF slots, of "\<lambda>xs. xs ! i"] that len by simp
    moreover have "distinct (map batch_slot (db_batches d'))" using ok by (simp add: db_ok_def keys_ok_def batch_slot_eq)
    ultimately show ?thesis
      using find_unique [of batch_slot "db_batches d'" "rows ! i"] by (simp add: load_batch_def batch_slot_def)
  qed
  moreover have "map q_job calls = map (\<lambda>i. BatchJob aid i 0) [0..<tb]"
    using arg_cong [OF idx, of "map (\<lambda>i. BatchJob aid i 0)"] by (simp add: calls batch_call_def comp_def)
  ultimately show thesis
    using that [OF ok _ _ _ _ _ len te] a st len pend by (auto simp: list_all_length)
qed

section \<open>From plan to close\<close>


lemma example_planned:
  "\<exists>d1. plan_bulk_action example_env (\<lambda>i. 300 + of_nat i) 9 100 queued_db = (d1, [batch_call 100 0], Inr (Planned 2 1)) \<and>
     db_batches d1 = [batch_of_planned 300 100 9 (range_batch 0 [1, 2])] \<and> db_accounts d1 = db_accounts example_db \<and>
     map_option (\<lambda>a. (ba_status a, ba_account_id a)) (load_action d1 100) = Some (PROCESSING, 7)"
proof -
  let ?a = "example_action QUEUED example_age_update" and ?g = "FilterGen [SAccount 7, SIsNull ''deleted_at''] None 0 False"
  have l: "load_action queued_db 100 = Some ?a" "\<not> is_terminal (ba_status ?a)"
    by (simp_all add: load_action_def queued_db_def example_action_def)
  have tab: "ent_table contact_entity = ''contacts''" "e_driver example_env = plain_driver"
    by (simp_all add: contact_entity_def example_env_def)
  have g: "plan_batches contact_entity (ba_account_id ?a) (ba_batch_size ?a) (selection_filters example_age_update)
      (explicit_ids example_age_update) (h_include_deleted update_handler) = Inr ?g"
    using example_select(1)
    by (simp add: plan_batches_def example_action_def update_handler_def example_age_update_def example_update_def)
  have page: "fetch_page plain_driver contact_entity [SAccount 7, SIsNull ''deleted_at''] None 10 (db_crm queued_db ''contacts'') = Inr [1, 2]"
    by (simp add: fetch_page_def example_select(2)) (simp add: example_contact_def)
  have all: "plan_all (e_driver example_env) contact_entity (ba_batch_size ?a)
      (\<lambda>_. db_crm queued_db (ent_table contact_entity)) 0 ?g = Inr [range_batch 0 [1, 2]]"
    by (subst plan_all.simps) (simp add: tab page example_action_def plan_all_finished)
  have pk: "distinct (map bb_id (ins_ignore batch_slot (db_batches queued_db)
      (planned_rows (\<lambda>i. 300 + of_nat i) 9 100 0 [range_batch 0 [1, 2]])))"
    by (simp add: queued_db_def example_db_def ins_ignore_def)
  from plan_bulk_action_all [OF l example_resolve g all pk] show ?thesis
    by (auto simp: queued_db_def example_db_def ins_ignore_def example_action_def range_batch_def)
qed


end
