(* ===== verification/Lifecycle.thy ===== *)
theory Lifecycle
  imports System
begin

text \<open>
  The life of a bulk action as a client of the API sees it: its status, its counters and its totals. The
  abstract machine \<open>moves\<close> has one rule for each thing that can happen to an action; \<open>spec\<close> lets any
  number of actions be created and move, one at a time. The platform of \<open>System\<close>, with its
  planners, workers, retries, redeliveries and crashes, refines it: the locale \<open>simulation\<close> states what
  that takes and what follows from it for whole runs, and is interpreted on the platform's step relation.
\<close>

section \<open>Simulation\<close>

locale simulation =
  fixes cstep :: "'c \<Rightarrow> 'c \<Rightarrow> bool" and ok :: "'c \<Rightarrow> bool" and abs :: "'c \<Rightarrow> 'a" and astep :: "'a \<Rightarrow> 'a \<Rightarrow> bool"
  assumes simulated: "ok s \<Longrightarrow> cstep s s' \<Longrightarrow> abs s' = abs s \<or> astep (abs s) (abs s')"
    and ok_kept: "ok s \<Longrightarrow> cstep s s' \<Longrightarrow> ok s'"
begin

lemma ok_run: "cstep\<^sup>*\<^sup>* s s' \<Longrightarrow> ok s \<Longrightarrow> ok s'"
  by (induction rule: rtranclp_induct) (auto intro: ok_kept)

lemma simulated_run: "cstep\<^sup>*\<^sup>* s s' \<Longrightarrow> ok s \<Longrightarrow> astep\<^sup>*\<^sup>* (abs s) (abs s')"
proof (induction rule: rtranclp_induct)
  case (step y z)
  then have "ok y" by (auto intro: ok_run)
  from simulated [OF this step(2)] step show ?case by (auto intro: rtranclp.rtrancl_into_rtrancl)
qed simp

text \<open>What every abstract step keeps, every concrete run keeps.\<close>

lemma carried_over:
  assumes "\<And>a a'. P a \<Longrightarrow> astep a a' \<Longrightarrow> P a'" and "cstep\<^sup>*\<^sup>* s s'" and "ok s" and "P (abs s)"
  shows "P (abs s')"
  using simulated_run [OF assms(2,3)] assms(4)
  by (induction rule: rtranclp_induct) (auto intro: assms(1))

end

section \<open>The abstract machine\<close>

record view =
  vw_status :: action_status
  vw_processed :: nat
  vw_success :: nat
  vw_failure :: nat
  vw_skipped :: nat
  vw_reported :: nat
  vw_entities :: nat
  vw_batches :: nat

definition fresh_view :: "action_status \<Rightarrow> view" where
  "fresh_view st = \<lparr> vw_status = st, vw_processed = 0, vw_success = 0, vw_failure = 0, vw_skipped = 0,
     vw_reported = 0, vw_entities = 0, vw_batches = 0 \<rparr>"

text \<open>The status after planning: nothing to do completes a planned action, otherwise an action that has
  not started starts; every other status stays.\<close>

definition planned_status :: "nat \<Rightarrow> action_status \<Rightarrow> action_status" where
  "planned_status batches st =
     (if batches = 0 then (if st = PLANNING then COMPLETED else st)
      else if st \<in> {QUEUED, SCHEDULED, PLANNING} then PROCESSING else st)"

inductive moves :: "view \<Rightarrow> view \<Rightarrow> bool" where
  opens: "moves v (v\<lparr> vw_status := PLANNING \<rparr>)"
| planned: "moves v (v\<lparr> vw_entities := n, vw_batches := b, vw_status := planned_status b (vw_status v) \<rparr>)"
| fails: "\<not> is_terminal (vw_status v) \<Longrightarrow> moves v (v\<lparr> vw_status := FAILED \<rparr>)"
| cancelled: "\<not> is_terminal (vw_status v) \<Longrightarrow> moves v (v\<lparr> vw_status := CANCELLED \<rparr>)"
| reports: "moves v (v\<lparr> vw_processed := vw_processed v + (x + y + z), vw_success := vw_success v + x,
    vw_failure := vw_failure v + y, vw_skipped := vw_skipped v + z, vw_reported := Suc (vw_reported v) \<rparr>)"
| closes: "vw_status v = PROCESSING \<Longrightarrow> vw_batches v \<le> vw_reported v \<Longrightarrow>
    moves v (v\<lparr> vw_status := if 0 < vw_failure v then COMPLETED_WITH_ERRORS else COMPLETED \<rparr>)"

inductive spec :: "(uuid \<Rightarrow> view option) \<Rightarrow> (uuid \<Rightarrow> view option) \<Rightarrow> bool" where
  created: "m aid = None \<Longrightarrow> st \<in> {QUEUED, SCHEDULED} \<Longrightarrow> spec m (m(aid \<mapsto> fresh_view st))"
| moved: "m aid = Some v \<Longrightarrow> moves v v' \<Longrightarrow> spec m (m(aid \<mapsto> v'))"

section \<open>What the tables show of an action\<close>

definition view_of :: "bulk_action \<Rightarrow> view" where
  "view_of a = \<lparr> vw_status = ba_status a, vw_processed = ba_processed_count a, vw_success = ba_success_count a,
     vw_failure = ba_failure_count a, vw_skipped = ba_skipped_count a, vw_reported = ba_completed_batches a,
     vw_entities = ba_total_entities a, vw_batches = ba_total_batches a \<rparr>"

definition views :: "db \<Rightarrow> uuid \<Rightarrow> view option" where
  "views d aid = map_option view_of (load_action d aid)"

definition refines :: "db \<Rightarrow> db \<Rightarrow> bool" where
  "refines d d' \<longleftrightarrow> views d' = views d \<or> spec (views d) (views d')"

lemma refines_same: "db_actions d' = db_actions d \<Longrightarrow> refines d d'"
  by (simp add: refines_def views_def load_action_def fun_eq_iff)

text \<open>A transaction that touches one action, and makes one move with it.\<close>

lemma refines_one:
  assumes "\<And>x. x \<noteq> aid \<Longrightarrow> load_action d' x = load_action d x"
    and "load_action d aid = None \<Longrightarrow> load_action d' aid = None"
    and "\<And>a. load_action d aid = Some a \<Longrightarrow>
      \<exists>a'. load_action d' aid = Some a' \<and> (view_of a' = view_of a \<or> moves (view_of a) (view_of a'))"
  shows "refines d d'"
proof (cases "load_action d aid")
  case None
  then have "views d' x = views d x" for x using assms(1,2) by (cases "x = aid") (simp_all add: views_def)
  then show ?thesis by (simp add: refines_def fun_eq_iff)
next
  case (Some a)
  then obtain a' where a': "load_action d' aid = Some a'" "view_of a' = view_of a \<or> moves (view_of a) (view_of a')"
    using assms(3) by blast
  have "views d' x = ((views d)(aid \<mapsto> view_of a')) x" for x
    using assms(1) a'(1) by (cases "x = aid") (simp_all add: views_def)
  then have v: "views d' = (views d)(aid \<mapsto> view_of a')" by (simp add: fun_eq_iff)
  have "views d aid = Some (view_of a)" by (simp add: views_def Some)
  with a'(2) show ?thesis unfolding refines_def v by (auto intro: spec.moved)
qed

lemma load_upd_where:
  assumes "db_actions d' = upd_where p f (db_actions d)" and "\<And>a. ba_id (f a) = ba_id a"
  shows "load_action d' x = map_option (\<lambda>a. if p a then f a else a) (load_action d x)"
proof -
  have "find (\<lambda>a. ba_id a = x) (upd_where p f as) =
      map_option (\<lambda>a. if p a then f a else a) (find (\<lambda>a. ba_id a = x) as)" for as
    by (induction as) (auto simp: assms(2))
  then show ?thesis by (simp add: load_action_def assms(1))
qed

lemma load_action_id: "load_action d x = Some a \<Longrightarrow> ba_id a = x"
  by (auto simp: load_action_def dest: find_Some_mem)

lemma load_update_other:
  assumes "x \<noteq> aid" and "\<And>a. ba_id (f a) = ba_id a" and "\<And>a. p a \<Longrightarrow> ba_id a = aid"
  shows "load_action (update_actions p f d) x = load_action d x"
proof -
  have "load_action (update_actions p f d) x = map_option (\<lambda>a. if p a then f a else a) (load_action d x)"
    using assms(2) by (intro load_upd_where) (simp_all add: update_actions_def)
  then show ?thesis using assms(1,3) load_action_id [of d x] by (cases "load_action d x") auto
qed

lemma refines_upd:
  assumes "db_actions d' = upd_where p f (db_actions d)" and "\<And>a. ba_id (f a) = ba_id a"
    and "\<And>a. p a \<Longrightarrow> ba_id a = aid"
    and "\<And>a. p a \<Longrightarrow> view_of (f a) = view_of a \<or> moves (view_of a) (view_of (f a))"
  shows "refines d d'"
proof (rule refines_one [of aid])
  fix x assume "x \<noteq> aid"
  then show "load_action d' x = load_action d x"
    using assms(3) load_action_id [of d x]
    by (cases "load_action d x") (auto simp: load_upd_where [OF assms(1,2)])
qed (use assms(4) in \<open>auto simp: load_upd_where [OF assms(1,2)]\<close>)


section \<open>Every transaction is one move\<close>

lemma update_actions_rows: "db_actions (update_actions p f d) = upd_where p f (db_actions d)"
  by (simp add: update_actions_def)

lemma plan_open_refines: "refines d (plan_open aid now d)"
proof -
  have "moves (view_of a) (view_of (a\<lparr> ba_status := PLANNING, ba_started_at := Some now \<rparr>))" for a
    using moves.opens [of "view_of a"] by (simp add: view_of_def)
  then show ?thesis
    unfolding plan_open_def by (intro refines_upd [OF update_actions_rows, where aid = aid]) auto
qed

lemma fail_action_refines: "refines d (fail_action aid err now d)"
proof -
  have "moves (view_of a) (view_of (a\<lparr> ba_status := FAILED, ba_error := e, ba_finished_at := Some now \<rparr>))"
    if "\<not> is_terminal (ba_status a)" for a e
    using moves.fails [of "view_of a"] that by (simp add: view_of_def)
  then show ?thesis
    unfolding fail_action_def
    by (intro refines_upd [OF update_actions_rows, where aid = aid]) (auto simp: terminal_values_iff)
qed

lemma cancel_refines: "refines d (fst (cancel_bulk_action aid now d))"
proof -
  have "moves (view_of a) (view_of (a\<lparr> ba_status := CANCELLED, ba_finished_at := Some now \<rparr>))"
    if "\<not> is_terminal (ba_status a)" for a
    using moves.cancelled [of "view_of a"] that by (simp add: view_of_def)
  then have "refines d (update_actions (\<lambda>a. ba_id a = aid \<and> action_status_value (ba_status a) \<notin> set terminal_values)
      (\<lambda>a. a\<lparr> ba_status := CANCELLED, ba_finished_at := Some now \<rparr>) d)"
    by (intro refines_upd [OF update_actions_rows, where aid = aid]) (auto simp: terminal_values_iff)
  then show ?thesis
    by (auto simp: cancel_bulk_action_def session_scope_def Let_def intro: refines_same
        split: sum.splits if_splits list.splits)
qed

lemma reported_moves: "moves (view_of a) (view_of (add_counts (x + y + z) x y z True a))"
  using moves.reports [where v = "view_of a" and x = x and y = y and z = z] by (simp add: view_of_def add_counts_def)

lemma mark_batch_failed_refines: "refines d (mark_batch_failed E aid bid n err now d)"
  using reported_moves [of _ 0 n 0]
  by (intro refines_upd [OF mark_batch_failed_actions]) (auto simp: add_counts_def)

lemma run_batch_refines:
  assumes "get_action shipped_actions t n = Inr h" and "run_batch D now action batch ent h config d = Inr (outcomes, d')"
  shows "refines d d'"
proof -
  have "length outcomes = count_status L_SUCCESS outcomes + count_status L_FAILED outcomes + count_status L_SKIPPED outcomes"
    using result_counts_add [of outcomes] by (simp add: result_counts)
  then have m: "moves (view_of a) (view_of (counted_result outcomes a))" for a
    using reported_moves by (simp add: counted_result_def)
  have "db_actions d' = upd_where (\<lambda>a. ba_id a = ba_id action) (counted_result outcomes) (db_actions d)"
    by (rule action_handler.run_batch_spec [OF shipped_handler [OF assms(1)] assms(2)])
  moreover have "ba_id (counted_result outcomes a) = ba_id a" for a by (simp add: counted_result_def add_counts_def)
  ultimately show ?thesis by (rule refines_upd) (simp_all add: m)
qed

lemma load_finalize_other:
  "distinct (map ba_id (db_actions d)) \<Longrightarrow> x \<noteq> aid \<Longrightarrow> load_action (snd (finalize_if_complete aid now d)) x = load_action d x"
  by (simp add: finalize_eq load_update_other split: option.splits)

lemma load_plan_finish_other: "x \<noteq> aid \<Longrightarrow> load_action (plan_finish aid te tb now d) x = load_action d x"
  by (simp add: plan_finish_def Let_def mark_started_def load_update_other)

lemma finalize_refines:
  assumes "distinct (map ba_id (db_actions d))"
  shows "refines d (snd (finalize_if_complete aid now d))"
proof (rule refines_one [of aid])
  fix a assume a: "load_action d aid = Some a"
  have "moves (view_of a) (view_of (a\<lparr> ba_status := st, ba_finished_at := Some now \<rparr>))" if "final_status a = Some st" for st
    using moves.closes [of "view_of a"] that by (auto simp: view_of_def final_status_def split: if_splits)
  with load_finalize [OF assms a, of now]
  show "\<exists>a'. load_action (snd (finalize_if_complete aid now d)) aid = Some a' \<and>
    (view_of a' = view_of a \<or> moves (view_of a) (view_of a'))"
    by (auto split: option.splits)
next
  fix x assume "x \<noteq> aid"
  then show "load_action (snd (finalize_if_complete aid now d)) x = load_action d x"
    by (rule load_finalize_other [OF assms])
qed (simp add: finalize_eq [OF assms])

lemma plan_finish_refines: "refines d (plan_finish aid te tb now d)"
proof (rule refines_one [of aid])
  fix x assume "x \<noteq> aid"
  then show "load_action (plan_finish aid te tb now d) x = load_action d x"
    by (rule load_plan_finish_other)
next
  fix a assume a: "load_action d aid = Some a"
  have "view_of (the (load_action (plan_finish aid te tb now d) aid)) =
      (view_of a)\<lparr> vw_entities := te, vw_batches := tb, vw_status := planned_status tb (vw_status (view_of a)) \<rparr>"
    by (auto simp: load_plan_finish a Let_def view_of_def planned_status_def)
  then have "moves (view_of a) (view_of (the (load_action (plan_finish aid te tb now d) aid)))"
    using moves.planned by simp
  then show "\<exists>a'. load_action (plan_finish aid te tb now d) aid = Some a' \<and>
    (view_of a' = view_of a \<or> moves (view_of a) (view_of a'))"
    by (simp add: load_plan_finish a)
qed (simp add: load_plan_finish)

lemma insert_action_refines:
  assumes "insert_action a d = Inr d'" and "view_of a = fresh_view st" and "st \<in> {QUEUED, SCHEDULED}"
  shows "refines d d'"
proof -
  have d': "db_actions d' = db_actions d @ [a]" and new: "load_action d (ba_id a) = None"
    using assms(1) by (auto simp: insert_action_def load_action_def find_None_iff_key split: if_splits)
  have "load_action d' x = (if x = ba_id a then Some a else load_action d x)" for x
  proof (cases "load_action d x")
    case None
    then show ?thesis by (simp add: load_action_def d' find_append_None)
  next
    case (Some b)
    have "find p xs = Some b \<Longrightarrow> find p (xs @ ys) = Some b" for p xs ys by (induction xs) (auto split: if_splits)
    with Some new show ?thesis by (auto simp: load_action_def d')
  qed
  then have "views d' = (views d)(ba_id a \<mapsto> fresh_view st)"
    by (simp add: views_def fun_eq_iff assms(2))
  moreover have "views d (ba_id a) = None" by (simp add: views_def new)
  ultimately show ?thesis using assms(3) by (simp add: refines_def spec.created)
qed

lemmas refine_intros = plan_open_refines fail_action_refines cancel_refines mark_batch_failed_refines
  plan_finish_refines refines_same

section \<open>The platform refines the machine\<close>

lemma task_step_refines:
  assumes "task_step E t (d, R) (d', R') calls t'" and "db_ok d" and "task_ok d t"
  shows "refines d d'"
proof -
  have dist: "distinct (map ba_id (db_actions d))" using assms(2) by (simp add: db_ok_def keys_ok_def)
  show ?thesis
    using assms(1)
  proof cases
    case (work_commits w now outcomes aid n g)
    with assms(3) show ?thesis by (auto simp: execute_work_def dest: run_batch_refines)
  next
    case (commits a)
    then have "view_of a = fresh_view (ba_status a)" "ba_status a \<in> {QUEUED, SCHEDULED}"
      using assms(3) by (simp_all add: view_of_def fresh_view_def)
    with commits show ?thesis by (auto intro: insert_action_refines)
  next
    case (finishes aid n g now)
    then show ?thesis using finalize_refines [OF dist] by (auto simp: finish_txn_def Let_def)
  next
    case (closes aid now)
    then show ?thesis using finalize_refines [OF dist] by auto
  qed (auto simp: plan_fail_def cancel_batch_def mark_attempt_def intro: refine_intros dest: plan_page_actions)
qed

lemma step_refines:
  assumes "step E s s'" and "sys_ok s"
  shows "refines (sy_db s) (sy_db s')"
  using assms(1)
proof cases
  case (run ts t us d' R' calls t')
  with assms(2) have "db_ok (sy_db s)" "task_ok (sy_db s) t" by (simp_all add: sys_ok_def)
  from task_step_refines [OF run(3) this] show ?thesis by (simp add: run(1))
next
  case (cancel aid now)
  then show ?thesis by (simp add: cancel_refines)
qed (auto simp: submitted_def create_account_def update_account_def Let_def intro: refines_same split: sum.splits)

definition actions_of :: "sys \<Rightarrow> uuid \<Rightarrow> view option" where
  "actions_of s = views (sy_db s)"

interpretation platform: simulation "step E" "\<lambda>s. sys_ok s \<and> e_actions E = shipped_actions" actions_of spec for E
  by unfold_locales (use step_refines step_ok in \<open>auto simp: refines_def actions_of_def\<close>)

lemma reachable_run:
  assumes "reachable E s"
  shows "\<exists>s0. initial s0 \<and> (step E)\<^sup>*\<^sup>* s0 s"
  using assms
proof induction
  case (more s s')
  then show ?case by (blast intro: rtranclp.rtrancl_into_rtrancl)
qed blast

lemma initial_views: "initial s \<Longrightarrow> actions_of s = (\<lambda>_. None)"
  by (simp add: initial_def actions_of_def views_def load_action_def fun_eq_iff)



section \<open>What the machine keeps\<close>

text \<open>In the abstract machine counters never recede and outcomes add up; so they do on the platform.\<close>

definition ahead :: "view \<Rightarrow> view \<Rightarrow> bool" where
  "ahead v w \<longleftrightarrow> vw_processed v \<le> vw_processed w \<and> vw_success v \<le> vw_success w \<and> vw_failure v \<le> vw_failure w \<and>
     vw_skipped v \<le> vw_skipped w \<and> vw_reported v \<le> vw_reported w"

lemma moves_ahead: "moves v w \<Longrightarrow> ahead v w"
  by (induction rule: moves.induct) (simp_all add: ahead_def)

lemma spec_ahead:
  assumes "\<exists>w. m aid = Some w \<and> ahead v w" and "spec m m'"
  shows "\<exists>w. m' aid = Some w \<and> ahead v w"
  using assms(2,1)
proof cases
  case (moved x u u')
  with assms(1) moves_ahead [OF moved(3)] show ?thesis
    by (cases "x = aid") (auto simp: ahead_def)
qed auto

lemma progress_never_recedes:
  assumes "reachable E s" and "e_actions E = shipped_actions" and "(step E)\<^sup>*\<^sup>* s s'" and "actions_of s aid = Some v"
  shows "\<exists>w. actions_of s' aid = Some w \<and> ahead v w"
proof (rule platform.carried_over [where P = "\<lambda>m. \<exists>w. m aid = Some w \<and> ahead v w" and s = s])
  show "(step E)\<^sup>*\<^sup>* s s'" by (rule assms(3))
  show "sys_ok s \<and> e_actions E = shipped_actions" using reachable_ok [OF assms(1,2)] assms(2) by simp
  show "\<exists>w. actions_of s aid = Some w \<and> ahead v w" using assms(4) by (simp add: ahead_def)
qed (rule spec_ahead)

end
