(* ===== verification/Hazards.thy ===== *)
theory Hazards
  imports EndToEnd Lifecycle
begin

text \<open>
  Two hazards of at-least-once delivery that the guards of \<open>app/workers/tasks.py\<close> do not cover: two
  deliveries of one batch that overlap, and a plan job that runs again over a table that has changed.
\<close>

section \<open>Two deliveries of one batch\<close>

lemma run_task:
  assumes "sy_tasks s = ts @ t # us" and "task_step E t (sy_db s, sy_redis s) (d', sy_redis s) [] (Some u)"
  shows "step E s (s\<lparr> sy_db := d', sy_tasks := ts @ u # us \<rparr>)"
  using step.run [OF assms] by simp

lemma execute_read_work:
  assumes "execute_read E aid bid d = Inr (Inr w)"
  shows "load_action d aid = Some (wk_action w)" and "load_batch_by_id d bid = Some (wk_batch w)"
    and "\<exists>ent c. resolve E (wk_action w) = Inr (ent, wk_handler w, c)"
  using assms by (auto simp: execute_read_def rbind_Inr split: option.splits if_splits)

text \<open>What the work transaction leaves, whichever rows it found.\<close>

lemma execute_work_books:
  assumes "get_action shipped_actions t n = Inr (wk_handler w)" and "execute_work E w now d = Inr (os, d')"
    and "load_action d (ba_id (wk_action w)) = Some a" and "load_batch_by_id d (bb_id (wk_batch w)) = Some b"
  shows "load_action d' (ba_id (wk_action w)) = Some (counted_result os a)"
    and "load_batch_by_id d' (bb_id (wk_batch w)) = Some (completed_with os now b)"
proof -
  note spec = action_handler.run_batch_spec [OF shipped_handler [OF assms(1)] assms(2) [unfolded execute_work_def]]
  have "db_actions d' = upd_where (\<lambda>a. ba_id a = ba_id (wk_action w)) (counted_result os) (db_actions d)"
    and "db_batches d' = upd_where (\<lambda>b. bb_id b = bb_id (wk_batch w)) (completed_with os now) (db_batches d)"
    by (rule spec, assumption)+
  moreover have "find (\<lambda>b. bb_id b = k) (upd_where (\<lambda>b. bb_id b = k) (completed_with os now) bs) =
      map_option (completed_with os now) (find (\<lambda>b. bb_id b = k) bs)" for bs k
    by (induction bs) (auto simp: completed_with_def)
  ultimately show "load_action d' (ba_id (wk_action w)) = Some (counted_result os a)"
    and "load_batch_by_id d' (bb_id (wk_batch w)) = Some (completed_with os now b)"
    using assms(3,4) counted_result_def counted.find_updated
    by (simp_all add: load_action_def load_batch_by_id_def)
qed

text \<open>
  (C37) Two deliveries of one batch that overlap are both counted. The guard against a completed batch is
  a plain read. Two workers that both read the batch before either has committed both run it, both
  commit, and the action's counters then include the batch twice: the number of reported batches goes up by
  two, the processed counter by both runs. A worker that reads after the first commit is turned away.
\<close>

theorem overlapping_deliveries_count_twice:
  assumes "sy_tasks s = ts @ ReadTask aid n g # ReadTask aid n' g' # us" and "go_batch_id g' = go_batch_id g"
    and "execute_read E aid (go_batch_id g) (sy_db s) = Inr (Inr w)" and "e_actions E = shipped_actions"
    and "execute_work E w now (sy_db s) = Inr (os, d1)" and "execute_work E w now' d1 = Inr (os', d2)"
  shows "\<exists>s' a'. (step E)\<^sup>*\<^sup>* s s' \<and> sy_db s' = d2 \<and>
    sy_tasks s' = ts @ FinishTask aid n g # FinishTask aid n' g' # us \<and> load_action d2 aid = Some a' \<and>
    ba_completed_batches a' = ba_completed_batches (wk_action w) + 2 \<and>
    ba_processed_count a' = ba_processed_count (wk_action w) + length os + length os' \<and>
    execute_read E aid (go_batch_id g) d1 = Inr (Inl AlreadyCompleted)"
proof -
  note rd = execute_read_work [OF assms(3)]
  have ids: "ba_id (wk_action w) = aid" "bb_id (wk_batch w) = go_batch_id g"
    using rd(1,2) by (auto simp: load_action_def load_batch_by_id_def dest: find_Some_mem)
  obtain t e where h: "get_action shipped_actions t e = Inr (wk_handler w)"
    using rd(3) assms(4) by (auto simp: resolve_def rbind_Inr)
  note one = execute_work_books [OF h assms(5), unfolded ids, OF rd(1,2)]
  note two = execute_work_books [OF h assms(6), unfolded ids, OF one]
  let ?s1 = "s\<lparr> sy_tasks := ts @ WorkTask aid n g w # ReadTask aid n' g' # us \<rparr>"
  let ?s2 = "?s1\<lparr> sy_tasks := ts @ WorkTask aid n g w # WorkTask aid n' g' w # us \<rparr>"
  let ?s3 = "?s2\<lparr> sy_db := d1, sy_tasks := ts @ FinishTask aid n g # WorkTask aid n' g' w # us \<rparr>"
  let ?s4 = "?s3\<lparr> sy_db := d2, sy_tasks := ts @ FinishTask aid n g # FinishTask aid n' g' # us \<rparr>"
  have "step E s ?s1"
    using run_task [OF assms(1) task_step.work_go [OF assms(3)]] by simp
  moreover have "step E ?s1 ?s2"
    using run_task [of ?s1 "ts @ [WorkTask aid n g w]" _ us E, OF _ task_step.work_go [of E aid g' _ w]] assms(2,3) by simp
  moreover have "step E ?s2 ?s3"
    using run_task [of ?s2 ts, OF _ task_step.work_commits [of E w now _ os d1]] assms(5) by simp
  moreover have "step E ?s3 ?s4"
    using run_task [of ?s3 "ts @ [FinishTask aid n g]" _ us E, OF _ task_step.work_commits [of E w now' _ os' d2]] assms(6) by simp
  ultimately have "(step E)\<^sup>*\<^sup>* s ?s4" by (meson rtranclp.rtrancl_refl rtranclp.rtrancl_into_rtrancl)
  moreover have "execute_read E aid (go_batch_id g) d1 = Inr (Inl AlreadyCompleted)"
    by (simp add: execute_read_def one completed_with_def)
  ultimately show ?thesis
    using two(1)
    by (intro exI [of _ ?s4] exI [of _ "counted_result os' (counted_result os (wk_action w))"])
      (simp add: counted_result_def add_counts_def)
qed

definition example_work :: work where
  "example_work = \<lparr> wk_action = example_action PROCESSING example_age_update, wk_batch = example_batch B_PROCESSING 3,
     wk_entity = contact_entity, wk_handler = update_handler, wk_config = example_age_update \<rparr>"

lemma case_result_Inr: "(case r of Inl _ \<Rightarrow> False | Inr (x, y) \<Rightarrow> P x y) \<Longrightarrow> \<exists>x y. r = Inr (x, y) \<and> P x y"
  by (cases r) auto

lemma example_two_runs:
  "\<exists>os d1 os' d2. execute_work example_env example_work 9 running_db = Inr (os, d1) \<and>
     execute_work example_env example_work 10 d1 = Inr (os', d2) \<and> length os = 3 \<and> length os' = 3"
proof -
  have "(case execute_work example_env example_work 9 running_db of
      Inl _ \<Rightarrow> False
    | Inr (os, d1) \<Rightarrow> (case execute_work example_env example_work 10 d1 of
        Inl _ \<Rightarrow> False | Inr (os', d2) \<Rightarrow> length os = 3 \<and> length os' = 3))"
    by code_simp
  then show ?thesis by (auto dest!: case_result_Inr)
qed

theorem overlapping_deliveries_count_twice_witness:
  "\<exists>s s' a'. sy_db s = running_db \<and> length (sy_tasks s) = 2 \<and> (step example_env)\<^sup>*\<^sup>* s s' \<and>
     load_action (sy_db s') 100 = Some a' \<and> length (db_batches running_db) = 1 \<and> ba_completed_batches a' = 2 \<and>
     ba_processed_count a' = 6"
proof -
  let ?g = "example_go\<lparr> go_batch_id := 200 \<rparr>"
  let ?s = "\<lparr> sy_db = running_db, sy_redis = (\<lambda>_. None), sy_calls = [],
     sy_tasks = [] @ ReadTask 100 1 ?g # ReadTask 100 2 ?g # [] \<rparr>"
  obtain os d1 os' d2 where w: "execute_work example_env example_work 9 (sy_db ?s) = Inr (os, d1)"
    "execute_work example_env example_work 10 d1 = Inr (os', d2)" and len: "length os = 3" "length os' = 3"
    using example_two_runs by auto
  have r: "execute_read example_env 100 (go_batch_id ?g) (sy_db ?s) = Inr (Inr example_work)"
    by (simp add: execute_read_def load_action_def load_batch_by_id_def running_db_def example_action_def example_batch_def
        example_work_def example_resolve [unfolded example_action_def])
  have e: "e_actions example_env = shipped_actions" by (simp add: example_env_def)
  have z: "ba_completed_batches (wk_action example_work) = 0" "ba_processed_count (wk_action example_work) = 0"
    by (simp_all add: example_work_def example_action_def)
  have "sy_tasks ?s = [] @ ReadTask 100 1 ?g # ReadTask 100 2 ?g # []" "go_batch_id ?g = go_batch_id ?g" by simp_all
  from overlapping_deliveries_count_twice [OF this r e w] obtain s' a' where "(step example_env)\<^sup>*\<^sup>* ?s s'"
    "load_action (sy_db s') 100 = Some a'" "ba_completed_batches a' = 2" "ba_processed_count a' = 6"
    by (auto simp: z len)
  moreover have "length (db_batches running_db) = 1" by (simp add: running_db_def)
  ultimately show ?thesis by (intro exI [of _ ?s] exI [of _ s'] exI [of _ a']) simp
qed

section \<open>Planning again over a table that has changed\<close>

text \<open>The ids a batch of a filter stands for.\<close>

definition covers :: "batch_row \<Rightarrow> uuid \<Rightarrow> bool" where
  "covers b x = (case (bb_cursor_start b, bb_cursor_end b) of (Some lo, Some hi) \<Rightarrow> lo \<le> x \<and> x \<le> hi | _ \<Rightarrow> False)"

lemma in_one_chunk:
  assumes "distinct (concat cs)" and "i < length cs" and "j < length cs" and "x \<in> set (cs ! i)" and "x \<in> set (cs ! j)"
  shows "i = j"
proof -
  have "False" if "i < j" "j < length cs" "x \<in> set (cs ! i)" "x \<in> set (cs ! j)" for i j
  proof -
    have "distinct (concat (take j cs) @ concat (drop j cs))"
      using assms(1) by (simp flip: concat_append)
    moreover have "cs ! i \<in> set (take j cs)" using that(1,2) nth_mem [of i "take j cs"] by simp
    then have "x \<in> set (concat (take j cs))" using that(3) by auto
    moreover have "x \<in> set (concat (drop j cs))" using that by (simp flip: Cons_nth_drop_Suc)
    ultimately show False by auto
  qed
  from this [of i j] this [of j i] assms show ?thesis by (cases i j rule: linorder_cases) auto
qed

text \<open>
  (C38) Planning again can lose entities. Batches are identified by their number alone, so a second pass
  over a table that has changed keeps the range an earlier pass stored under a number and drops its
  own. An entity whose batch number is taken, and which no stored range holds, is counted in the totals
  of the new plan but belongs to no batch: no job will ever process it.
\<close>

theorem replan_loses_entities:
  assumes "load_action d aid = Some a" and "\<not> is_terminal (ba_status a)" and "resolve E a = Inr (ent, h, c)"
    and "explicit_ids c = None"
    and "selection_clause ent (ba_account_id a) (selection_filters c) (h_include_deleted h) = Inr ps"
    and "select_rows (e_driver E) ent ps (db_crm d (ent_table ent)) = Inr rs"
    and "distinct (map row_id (db_crm d (ent_table ent)))" and "0 < ba_batch_size a"
    and "distinct (map bb_id (db_batches d))"
    and "\<forall>i \<le> length rs. uuid4 i \<notin> bb_id ` set (db_batches d) \<and> (\<forall>j < i. uuid4 i \<noteq> uuid4 j)"
    and "i < length (chunks (ba_batch_size a) (map row_id rs))"
    and "x \<in> set (chunks (ba_batch_size a) (map row_id rs) ! i)"
    and "(aid, i) \<in> batch_slot ` set (db_batches d)"
    and "\<forall>b \<in> set (db_batches d). bb_bulk_action_id b = aid \<longrightarrow> \<not> covers b x"
  shows "\<exists>d' calls tb. plan_bulk_action E uuid4 now aid d = (d', calls, Inr (Planned (length rs) tb)) \<and>
    x \<in> row_id ` set rs \<and> (\<forall>b \<in> set (db_batches d'). bb_bulk_action_id b = aid \<longrightarrow> \<not> covers b x)"
proof -
  let ?n = "ba_batch_size a" and ?cs = "chunks (ba_batch_size a) (map row_id rs)" and ?G = "FilterGen ps None 0 False"
  define bs where "bs = map (\<lambda>(i, c). range_batch i c) (enumerate 0 ?cs)"
  let ?rows = "planned_rows uuid4 now aid 0 bs"
  have sd: "sorted (map row_id rs)" "distinct (map row_id rs)" using select_rows_distinct [OF assms(6,7)] by auto
  have g: "plan_batches ent (ba_account_id a) ?n (selection_filters c) (explicit_ids c) (h_include_deleted h) = Inr ?G"
    by (simp add: plan_batches_def assms(4,5))
  note all = keyset_plan_chunks [OF assms(6-8), folded bs_def]
  have sum: "sum_list (map pb_entity_count bs) = length rs" and few: "length bs \<le> length rs"
    using keyset_plan [OF assms(6-8)] keyset_plan_few [OF assms(6-8) all] all by auto
  have "distinct (map bb_id (ins_ignore batch_slot (db_batches d) ?rows))"
    by (rule fresh_batch_ids) (use assms(9,10) few in auto)
  from plan_bulk_action_all [OF assms(1-3) g all this] obtain d' calls where
    plan: "plan_bulk_action E uuid4 now aid d = (d', calls, Inr (Planned (length rs) (length bs)))"
    and bats: "db_batches d' = ins_ignore batch_slot (db_batches d) ?rows"
    by (auto simp: sum)
  have x: "x \<in> set (map row_id rs)"
    using assms(11,12) concat_chunks [OF assms(8), of "map row_id rs"] by (metis UN_I nth_mem set_concat)
  have "\<not> covers b x" if b: "b \<in> set ?rows" "batch_slot b \<notin> batch_slot ` set (db_batches d)" for b
  proof
    assume cov: "covers b x"
    from b(1) obtain j where j: "j < length ?cs" "b = batch_of_planned (uuid4 j) aid now (range_batch j (?cs ! j))"
      by (auto simp: planned_rows_def bs_def in_set_enumerate_eq nth_enumerate_eq)
    have "x \<in> set (filter (\<lambda>i. the (pb_cursor_start (range_batch j (?cs ! j))) \<le> i \<and>
        i \<le> the (pb_cursor_end (range_batch j (?cs ! j)))) (map row_id rs))"
      using cov x by (simp add: j(2) covers_def batch_of_planned_def range_batch_def)
    then have "x \<in> set (?cs ! j)" unfolding range_batch_chunk [OF sd assms(8) nth_mem [OF j(1)]] .
    with assms(11,12) j(1) have "i = j"
      by (intro in_one_chunk) (use sd in \<open>simp_all add: concat_chunks [OF assms(8)]\<close>)
    with b(2) assms(13) show False by (simp add: j(2) batch_slot_def batch_of_planned_def range_batch_def)
  qed
  moreover have "b \<in> set (db_batches d) \<or> b \<in> set ?rows \<and> batch_slot b \<notin> batch_slot ` set (db_batches d)"
    if "b \<in> set (db_batches d')" for b
    using that ins_fresh_subset [of batch_slot "map batch_slot (db_batches d)" ?rows]
      ins_fresh_notin [of batch_slot "map batch_slot (db_batches d)" ?rows]
    by (auto simp: bats ins_ignore_def)
  ultimately show ?thesis using plan x assms(14) by (intro exI [of _ d'] exI [of _ calls] exI [of _ "length bs"]) auto
qed

definition replanned_db :: db where
  "replanned_db = queued_db\<lparr> db_batches := [(example_batch B_COMPLETED 3)\<lparr> bb_cursor_start := Some 3 \<rparr>] \<rparr>"

theorem replan_loses_entities_witness:
  "\<exists>d' calls tb. plan_bulk_action example_env (\<lambda>i. 300 + of_nat i) 9 100 replanned_db = (d', calls, Inr (Planned 2 tb)) \<and>
     (\<forall>b \<in> set (db_batches d'). bb_bulk_action_id b = 100 \<longrightarrow> \<not> covers b 1)"
proof -
  let ?a = "example_action QUEUED example_age_update"
  let ?rs = "[example_contact 1 7 ''a@b.c'' ''active'', example_contact 2 7 ''b@b.c'' ''active'']"
  have l: "load_action replanned_db 100 = Some ?a" and t: "\<not> is_terminal (ba_status ?a)" and n: "0 < ba_batch_size ?a"
    by (simp_all add: load_action_def replanned_db_def queued_db_def example_action_def)
  have c: "explicit_ids example_age_update = None" by (simp add: example_age_update_def example_update_def)
  have sc: "selection_clause contact_entity (ba_account_id ?a) (selection_filters example_age_update)
      (h_include_deleted update_handler) = Inr [SAccount 7, SIsNull ''deleted_at'']"
    using example_select(1) by (simp add: example_action_def update_handler_def)
  have tab: "ent_table contact_entity = ''contacts''" and drv: "e_driver example_env = plain_driver"
    and crm: "db_crm replanned_db = db_crm queued_db"
    by (simp_all add: contact_entity_def example_env_def replanned_db_def)
  have sel: "select_rows (e_driver example_env) contact_entity [SAccount 7, SIsNull ''deleted_at'']
      (db_crm replanned_db (ent_table contact_entity)) = Inr ?rs"
    unfolding tab drv crm by (rule example_select(2))
  have dist: "distinct (map row_id (db_crm replanned_db (ent_table contact_entity)))"
    by (simp add: tab crm queued_db_def example_db_def example_contact_def)
  have bats: "db_batches replanned_db = [(example_batch B_COMPLETED 3)\<lparr> bb_cursor_start := Some 3 \<rparr>]"
    by (simp add: replanned_db_def)
  have nob: "distinct (map bb_id (db_batches replanned_db))" by (simp add: bats)
  have fresh: "\<forall>i \<le> length ?rs. 300 + of_nat i \<notin> bb_id ` set (db_batches replanned_db) \<and>
      (\<forall>j < i. 300 + of_nat i \<noteq> (300 + of_nat j :: uuid))"
    by (auto simp: bats example_batch_def le_Suc_eq less_Suc_eq)
  have ch: "chunks (ba_batch_size ?a) (map row_id ?rs) = [[1, 2]]"
    by (simp add: chunks.simps example_action_def example_contact_def)
  have i: "0 < length (chunks (ba_batch_size ?a) (map row_id ?rs))"
    "1 \<in> set (chunks (ba_batch_size ?a) (map row_id ?rs) ! 0)" unfolding ch by simp_all
  have slot: "(100, 0) \<in> batch_slot ` set (db_batches replanned_db)"
    and un: "\<forall>b \<in> set (db_batches replanned_db). bb_bulk_action_id b = 100 \<longrightarrow> \<not> covers b 1"
    by (simp_all add: bats example_batch_def batch_slot_def covers_def word_le_nat_alt)
  from replan_loses_entities [OF l t example_resolve c sc sel dist n nob fresh i slot un, of 9] show ?thesis by auto
qed

end
