(* ===== verification/Storage.thy ===== *)
theory Storage
  imports Schema Service
begin

text \<open>
  What the control plane stores, against the columns it is stored in: statuses and reason codes against
  their VARCHAR widths and CHECK constraints, the names and the idempotency key of a submission, the keys of the
  de-duplication ledger.
\<close>

definition fits :: "orm_table \<Rightarrow> string \<Rightarrow> string \<Rightarrow> bool" where
  "fits t name s = (case find (\<lambda>c. oc_name c = name) (ot_columns t) of
       None \<Rightarrow> False
     | Some c \<Rightarrow> (case oc_type c of SqlVarchar n \<Rightarrow> length s \<le> n | SqlText \<Rightarrow> True | _ \<Rightarrow> False))"

definition allowed_status :: "orm_table \<Rightarrow> string \<Rightarrow> bool" where
  "allowed_status t s = list_all (\<lambda>a. case a of CheckStatus n vs \<Rightarrow> s \<in> set vs | _ \<Rightarrow> True) (ot_args t)"

lemma widths:
  "fits orm_bulk_actions ''status'' s \<longleftrightarrow> length s \<le> 32" "fits orm_batches ''status'' s \<longleftrightarrow> length s \<le> 32"
  "fits orm_logs ''status'' s \<longleftrightarrow> length s \<le> 16" "fits orm_logs ''reason_code'' s \<longleftrightarrow> length s \<le> 64"
  "fits orm_bulk_actions ''entity_type'' s \<longleftrightarrow> length s \<le> 64" "fits orm_bulk_actions ''action_type'' s \<longleftrightarrow> length s \<le> 64"
  "fits orm_bulk_actions ''idempotency_key'' s \<longleftrightarrow> length s \<le> 255" "fits orm_dedup ''dedup_key'' s \<longleftrightarrow> length s \<le> 512"
  by (simp_all add: fits_def orm_bulk_actions_def orm_batches_def orm_logs_def orm_dedup_def mapped_column_def
      uuid_pk_def foreign_key_def optional_time_def counter_def created_at_col_def updated_at_col_def)

lemma checks:
  "allowed_status orm_bulk_actions s \<longleftrightarrow> s \<in> set (map action_status_value all_action_statuses)"
  "allowed_status orm_batches s \<longleftrightarrow> s \<in> set (map batch_status_value all_batch_statuses)"
  "allowed_status orm_logs s \<longleftrightarrow> s \<in> set (map log_status_value all_log_statuses)"
  by (simp_all add: allowed_status_def orm_bulk_actions_def orm_batches_def orm_logs_def)

lemma length_dropWhile: "length (dropWhile p xs) \<le> length xs"
  by (induction xs) auto

lemma length_strip: "length (py_strip s) \<le> length s"
  using length_dropWhile [of is_space s] length_dropWhile [of is_space "rev (dropWhile is_space s)"]
  by (simp add: py_strip_def)

lemma length_normalise: "normalise (PStr s) = Some k \<Longrightarrow> length k \<le> length s"
  using length_strip [of s] by (auto simp: normalise_def py_lower_def Let_def split: if_splits)

text \<open>A value accepted for a de-duplication field gives a key the ledger can hold.\<close>

lemma dedup_key_fits:
  assumes "ent \<in> {contact_entity, company_entity}" and "f \<in> set (ent_dedup_fields ent)"
    and "map_of (ent_updatable_fields ent) f = Some spec" and "meets_annotation (fs_annotation spec) v"
    and "normalise v = Some k"
  shows "fits orm_dedup ''dedup_key'' k"
proof -
  have "\<exists>lo hi p. fs_annotation spec = AnnStr lo hi p \<and> hi \<le> 320"
    using assms(1-3) by (auto simp: contact_entity_def company_entity_def)
  then obtain lo hi p s where "v = PStr s" "length s \<le> hi" "hi \<le> 320"
    using assms(4) by (cases v) auto
  with length_normalise assms(5) show ?thesis by (fastforce simp: widths)
qed

lemma action_status_stored:
  "fits orm_bulk_actions ''status'' (action_status_value st) \<and> allowed_status orm_bulk_actions (action_status_value st)"
  by (cases st) (simp_all add: widths checks all_action_statuses_def)

lemma batch_status_stored:
  "fits orm_batches ''status'' (batch_status_value bs) \<and> allowed_status orm_batches (batch_status_value bs)"
  by (cases bs) (simp_all add: widths checks all_batch_statuses_def)

lemma log_status_stored:
  "fits orm_logs ''status'' (log_status_value ls) \<and> allowed_status orm_logs (log_status_value ls)"
  by (cases ls) (simp_all add: widths checks all_log_statuses_def)

lemma log_reason_stored: "fits orm_logs ''reason_code'' (log_reason_value rc)"
  by (cases rc) (simp_all add: widths)

lemma registered_names_fit:
  assumes "sr_reply (create_bulk_action E new_id ck rq R d) = Inr (a, True)"
    and "e_entities E = shipped_entities" and "e_actions E = shipped_actions"
  shows "length (ba_entity_type a) \<le> 64" and "length (ba_action_type a) \<le> 64"
    and "ba_idempotency_key a = rq_idempotency_key rq"
proof -
  from assms(1) obtain account ent h config where v: "validate_request E (ck_now ck) rq = Inr (ent, h, config)"
    and a: "a = new_action E new_id (ck_now ck) rq account ent h config"
    by (rule accepted_submissionE)
  have "ent \<in> {contact_entity, company_entity}"
    using validate_requestE(1) [OF v] assms(2)
    by (auto simp: get_entity_def shipped_entities_def split: option.splits if_splits)
  then show "length (ba_entity_type a) \<le> 64"
    by (auto simp: a new_action_def contact_entity_def company_entity_def)
  have "h \<in> {update_handler, delete_handler}"
    using validate_requestE(2) [OF v] assms(3) shipped_action_cases by fastforce
  then show "length (ba_action_type a) \<le> 64"
    by (auto simp: a new_action_def update_handler_def delete_handler_def)
  show "ba_idempotency_key a = rq_idempotency_key rq" by (simp add: a new_action_def)
qed

text \<open>
  (C28) Everything the control plane stores in a bounded column fits it, so that no write fails for its
  length. Every status of an action, a batch and a log row is within its column and its CHECK constraint,
  every reason code within its column; the entity, the action and the idempotency key of an accepted
  submission fit theirs; and a value the entity accepts for a de-duplication field is normalised to a key
  that the ledger can hold. Strings are lists of 8-bit characters here, so that lower-casing keeps the length.
\<close>

theorem stored_values_fit:
  assumes "sr_reply (create_bulk_action E new_id ck (lower_names body) R d) = Inr (a, True)" and "schema_accepts body"
    and "e_entities E = shipped_entities" and "e_actions E = shipped_actions"
    and "ent \<in> {contact_entity, company_entity}" and "f \<in> set (ent_dedup_fields ent)"
    and "map_of (ent_updatable_fields ent) f = Some spec" and "meets_annotation (fs_annotation spec) v"
    and "normalise v = Some k"
  shows "fits orm_bulk_actions ''entity_type'' (ba_entity_type a) \<and> fits orm_bulk_actions ''action_type'' (ba_action_type a) \<and>
    (case ba_idempotency_key a of None \<Rightarrow> True | Some key \<Rightarrow> fits orm_bulk_actions ''idempotency_key'' key) \<and>
    fits orm_bulk_actions ''status'' (action_status_value st) \<and> allowed_status orm_bulk_actions (action_status_value st) \<and>
    fits orm_batches ''status'' (batch_status_value bs) \<and> allowed_status orm_batches (batch_status_value bs) \<and>
    fits orm_logs ''status'' (log_status_value ls) \<and> allowed_status orm_logs (log_status_value ls) \<and>
    fits orm_logs ''reason_code'' (log_reason_value rc) \<and> fits orm_dedup ''dedup_key'' k"
proof -
  note n = registered_names_fit [OF assms(1,3,4)]
  have "case ba_idempotency_key a of None \<Rightarrow> True | Some key \<Rightarrow> length key \<le> 255"
    using assms(2) by (simp add: n(3) lower_names_def schema_accepts_def)
  moreover have "fits orm_dedup ''dedup_key'' k" by (rule dedup_key_fits [OF assms(5-9)])
  ultimately show ?thesis
    by (simp add: widths(5-7) n(1,2) action_status_stored batch_status_stored log_status_stored log_reason_stored
        split: option.splits)
qed

theorem stored_values_fit_witness:
  "\<exists>a. sr_reply (create_bulk_action example_env 500 \<lparr> ck_now = 9, ck_now_ms = 0, ck_redis_ms = 0 \<rparr>
       (lower_names (example_request None)) (\<lambda>_. None) example_db) = Inr (a, True) \<and>
     fits orm_bulk_actions ''entity_type'' (ba_entity_type a) \<and> fits orm_dedup ''dedup_key'' ''a@b.c''"
proof -
  have names: "py_lower (py_strip ''contact'') = ''contact''" "py_lower (py_strip ''delete'') = ''delete''"
    by (code_simp, code_simp)
  have same: "lower_names (example_request None) = example_request None"
    by (simp add: lower_names_def example_request_def names)
  obtain a where a: "sr_reply (create_bulk_action example_env 500 \<lparr> ck_now = 9, ck_now_ms = 0, ck_redis_ms = 0 \<rparr>
      (lower_names (example_request None)) (\<lambda>_. None) example_db) = Inr (a, True)"
    using example_accepted unfolding example_submit_def same by blast
  have "schema_accepts (example_request None)" by (simp add: schema_accepts_def example_request_def)
  moreover have "e_entities example_env = shipped_entities" "e_actions example_env = shipped_actions"
    by (simp_all add: example_env_def)
  moreover have "''email'' \<in> set (ent_dedup_fields contact_entity)"
    and "map_of (ent_updatable_fields contact_entity) ''email'' =
      Some (the (map_of (ent_updatable_fields contact_entity) ''email''))"
    and "meets_annotation (fs_annotation (the (map_of (ent_updatable_fields contact_entity) ''email''))) (PStr ''A@b.c'')"
    and "normalise (PStr ''A@b.c'') = Some ''a@b.c''"
    by (code_simp, code_simp, code_simp, code_simp)
  ultimately show ?thesis using stored_values_fit [OF a] a by blast
qed

end
