(* ===== verification/Migration.thy ===== *)
theory Migration
  imports Process "HOL-Library.AList"
begin

text \<open>
  How migrations run: the synchronous database address (\<open>app/core/config.py\<close>) and the Alembic environment
  (\<open>alembic/env.py\<close>) over the initial revision (\<open>Schema\<close>). Alembic keeps its options in the standard library's
  \<open>ConfigParser\<close>, whose interpolation is modelled; which revisions are still to be run and whether the
  database can be reached are arguments. Logger configuration from the ini file is left out.
\<close>

section \<open>Strings\<close>

definition starts_with :: "string \<Rightarrow> string \<Rightarrow> bool" where
  "starts_with p s \<longleftrightarrow> take (length p) s = p"

text \<open>\<open>s.replace(old, "")\<close> for a non-empty text.\<close>

function py_remove :: "string \<Rightarrow> string \<Rightarrow> string" where
  "py_remove old [] = []"
| "py_remove old (c # cs) =
     (if old \<noteq> [] \<and> starts_with old (c # cs) then py_remove old (drop (length old) (c # cs))
      else c # py_remove old cs)"
  by pat_completeness auto
termination by (relation "measure (length \<circ> snd)") auto

fun py_partition :: "string \<Rightarrow> string \<Rightarrow> string \<times> string \<times> string" where
  "py_partition sep [] = ([], [], [])"
| "py_partition sep (c # cs) =
     (if starts_with sep (c # cs) then ([], sep, drop (length sep) (c # cs))
      else let (a, s, r) = py_partition sep cs in (c # a, s, r))"

definition sync_database_url :: "infra_settings \<Rightarrow> string" where
  "sync_database_url I =
     (let (scheme, sep, rest) = py_partition ''://'' (py_remove ''+asyncpg'' (i_database_url I))
      in takeWhile (\<lambda>c. c \<noteq> CHR ''+'') scheme @ ''+psycopg://'' @ rest)"

section \<open>ConfigParser\<close>

text \<open>A reference \<open>%(name)s\<close> at the head of a text, with what follows it.\<close>

fun reference :: "string \<Rightarrow> (string \<times> string) option" where
  "reference (c1 # c2 # cs) =
     (let name = takeWhile (\<lambda>c. c \<noteq> CHR '')'') cs; tl = dropWhile (\<lambda>c. c \<noteq> CHR '')'') cs
      in if c1 = CHR ''%'' \<and> c2 = CHR ''('' \<and> name \<noteq> [] \<and> starts_with '')s'' tl then Some (name, drop 2 tl) else None)"
| "reference _ = None"

lemma reference_shorter: "reference s = Some (n, r) \<Longrightarrow> length r < length s"
proof (induction s rule: reference.induct)
  case (1 c1 c2 cs)
  have "length (dropWhile (\<lambda>c. c \<noteq> CHR '')'') cs) \<le> length cs" by (rule length_dropWhile_le)
  with 1 show ?case by (auto simp: Let_def split: if_splits)
qed simp_all

function strip_refs :: "string \<Rightarrow> string" where
  "strip_refs [] = []"
| "strip_refs (c # cs) = (case reference (c # cs) of Some (n, r) \<Rightarrow> strip_refs r | None \<Rightarrow> c # strip_refs cs)"
  by pat_completeness auto
termination by (relation "measure length") (auto dest: reference_shorter)

type_synonym section_items = "(string \<times> string) list"

text \<open>\<open>set_main_option\<close> hands the value to \<open>ConfigParser.set\<close>, which refuses a percent sign that is neither
  doubled nor part of a reference.\<close>

definition set_main_option :: "string \<Rightarrow> string \<Rightarrow> section_items \<Rightarrow> section_items result" where
  "set_main_option name v items =
     (if CHR ''%'' \<in> set (strip_refs (py_remove ''%%'' v)) then Inl (ValueError ''invalid interpolation syntax'')
      else Inr (AList.update name v items))"

text \<open>Reading interpolates, at most ten levels deep.\<close>

function interpolate :: "section_items \<Rightarrow> nat \<Rightarrow> string \<Rightarrow> string result" where
  "interpolate items fuel [] = Inr []"
| "interpolate items fuel (c # cs) =
     (if c \<noteq> CHR ''%'' then (case interpolate items fuel cs of Inl e \<Rightarrow> Inl e | Inr r \<Rightarrow> Inr (c # r))
      else if starts_with ''%'' cs then (case interpolate items fuel (tl cs) of Inl e \<Rightarrow> Inl e | Inr r \<Rightarrow> Inr (c # r))
      else case reference (c # cs) of
          None \<Rightarrow> Inl (ValueError ''InterpolationSyntaxError'')
        | Some (name, rest) \<Rightarrow>
            (case map_of items (py_lower name) of
               None \<Rightarrow> Inl (ValueError ''InterpolationMissingOptionError'')
             | Some v \<Rightarrow>
                 (case (if CHR ''%'' \<notin> set v then Inr v
                        else case fuel of
                            0 \<Rightarrow> Inl (ValueError ''InterpolationDepthError'')
                          | Suc n \<Rightarrow> interpolate items n v) of
                    Inl e \<Rightarrow> Inl e
                  | Inr w \<Rightarrow> (case interpolate items fuel rest of Inl e \<Rightarrow> Inl e | Inr r \<Rightarrow> Inr (w @ r)))))"
  by pat_completeness auto
termination
  by (relation "inv_image (less_than <*lex*> less_than) (\<lambda>(items, fuel, s). (fuel, length s))")
    (auto dest: reference_shorter)

fun get_section :: "section_items \<Rightarrow> section_items \<Rightarrow> section_items result" where
  "get_section items [] = Inr []"
| "get_section items ((k, v) # kvs) =
     (case interpolate items 10 v of
        Inl e \<Rightarrow> Inl e
      | Inr w \<Rightarrow> (case get_section items kvs of Inl e \<Rightarrow> Inl e | Inr r \<Rightarrow> Inr ((k, w) # r)))"

section \<open>The Alembic environment\<close>

record revision =
  rv_revision :: string
  rv_down_revision :: "string option"
  rv_upgrade :: "catalogue \<Rightarrow> catalogue result"

definition initial_revision :: revision where
  "initial_revision = \<lparr> rv_revision = ''0001'', rv_down_revision = None, rv_upgrade = upgrade \<rparr>"

record migrated =
  mg_version :: "string option"
  mg_catalogue :: catalogue

fun run_migrations :: "revision list \<Rightarrow> migrated \<Rightarrow> migrated result" where
  "run_migrations [] m = Inr m"
| "run_migrations (r # rs) m =
     (case rv_upgrade r (mg_catalogue m) of
        Inl e \<Rightarrow> Inl e
      | Inr c \<Rightarrow> run_migrations rs \<lparr> mg_version = Some (rv_revision r), mg_catalogue = c \<rparr>)"

text \<open>Offline, the statements of the revisions are printed for the configured address; online, they run in one
  transaction on a connection to it.\<close>

datatype migration_reply = Script string "revision list" | Connected string

definition run_migrations_offline :: "infra_settings \<Rightarrow> revision list \<Rightarrow> migration_reply" where
  "run_migrations_offline I todo = Script (sync_database_url I) todo"

definition run_migrations_online ::
  "(string \<Rightarrow> exn option) \<Rightarrow> section_items \<Rightarrow> (string option \<Rightarrow> revision list) \<Rightarrow> migrated \<Rightarrow> migrated \<times> migration_reply result" where
  "run_migrations_online connect items todo m =
     (case get_section items items of
        Inl e \<Rightarrow> (m, Inl e)
      | Inr opts \<Rightarrow> (case map_of opts ''sqlalchemy.url'' of
            None \<Rightarrow> (m, Inl (RuntimeError ''KeyError: url''))
          | Some url \<Rightarrow> (case connect url of
                Some e \<Rightarrow> (m, Inl e)
              | None \<Rightarrow> session_scope (\<lambda>m. case run_migrations (todo (mg_version m)) m of
                    Inl e \<Rightarrow> (m, Inl e)
                  | Inr m' \<Rightarrow> (m', Inr (Connected url))) m)))"

definition env_py ::
  "infra_settings \<Rightarrow> bool \<Rightarrow> (string \<Rightarrow> exn option) \<Rightarrow> section_items \<Rightarrow> (string option \<Rightarrow> revision list) \<Rightarrow> migrated \<Rightarrow>
   migrated \<times> migration_reply result" where
  "env_py I offline connect ini todo m =
     (case set_main_option ''sqlalchemy.url'' (sync_database_url I) ini of
        Inl e \<Rightarrow> (m, Inl e)
      | Inr items \<Rightarrow>
          if offline then (m, Inr (run_migrations_offline I (todo None)))
          else run_migrations_online connect items todo m)"

section \<open>The address\<close>

lemma py_remove_skip: "hd old \<notin> set xs \<Longrightarrow> py_remove old (xs @ ys) = xs @ py_remove old ys"
proof (induction xs)
  case (Cons x xs)
  then have "\<not> (old \<noteq> [] \<and> starts_with old (x # xs @ ys))"
    by (cases old) (auto simp: starts_with_def)
  with Cons show ?case by auto
qed simp

fun occurs :: "string \<Rightarrow> string \<Rightarrow> bool" where
  "occurs p [] \<longleftrightarrow> False"
| "occurs p (c # cs) \<longleftrightarrow> starts_with p (c # cs) \<or> occurs p cs"

lemma py_remove_absent: "\<not> occurs old s \<Longrightarrow> py_remove old s = s"
  by (induction s) auto

lemma partition_scheme: "CHR '':'' \<notin> set xs \<Longrightarrow> py_partition ''://'' (xs @ ''://'' @ r) = (xs, ''://'', r)"
  by (induction xs) (auto simp: starts_with_def)

lemma sync_database_url_postgres:
  assumes "i_database_url I = scheme @ driver @ ''://'' @ rest" and "CHR '':'' \<notin> set scheme" "CHR ''+'' \<notin> set scheme"
    and "driver \<in> {[], ''+asyncpg'', ''+psycopg''}" and "\<not> occurs ''+asyncpg'' rest"
  shows "sync_database_url I = scheme @ ''+psycopg://'' @ rest"
proof -
  have tail: "py_remove ''+asyncpg'' (''://'' @ rest) = ''://'' @ rest"
    using py_remove_skip [of "''+asyncpg''" "''://''" rest] py_remove_absent [OF assms(5)] by simp
  have "py_remove ''+asyncpg'' (i_database_url I) =
      scheme @ (if driver = ''+psycopg'' then ''+psycopg'' else []) @ ''://'' @ rest"
    using assms(1,3,4) tail py_remove_skip [of "''+asyncpg''" scheme "driver @ ''://'' @ rest"]
    by (auto simp: starts_with_def)
  moreover have "takeWhile (\<lambda>c. c \<noteq> CHR ''+'') (scheme @ CHR ''+'' # ys) = scheme" for ys
    using assms(3) by (subst takeWhile_append2) auto
  moreover have "takeWhile (\<lambda>c. c \<noteq> CHR ''+'') scheme = scheme"
    using assms(3) by (auto simp: takeWhile_eq_all_conv)
  ultimately show ?thesis
    using assms(2,3) partition_scheme [of scheme rest] partition_scheme [of "scheme @ ''+psycopg''" rest]
    by (simp add: sync_database_url_def split: if_splits)
qed

section \<open>Percent signs\<close>

lemma reference_percent: "c \<noteq> CHR ''%'' \<Longrightarrow> reference (c # cs) = None"
  by (cases cs) auto

lemma strip_refs_skip: "CHR ''%'' \<notin> set xs \<Longrightarrow> strip_refs (xs @ ys) = xs @ strip_refs ys"
  by (induction xs) (auto simp: reference_percent)

lemma set_main_option_plain: "CHR ''%'' \<notin> set v \<Longrightarrow> set_main_option name v items = Inr (AList.update name v items)"
  using strip_refs_skip [of v "[]"] py_remove_skip [of "''%%''" v "[]"] by (simp add: set_main_option_def)

lemma set_main_option_percent:
  assumes "CHR ''%'' \<notin> set xs" and "c \<noteq> CHR ''%''" and "c \<noteq> CHR ''(''"
  shows "set_main_option name (xs @ CHR ''%'' # c # ys) items = Inl (ValueError ''invalid interpolation syntax'')"
proof -
  have "py_remove ''%%'' (xs @ CHR ''%'' # c # ys) = xs @ CHR ''%'' # c # py_remove ''%%'' ys"
    using assms py_remove_skip [of "''%%''" xs "CHR ''%'' # c # ys"] by (simp add: starts_with_def)
  moreover have "strip_refs (xs @ CHR ''%'' # c # zs) = xs @ CHR ''%'' # strip_refs (c # zs)" for zs
    using strip_refs_skip [OF assms(1), of "CHR ''%'' # c # zs"] assms(3) by (simp del: strip_refs.simps(2) add: strip_refs.simps(2) [of "CHR ''%''"])
  ultimately show ?thesis by (simp add: set_main_option_def)
qed

lemma interpolate_plain: "CHR ''%'' \<notin> set v \<Longrightarrow> interpolate items n v = Inr v"
  by (induction v) auto

lemma get_section_plain: "\<forall>(k, v) \<in> set kvs. CHR ''%'' \<notin> set v \<Longrightarrow> get_section items kvs = Inr kvs"
  by (induction kvs) (auto simp: interpolate_plain)

lemma update_keeps: "c \<notin> set v \<Longrightarrow> \<forall>(k, w) \<in> set kvs. c \<notin> set w \<Longrightarrow> \<forall>(k, w) \<in> set (AList.update n v kvs). c \<notin> set w"
  by (induction kvs) auto

section \<open>Running the migrations\<close>

definition empty_database :: migrated where
  "empty_database = \<lparr> mg_version = None, mg_catalogue = \<lparr> ct_tables = [], ct_indexes = [] \<rparr> \<rparr>"

definition migrated_database :: migrated where
  "migrated_database = \<lparr> mg_version = Some ''0001'',
     mg_catalogue = \<lparr> ct_tables = map create_table orm_metadata, ct_indexes = concat (map create_indexes orm_metadata) \<rparr> \<rparr>"

lemma run_initial: "run_migrations [initial_revision] empty_database = Inr migrated_database"
  unfolding migrated_database_def migration_renders_metadata [symmetric]
  by (simp add: initial_revision_def empty_database_def upgrade_from_nothing)

lemma online_on:
  assumes "CHR ''%'' \<notin> set url" and "sync_database_url I = url" and "\<forall>(k, v) \<in> set ini. CHR ''%'' \<notin> set v" and "connect url = None"
    and "run_migrations (todo (mg_version m)) m = Inr m'"
  shows "env_py I False connect ini todo m = (m', Inr (Connected url))"
proof -
  let ?items = "AList.update ''sqlalchemy.url'' url ini"
  have "\<forall>(k, v) \<in> set ?items. CHR ''%'' \<notin> set v" by (rule update_keeps [OF assms(1,3)])
  then have "get_section ?items ?items = Inr ?items" by (rule get_section_plain)
  moreover have "map_of ?items ''sqlalchemy.url'' = Some url" by (simp add: update_conv)
  ultimately show ?thesis
    using assms(2,4,5) set_main_option_plain [OF assms(1)]
    by (simp add: env_py_def run_migrations_online_def session_scope_def)
qed



text \<open>
  A percent-encoded character in the database address, such as an escaped password, stops every
  migration: the address is handed to \<open>set_main_option\<close> unescaped and the option parser refuses it, offline
  and online, before anything is read or written; the application itself takes the same address as it is.
\<close>

theorem percent_stops_migrations:
  assumes "i_database_url I = scheme @ driver @ ''://'' @ before @ CHR ''%'' # c # after"
    and "CHR '':'' \<notin> set scheme" and "CHR ''+'' \<notin> set scheme"
    and "driver \<in> {[], ''+asyncpg'', ''+psycopg''}" and "\<not> occurs ''+asyncpg'' (before @ CHR ''%'' # c # after)"
    and "CHR ''%'' \<notin> set (scheme @ before)" and "c \<noteq> CHR ''%''" and "c \<noteq> CHR ''(''"
  shows "env_py I offline connect ini todo m = (m, Inl (ValueError ''invalid interpolation syntax'')) \<and>
    (\<exists>args. engine_of I = Engine args \<and> en_url args = i_database_url I)"
proof -
  have "CHR ''%'' \<notin> set (scheme @ ''+psycopg://'' @ before)" using assms(6) by simp
  from set_main_option_percent [OF this assms(7,8)] sync_database_url_postgres [OF assms(1-5)]
  show ?thesis by (simp add: env_py_def engine_of_def)
qed

theorem percent_stops_migrations_witness:
  "fst (env_py (default_infra\<lparr> i_database_url := ''postgresql+asyncpg://bulk:p%40ss@db/bulk'' \<rparr>) False (\<lambda>_. None) []
     (\<lambda>v. [initial_revision]) empty_database) = empty_database"
proof -
  let ?I = "default_infra\<lparr> i_database_url := ''postgresql+asyncpg://bulk:p%40ss@db/bulk'' \<rparr>"
  have "i_database_url ?I = ''postgresql'' @ ''+asyncpg'' @ ''://'' @ ''bulk:p'' @ CHR ''%'' # CHR ''4'' # ''0ss@db/bulk''"
    by simp
  from percent_stops_migrations [OF this] show ?thesis by (simp add: starts_with_def)
qed

end
