(* ===== verification/Routes.thy ===== *)
theory Routes
  imports Process Api
begin

text \<open>
  The HTTP surface (\<open>create_app\<close> in \<open>app/main.py\<close>, the routers of \<open>app/api/routes\<close>): the middleware, the
  routes in the order in which they are added, and the registry endpoint. Choosing a route is the web
  framework's work and an argument: what the code relies on is that the first route that matches
  method and path is taken.
\<close>

datatype http_method = GET | POST | PATCH

datatype segment = Lit string | Param string

datatype endpoint =
    OpenApi | Docs | Redoc
  | Healthz | Readyz
  | GetRegistry | CreateBulkAction | ListBulkActions | GetBulkAction | GetStats | GetLogs | GetBatches | Cancel | StreamProgress
  | CreateAccount | ListAccounts | UpdateAccount | ListEntityTypes | Seed | ListEntities
  | Root

record route =
  rt_method :: http_method
  rt_path :: "segment list"
  rt_endpoint :: endpoint

definition mk_route :: "http_method \<Rightarrow> segment list \<Rightarrow> endpoint \<Rightarrow> route" where
  "mk_route m p e = \<lparr> rt_method = m, rt_path = p, rt_endpoint = e \<rparr>"

definition framework_routes :: "route list" where
  "framework_routes = [mk_route GET [Lit ''openapi.json''] OpenApi, mk_route GET [Lit ''docs''] Docs, mk_route GET [Lit ''redoc''] Redoc]"

definition health_router :: "route list" where
  "health_router = [mk_route GET [Lit ''healthz''] Healthz, mk_route GET [Lit ''readyz''] Readyz]"

definition with_prefix :: "segment list \<Rightarrow> route list \<Rightarrow> route list" where
  "with_prefix p = map (\<lambda>r. r\<lparr> rt_path := p @ rt_path r \<rparr>)"

definition bulk_actions_router :: "route list" where
  "bulk_actions_router = with_prefix [Lit ''bulk-actions'']
     [mk_route GET [Lit ''registry''] GetRegistry,
      mk_route POST [] CreateBulkAction,
      mk_route GET [] ListBulkActions,
      mk_route GET [Param ''action_id''] GetBulkAction,
      mk_route GET [Param ''action_id'', Lit ''stats''] GetStats,
      mk_route GET [Param ''action_id'', Lit ''logs''] GetLogs,
      mk_route GET [Param ''action_id'', Lit ''batches''] GetBatches,
      mk_route POST [Param ''action_id'', Lit ''cancel''] Cancel,
      mk_route GET [Param ''action_id'', Lit ''events''] StreamProgress]"

definition crm_router :: "route list" where
  "crm_router =
     [mk_route POST [Lit ''accounts''] CreateAccount,
      mk_route GET [Lit ''accounts''] ListAccounts,
      mk_route PATCH [Lit ''accounts'', Param ''account_id''] UpdateAccount,
      mk_route GET [Lit ''entities''] ListEntityTypes,
      mk_route POST [Lit ''entities'', Param ''entity_type'', Lit ''seed''] Seed,
      mk_route GET [Lit ''entities'', Param ''entity_type''] ListEntities]"

text \<open>Middleware added later wraps what was added before, so the list starts with the outermost.\<close>

record app =
  app_title :: string
  app_version :: string
  app_middleware :: "string list"
  app_handlers :: "string list"
  app_routes :: "route list"

definition root_reply :: "(string \<times> string) list" where
  "root_reply = [(''name'', ''Bulk Action Platform''), (''docs'', ''/docs''), (''registry'', ''/bulk-actions/registry'')]"

definition create_app :: app where
  "create_app = \<lparr> app_title = ''Bulk Action Platform'', app_version = ''1.0.0'',
     app_middleware = [''request_context'', ''CORSMiddleware''],
     app_handlers = [''AppError'', ''RequestValidationError'', ''Exception''],
     app_routes = framework_routes @ health_router @ bulk_actions_router @ crm_router @ [mk_route GET [] Root] \<rparr>"

text \<open>The registries behind \<open>get_registry\<close> are filled on first use.\<close>

definition all_entities :: "process \<Rightarrow> entity_registry result" where
  "all_entities p = (case discover_once p of Inl e \<Rightarrow> Inl e | Inr p' \<Rightarrow> Inr (the (pr_entities p')))"

definition all_actions :: "process \<Rightarrow> action_registry result" where
  "all_actions p = (case discover_actions_once p of Inl e \<Rightarrow> Inl e | Inr p' \<Rightarrow> Inr (the (pr_actions p')))"

definition get_registry :: "(string \<Rightarrow> string) \<Rightarrow> (string \<Rightarrow> pydict) \<Rightarrow> process \<Rightarrow> snapshot result" where
  "get_registry title json_schema p =
     (case all_entities p of
        Inl e \<Rightarrow> Inl e
      | Inr es \<Rightarrow> (case all_actions p of
            Inl e \<Rightarrow> Inl e
          | Inr acts \<Rightarrow> Inr (registry_snapshot title json_schema es acts)))"

section \<open>Matching\<close>

fun seg_matches :: "segment \<Rightarrow> string \<Rightarrow> bool" where
  "seg_matches (Lit l) x \<longleftrightarrow> x = l"
| "seg_matches (Param n) x \<longleftrightarrow> x \<noteq> []"

definition match_path :: "segment list \<Rightarrow> string list \<Rightarrow> bool" where
  "match_path ss path \<longleftrightarrow> list_all2 seg_matches ss path"

definition matches :: "http_method \<Rightarrow> string list \<Rightarrow> route \<Rightarrow> bool" where
  "matches m path r \<longleftrightarrow> rt_method r = m \<and> match_path (rt_path r) path"

text \<open>What the code relies on: routes are tried in order and the first full match is taken.\<close>

definition first_match :: "(route list \<Rightarrow> http_method \<Rightarrow> string list \<Rightarrow> endpoint option) \<Rightarrow> bool" where
  "first_match dispatch \<longleftrightarrow> (\<forall>before r after m path. matches m path r \<and> list_all (\<lambda>r'. \<not> matches m path r') before \<longrightarrow>
     dispatch (before @ r # after) m path = Some (rt_endpoint r))"

text \<open>Two templates that no path can match both.\<close>

fun clash :: "segment \<Rightarrow> segment \<Rightarrow> bool" where
  "clash (Lit a) (Lit b) \<longleftrightarrow> a \<noteq> b"
| "clash _ _ \<longleftrightarrow> False"

definition apart :: "segment list \<Rightarrow> segment list \<Rightarrow> bool" where
  "apart ss ts \<longleftrightarrow> length ss \<noteq> length ts \<or> list_ex (\<lambda>(s, t). clash s t) (zip ss ts)"

lemma clash_no_match: "clash s t \<Longrightarrow> seg_matches s x \<Longrightarrow> \<not> seg_matches t x"
  by (cases s; cases t) auto

lemma apart_no_match: "apart ss ts \<Longrightarrow> match_path ss path \<Longrightarrow> \<not> match_path ts path"
  using clash_no_match by (force simp: apart_def match_path_def list_ex_iff list_all2_conv_all_nth in_set_zip)

definition distinguishable :: "route \<Rightarrow> route \<Rightarrow> bool" where
  "distinguishable r r' \<longleftrightarrow> rt_method r \<noteq> rt_method r' \<or> apart (rt_path r) (rt_path r')"

lemma distinguishable_no_match: "distinguishable r r' \<Longrightarrow> matches m path r' \<Longrightarrow> \<not> matches m path r"
  using apart_no_match by (auto simp: distinguishable_def matches_def)

text \<open>Only one pair of routes overlaps: the registry and the detail of an action called \<open>registry\<close>.\<close>

lemma routes_distinguishable:
  "list_all (\<lambda>i. list_all (\<lambda>j. distinguishable (app_routes create_app ! j) (app_routes create_app ! i) \<or>
      rt_endpoint (app_routes create_app ! j) = GetRegistry \<and> rt_endpoint (app_routes create_app ! i) = GetBulkAction)
    [0..<i]) [0..<length (app_routes create_app)]"
  by code_simp

lemma registry_path: "matches m path r \<Longrightarrow> r \<in> set (app_routes create_app) \<Longrightarrow> rt_endpoint r = GetRegistry \<Longrightarrow>
    m = GET \<and> path = [''bulk-actions'', ''registry'']"
  by (auto simp: create_app_def framework_routes_def health_router_def bulk_actions_router_def with_prefix_def crm_router_def
      mk_route_def matches_def match_path_def list_all2_Cons1)

text \<open>
  Every endpoint is reachable. A request whose method and path fit a route of the application
  is answered by that route's endpoint: no earlier route takes it away, with one exception that is
  meant: \<open>GET /bulk-actions/registry\<close> is the registry and not an action called registry.
\<close>

theorem routes_reachable:
  assumes "first_match dispatch" and "r \<in> set (app_routes create_app)" and "matches m path r"
    and "rt_endpoint r = GetBulkAction \<longrightarrow> path \<noteq> [''bulk-actions'', ''registry'']"
  shows "dispatch (app_routes create_app) m path = Some (rt_endpoint r)"
proof -
  let ?rs = "app_routes create_app"
  from assms(2) obtain i where i: "i < length ?rs" "?rs ! i = r" by (auto simp: in_set_conv_nth)
  have "\<not> matches m path (?rs ! j)" if "j < i" for j
  proof
    assume j: "matches m path (?rs ! j)"
    have "distinguishable (?rs ! j) r \<or> rt_endpoint (?rs ! j) = GetRegistry \<and> rt_endpoint r = GetBulkAction"
      using routes_distinguishable [unfolded list_all_iff, THEN bspec, of i, THEN bspec, of j] i that by simp
    with distinguishable_no_match assms(3) j have "rt_endpoint (?rs ! j) = GetRegistry" "rt_endpoint r = GetBulkAction"
      by blast+
    with registry_path [OF j] i(1) that assms(4) show False by simp
  qed
  then have "list_all (\<lambda>r'. \<not> matches m path r') (take i ?rs)" using i(1) by (auto simp: list_all_iff in_set_conv_nth)
  moreover have "?rs = take i ?rs @ r # drop (Suc i) ?rs" using id_take_nth_drop [OF i(1)] i(2) by simp
  ultimately show ?thesis using assms(1,3) unfolding first_match_def by metis
qed

definition scan :: "route list \<Rightarrow> http_method \<Rightarrow> string list \<Rightarrow> endpoint option" where
  "scan rs m path = map_option rt_endpoint (find (matches m path) rs)"

lemma scan_first_match: "first_match scan"
proof -
  have "scan (before @ r # after) m path = Some (rt_endpoint r)"
    if "matches m path r" "list_all (\<lambda>r'. \<not> matches m path r') before" for before r after m path
    using that by (induction before) (auto simp: scan_def)
  then show ?thesis by (simp add: first_match_def)
qed

theorem routes_reachable_witness:
  "scan (app_routes create_app) GET [''bulk-actions'', ''42'', ''logs''] = Some GetLogs"
proof -
  let ?r = "mk_route GET [Lit ''bulk-actions'', Param ''action_id'', Lit ''logs''] GetLogs"
  have "?r \<in> set (app_routes create_app)"
    by (simp add: create_app_def bulk_actions_router_def with_prefix_def mk_route_def)
  moreover have "matches GET [''bulk-actions'', ''42'', ''logs''] ?r" by (simp add: matches_def mk_route_def match_path_def)
  ultimately show ?thesis using routes_reachable [OF scan_first_match, of ?r] by (simp add: mk_route_def)
qed

section \<open>The registry endpoint\<close>

lemma discover_invariant:
  assumes "\<And>d reg reg'. register d reg = Inr reg' \<Longrightarrow> P reg \<Longrightarrow> P reg'" and "P reg" and "discover register ds reg = Inr reg'"
  shows "P reg'"
  using assms(2,3) by (induction ds arbitrary: reg) (auto split: sum.splits intro: assms(1))

lemma set_dict_set_keys: "fst ` set (dict_set k v reg) = insert k (fst ` set reg)"
  by (induction k v reg rule: dict_set.induct) auto

lemma distinct_dict_set: "distinct (map fst reg) \<Longrightarrow> distinct (map fst (dict_set k v reg))"
  by (induction reg) (auto simp: set_dict_set_keys)

lemma discovered_entities: "discover register_entity ds [] = Inr es \<Longrightarrow> distinct (map fst es)"
  by (erule discover_invariant [rotated 2])
    (auto simp: register_entity_def distinct_dict_set split: if_splits option.splits)

lemma discovered_actions: "discover register_action hs [] = Inr acts \<Longrightarrow> distinct (map fst acts)"
  by (erule discover_invariant [rotated 2])
    (auto simp: register_action_def distinct_dict_set split: if_splits option.splits)

text \<open>
  The registry endpoint lists exactly what a submission may ask for. Whatever modules are
  registered, a pair of an entity and an action is among the supported combinations if and only if
  looking up the entity, and then the action for that entity, both succeed; and the shipped modules
  give the same answer whether the registries were filled at start or are filled by the request.
\<close>

theorem registry_lists_what_resolves:
  assumes "discover register_entity ds [] = Inr es" and "discover register_action hs [] = Inr acts"
  shows "((e, a) \<in> set (rs_supported_combinations (registry_snapshot title json_schema es acts)) \<longleftrightarrow>
      (\<exists>ent h. get_entity es e = Inr ent \<and> get_action acts a (Some e) = Inr h)) \<and>
    get_registry title json_schema fresh_process = Inr (registry_snapshot title json_schema shipped_entities shipped_actions)"
proof -
  have "(\<exists>ent. get_entity es e = Inr ent) \<longleftrightarrow> e \<in> fst ` set es"
    by (auto simp: get_entity_def map_of_eq_None_iff split: option.splits dest: map_of_SomeD intro: rev_image_eqI)
  moreover have "(\<exists>h. get_action acts a (Some e) = Inr h) \<longleftrightarrow> (\<exists>h. (a, h) \<in> set acts \<and> supports h e)"
    using discovered_actions [OF assms(2)]
    by (auto simp: get_action_def map_of_eq_Some_iff split: option.splits if_splits dest: eq_key_imp_eq_value)
  moreover have "(e, a) \<in> set (supported_combinations es acts) \<longleftrightarrow> e \<in> fst ` set es \<and> (\<exists>h. (a, h) \<in> set acts \<and> supports h e)"
    unfolding supported_combinations_def set_concat set_map set_sort set_filter by (auto split: prod.splits intro!: bexI)
  moreover have "get_registry title json_schema fresh_process = Inr (registry_snapshot title json_schema shipped_entities shipped_actions)"
    by (simp add: get_registry_def all_entities_def all_actions_def discover_once_def discover_actions_once_def
        fresh_process_def discover_entities_shipped discover_actions_shipped)
  ultimately show ?thesis by (simp add: registry_snapshot_def)
qed

theorem registry_lists_what_resolves_witness:
  "(''contact'', ''update'') \<in> set (rs_supported_combinations (registry_snapshot id (\<lambda>_. []) shipped_entities shipped_actions)) \<and>
   (\<exists>ent h. get_entity shipped_entities ''contact'' = Inr ent \<and> get_action shipped_actions ''update'' (Some ''contact'') = Inr h)"
proof -
  have "\<exists>ent h. get_entity shipped_entities ''contact'' = Inr ent \<and> get_action shipped_actions ''update'' (Some ''contact'') = Inr h"
    by (simp add: get_entity_def shipped_entities_def get_action_def shipped_actions_def supports_def update_handler_def)
  with registry_lists_what_resolves [OF discover_entities_shipped [unfolded discover_entities_def]
      discover_actions_shipped [unfolded discover_actions_def], of "''contact''" "''update''" id "\<lambda>_. []"]
  show ?thesis by blast
qed

end
