(* ===== verification/Closing.thy ===== *)
theory Closing
  imports Lifecycle
begin

text \<open>
  Who closes an action. An action is due when it is processing and every batch has reported; it is closed
  by a task that still has its closing transaction to run. Over the interleaved system of \<open>System\<close>, a due
  action always has such a task, unless one of three things happens, and each of the three leaves it open.
\<close>

definition due :: "db \<Rightarrow> uuid \<Rightarrow> bool" where
  "due d aid = (case load_action d aid of
       None \<Rightarrow> False
     | Some a \<Rightarrow> ba_status a = PROCESSING \<and> ba_total_batches a \<le> ba_completed_batches a)"

fun closes_for :: "uuid \<Rightarrow> task \<Rightarrow> bool" where
  "closes_for aid (FinishTask x n g) \<longleftrightarrow> x = aid"
| "closes_for aid (CloseTask x) \<longleftrightarrow> x = aid"
| "closes_for aid _ \<longleftrightarrow> False"

definition owed :: "uuid \<Rightarrow> sys \<Rightarrow> bool" where
  "owed aid s \<longleftrightarrow> (due (sy_db s) aid \<longrightarrow> list_ex (closes_for aid) (sy_tasks s))"

lemma due_load: "load_action d' aid = load_action d aid \<Longrightarrow> due d' aid = due d aid"
  by (simp add: due_def)

lemma due_same: "db_actions d' = db_actions d \<Longrightarrow> due d' aid = due d aid"
  by (simp add: due_def load_action_def)

text \<open>A status other than \<open>processing\<close> is never due.\<close>

lemma update_not_due:
  assumes "due (update_actions p f d) aid" and "\<And>a. ba_id (f a) = ba_id a" and "\<And>a. ba_status (f a) \<noteq> PROCESSING"
  shows "due d aid"
proof -
  have "load_action (update_actions p f d) aid = map_option (\<lambda>a. if p a then f a else a) (load_action d aid)"
    using assms(2) by (intro load_upd_where) (simp_all add: update_actions_def)
  with assms(1,3) show ?thesis by (auto simp: due_def split: option.splits if_splits)
qed

lemma plan_open_due: "due (plan_open x now d) aid \<Longrightarrow> due d aid"
  unfolding plan_open_def by (erule update_not_due) simp_all

lemma fail_action_due: "due (fail_action x err now d) aid \<Longrightarrow> due d aid"
  unfolding fail_action_def by (erule update_not_due) simp_all

lemma cancel_due: "due (fst (cancel_bulk_action x now d)) aid \<Longrightarrow> due d aid"
  by (auto simp: cancel_bulk_action_def session_scope_def Let_def elim: update_not_due
      split: sum.splits if_splits list.splits)

lemma finalize_due:
  assumes "distinct (map ba_id (db_actions d))" and "due (snd (finalize_if_complete x now d)) aid"
  shows "due d aid \<and> x \<noteq> aid"
proof (cases "x = aid")
  case True
  from assms(2) obtain a where a: "load_action d aid = Some a"
    by (cases "load_action d aid") (auto simp: True due_def finalize_eq [OF assms(1)])
  then show ?thesis
    using assms(2) load_finalize [OF assms(1) a, of now] by (auto simp: True due_def final_status_def split: if_splits)
next
  case False
  then have "load_action (snd (finalize_if_complete x now d)) aid = load_action d aid"
    using load_finalize_other [OF assms(1)] by metis
  with False assms(2) show ?thesis by (simp add: due_def)
qed

lemma plan_finish_due: "due (plan_finish x te tb now d) aid \<Longrightarrow> x = aid \<or> due d aid"
  using load_plan_finish_other [of aid x te tb now d] by (cases "x = aid") (auto simp: due_def)

lemma counted_due:
  assumes "db_actions d' = upd_where (\<lambda>a. ba_id a = x) f (db_actions d)" and "\<And>a. ba_id (f a) = ba_id a"
    and "due d' aid"
  shows "x = aid \<or> due d aid"
  using assms(3) load_action_id [of d aid]
  by (cases "load_action d aid") (auto simp: due_def load_upd_where [OF assms(1,2)] split: if_splits)

lemma run_batch_due:
  assumes "get_action shipped_actions t n = Inr h" and "run_batch D now action batch ent h config d = Inr (outcomes, d')"
    and "due d' aid"
  shows "ba_id action = aid \<or> due d aid"
proof (rule counted_due)
  show "db_actions d' = upd_where (\<lambda>a. ba_id a = ba_id action) (counted_result outcomes) (db_actions d)"
    by (rule action_handler.run_batch_spec [OF shipped_handler [OF assms(1)] assms(2)])
qed (use assms(3) in \<open>simp_all add: counted_result_def add_counts_def\<close>)

lemma mark_batch_failed_due: "due (mark_batch_failed E x bid n err now d) aid \<Longrightarrow> x = aid \<or> due d aid"
  by (rule counted_due [OF mark_batch_failed_actions]) (simp_all add: add_counts_def)

lemma insert_action_due:
  assumes "insert_action a d = Inr d'" and "ba_status a \<noteq> PROCESSING" and "due d' aid"
  shows "due d aid"
proof -
  have d': "db_actions d' = db_actions d @ [a]" using assms(1) by (auto simp: insert_action_def split: if_splits)
  show ?thesis
  proof (cases "load_action d aid")
    case None
    with assms(2,3) show ?thesis by (auto simp: due_def load_action_def d' find_append_None split: if_splits)
  next
    case (Some b)
    have "find p xs = Some b \<Longrightarrow> find p (xs @ ys) = Some b" for p xs ys by (induction xs) (auto split: if_splits)
    with Some assms(3) show ?thesis by (simp add: due_def load_action_def d')
  qed
qed

lemma plan_page_due: "plan_page E uuid4 now x pl d = (d', calls, r) \<Longrightarrow> due d' aid = due d aid"
  by (rule due_same) (rule plan_page_actions)

lemma cancel_batch_due: "due (cancel_batch bid now d) aid = due d aid"
  by (rule due_same) (simp add: cancel_batch_def)

lemma mark_attempt_due: "due (mark_attempt bid now d) aid = due d aid"
  by (rule due_same) (simp add: mark_attempt_def)

section \<open>Steps of a task\<close>

lemma task_step_due:
  assumes "task_step E t (d, R) (d', R') calls t'" and "db_ok d" and "task_ok d t" and "due d' aid"
  shows "due d aid \<or> (\<exists>u. t' = Some u \<and> closes_for aid u) \<or> (\<exists>te tb. t = PlannedTask aid te tb)"
proof -
  have dist: "distinct (map ba_id (db_actions d))" using assms(2) by (simp add: db_ok_def keys_ok_def)
  show ?thesis
    using assms(1)
  proof cases
    case (work_commits w now outcomes x n g)
    then have "ba_id (wk_action w) = aid \<or> due d aid" "ba_id (wk_action w) = x"
      using assms(3,4) by (auto simp: execute_work_def dest: run_batch_due)
    with work_commits show ?thesis by auto
  next
    case (commits a)
    then show ?thesis using assms(3,4) insert_action_due [of a d d' aid] by auto
  next
    case (finishes x n g now)
    then show ?thesis using finalize_due [OF dist] assms(4) by (auto simp: finish_txn_def Let_def)
  next
    case (closes x now)
    then show ?thesis using finalize_due [OF dist] assms(4) by auto
  next
    case (gives_up n x g e now)
    then have "x = aid \<or> due d aid" using assms(4) mark_batch_failed_due by simp
    with gives_up show ?thesis by auto
  next
    case (plan_finishes x te tb now)
    then have "x = aid \<or> due d aid" using assms(4) plan_finish_due by simp
    with plan_finishes show ?thesis by auto
  qed (use assms(4) in \<open>auto simp: plan_fail_def cancel_batch_due mark_attempt_due
      dest: plan_open_due fail_action_due plan_page_due\<close>)
qed

text \<open>A task that closes does so in one step, unless its transaction fails.\<close>

lemma closer_steps:
  assumes "task_step E t (d, R) (d', R') calls t'" and "db_ok d" and "closes_for aid t" and "due d' aid"
  shows "\<exists>n g e. t = FinishTask aid n g \<and> t' = Some (ErrorTask aid n g e)"
proof -
  have dist: "distinct (map ba_id (db_actions d))" using assms(2) by (simp add: db_ok_def keys_ok_def)
  show ?thesis
    using assms(1) finalize_due [OF dist] assms(3,4) by cases (auto simp: finish_txn_def Let_def)
qed

section \<open>Steps of the system\<close>

text \<open>The three ways in which a due action can lose the task that would close it.\<close>

definition dies_before_closing :: "uuid \<Rightarrow> sys \<Rightarrow> sys \<Rightarrow> bool" where
  "dies_before_closing aid s s' \<longleftrightarrow> (\<exists>ts t us. sy_tasks s = ts @ t # us \<and> closes_for aid t \<and> s' = s\<lparr> sy_tasks := ts @ us \<rparr>)"

definition fails_to_close :: "uuid \<Rightarrow> sys \<Rightarrow> sys \<Rightarrow> bool" where
  "fails_to_close aid s s' \<longleftrightarrow> (\<exists>ts n g e us. sy_tasks s = ts @ FinishTask aid n g # us \<and>
     sy_tasks s' = ts @ ErrorTask aid n g e # us)"

definition planned_late :: "uuid \<Rightarrow> sys \<Rightarrow> sys \<Rightarrow> bool" where
  "planned_late aid s s' \<longleftrightarrow> \<not> due (sy_db s) aid \<and> (\<exists>ts te tb us. sy_tasks s = ts @ PlannedTask aid te tb # us \<and> sy_tasks s' = ts @ us)"

lemma run_owed:
  assumes "sy_tasks s = ts @ t # us" and "task_step E t (sy_db s, sy_redis s) (d', R') calls t'" and "sys_ok s" and "owed aid s"
    and "s' = s\<lparr> sy_db := d', sy_redis := R', sy_calls := sy_calls s @ calls, sy_tasks := ts @ (case t' of None \<Rightarrow> [] | Some u \<Rightarrow> [u]) @ us \<rparr>"
    and "due d' aid"
  shows "list_ex (closes_for aid) (sy_tasks s') \<or> fails_to_close aid s s' \<or> planned_late aid s s'"
proof -
  have ok: "db_ok (sy_db s)" "task_ok (sy_db s) t" using assms(1,3) by (simp_all add: sys_ok_def)
  consider (was) "due (sy_db s) aid" | (gets) u where "t' = Some u" "closes_for aid u"
    | (late) te tb where "\<not> due (sy_db s) aid" "t = PlannedTask aid te tb"
    using task_step_due [OF assms(2) ok assms(6)] by blast
  then show ?thesis
  proof cases
    case was
    then have ex: "list_ex (closes_for aid) (ts @ t # us)" using assms(1,4) by (simp add: owed_def)
    show ?thesis
    proof (cases "closes_for aid t")
      case True
      from closer_steps [OF assms(2) ok(1) True assms(6)] obtain n g e where
        "t = FinishTask aid n g" "t' = Some (ErrorTask aid n g e)" by blast
      then have "sy_tasks s = ts @ FinishTask aid n g # us" "sy_tasks s' = ts @ ErrorTask aid n g e # us"
        using assms(1,5) by simp_all
      then show ?thesis unfolding fails_to_close_def by blast
    next
      case False
      with ex show ?thesis using assms(5) by (auto split: option.splits)
    qed
  next
    case gets
    then show ?thesis using assms(5) by simp
  next
    case late
    then have "t' = None" using assms(2) by (auto elim: task_step.cases)
    with late assms(1,5) have "sy_tasks s = ts @ PlannedTask aid te tb # us" "sy_tasks s' = ts @ us" by simp_all
    with late(1) show ?thesis unfolding planned_late_def by blast
  qed
qed

lemma crash_owed:
  assumes "sy_tasks s = ts @ t # us" and "owed aid s" and "s' = s\<lparr> sy_tasks := ts @ us \<rparr>" and "due (sy_db s') aid"
  shows "list_ex (closes_for aid) (sy_tasks s') \<or> dies_before_closing aid s s'"
proof (cases "closes_for aid t")
  case True
  with assms(1,3) show ?thesis by (auto simp: dies_before_closing_def)
next
  case False
  with assms show ?thesis by (auto simp: owed_def)
qed

lemma step_owed:
  assumes "step E s s'" and "sys_ok s" and "owed aid s" and "due (sy_db s') aid"
  shows "list_ex (closes_for aid) (sy_tasks s') \<or> dies_before_closing aid s s' \<or> fails_to_close aid s s' \<or> planned_late aid s s'"
  using assms(1)
proof cases
  case (run ts t us d' R' calls t')
  then have "due d' aid" using assms(4) by simp
  from run_owed [OF run(2,3) assms(2,3) run(1) this] show ?thesis by blast
next
  case (crash ts t us)
  from crash_owed [OF crash(2) assms(3) crash(1) assms(4)] show ?thesis by blast
next
  case (cancel x now)
  then have "due (sy_db s) aid" using assms(4) cancel_due by auto
  with cancel assms(3) show ?thesis by (simp add: owed_def)
qed (use assms(3,4) in \<open>auto simp: owed_def submitted_def create_account_def update_account_def due_def load_action_def Let_def
      split: sum.splits\<close>)

lemma closer_enabled:
  assumes "closes_for aid t"
  shows "\<exists>t'. task_step E t (d, R) (snd (finalize_if_complete aid now d), R) [] t'"
  using assms task_step.finishes [of E aid _ _ d R now] task_step.closes [of E aid d R now]
  by (cases "(aid, t)" rule: closes_for.cases) (auto simp: finish_txn_def Let_def)

lemma due_closes:
  assumes "sys_ok s" and "owed aid s" and "due (sy_db s) aid"
  shows "\<exists>s' a. step E s s' \<and> load_action (sy_db s') aid = Some a \<and> ba_status a \<in> {COMPLETED, COMPLETED_WITH_ERRORS}"
proof -
  obtain ts t us where t: "sy_tasks s = ts @ t # us" "closes_for aid t"
    using assms(2,3) unfolding owed_def list_ex_iff by (meson in_set_conv_decomp)
  obtain t' where "task_step E t (sy_db s, sy_redis s) (snd (finalize_if_complete aid 0 (sy_db s)), sy_redis s) [] t'"
    using closer_enabled [OF t(2)] by blast
  from step.run [OF t(1) this] obtain s' where st: "step E s s'" "sy_db s' = snd (finalize_if_complete aid 0 (sy_db s))"
    by fastforce
  obtain a where a: "load_action (sy_db s) aid = Some a" "ba_status a = PROCESSING" "ba_total_batches a \<le> ba_completed_batches a"
    using assms(3) by (auto simp: due_def split: option.splits)
  have "distinct (map ba_id (db_actions (sy_db s)))" using assms(1) by (simp add: sys_ok_def db_ok_def keys_ok_def)
  from load_finalize [OF this a(1), of 0] a(2,3) have "\<exists>a'. load_action (snd (finalize_if_complete aid 0 (sy_db s))) aid = Some a' \<and>
      ba_status a' \<in> {COMPLETED, COMPLETED_WITH_ERRORS}" by (simp add: final_status_def)
  with st show ?thesis by auto
qed

section \<open>Properties\<close>

text \<open>
  (C6) A finished action is owed its closing. In every reachable state in which a due action has a task that
  will close it, one step of that task closes it, completed or completed with errors; and whatever step
  the platform takes instead, the action still has such a task if it is still due, with three exceptions:
  the task dies, its closing transaction fails, or the planner's last transaction comes after the last
  batch has reported. An action that is not due, a new one for example, is owed nothing, so nothing else
  ever strands an action.
\<close>

theorem closing_is_owed:
  assumes "reachable E s" and "e_actions E = shipped_actions" and "owed aid s"
  shows "(due (sy_db s) aid \<longrightarrow> (\<exists>s' a. step E s s' \<and> load_action (sy_db s') aid = Some a \<and>
      ba_status a \<in> {COMPLETED, COMPLETED_WITH_ERRORS})) \<and>
    (\<forall>s'. step E s s' \<longrightarrow> owed aid s' \<or> dies_before_closing aid s s' \<or> fails_to_close aid s s' \<or> planned_late aid s s')"
proof -
  have ok: "sys_ok s" by (rule reachable_ok [OF assms(1,2)])
  have "owed aid s' \<or> dies_before_closing aid s s' \<or> fails_to_close aid s s' \<or> planned_late aid s s'" if "step E s s'" for s'
    using step_owed [OF that ok assms(3)] by (auto simp: owed_def)
  with due_closes [OF ok assms(3)] show ?thesis by blast
qed

theorem closing_is_owed_witness:
  "\<exists>R s'. reachable example_env (example_state QUEUED R []) \<and> step example_env (example_state QUEUED R []) s' \<and> owed 500 s'"
proof -
  obtain R where r: "reachable example_env (example_state QUEUED R [])" using example_committed by blast
  let ?s = "example_state QUEUED R []"
  let ?s' = "?s\<lparr> sy_db := fst (cancel_bulk_action 500 10 (sy_db ?s)) \<rparr>"
  have e: "e_actions example_env = shipped_actions" by (simp add: example_env_def)
  have o: "owed 500 ?s" by (simp add: owed_def due_def load_action_def)
  have st: "step example_env ?s ?s'" by (rule step.cancel)
  have "\<not> dies_before_closing 500 ?s ?s'" "\<not> fails_to_close 500 ?s ?s'" "\<not> planned_late 500 ?s ?s'"
    by (simp_all add: dies_before_closing_def fails_to_close_def planned_late_def)
  with closing_is_owed [OF r e o] st have "owed 500 ?s'" by blast
  with r st show ?thesis by blast
qed


definition unclosed_db :: db where
  "unclosed_db = running_db\<lparr> db_actions := [(example_action PROCESSING example_age_update)\<lparr> ba_completed_batches := 1, ba_total_batches := 1 \<rparr>],
     db_batches := [example_batch B_COMPLETED 3] \<rparr>"


end
