(* ===== verification/Throughput.thy ===== *)
theory Throughput
  imports Tasks
begin

text \<open>
  The processing limit over the whole fleet. Any number of workers run batch jobs; what orders them is
  the one Redis call each makes. A delivery carries everything else it meets, in particular whatever
  database it reads, so that nothing is assumed about how the transactions interleave.
\<close>

record delivery =
  dv_faults :: faults
  dv_clock :: clock
  dv_try :: int
  dv_action :: uuid
  dv_index :: nat
  dv_deferrals :: nat
  dv_db :: db

definition deliver :: "env \<Rightarrow> delivery \<Rightarrow> redis \<Rightarrow> task_result" where
  "deliver E v R = process_batch E (dv_faults v) (dv_clock v) (dv_try v) (dv_action v) (dv_index v) (dv_deferrals v) R (dv_db v)"

text \<open>What a delivery asks of the limiter, if it comes that far, and whether it is let through.\<close>

definition at_gate :: "delivery \<Rightarrow> go option" where
  "at_gate v = (case preflight_read (dv_action v) (dv_index v) (dv_db v) of Inr (Inr (Inr g)) \<Rightarrow> Some g | _ \<Rightarrow> None)"

definition gate_call :: "delivery \<Rightarrow> go \<Rightarrow> redis \<Rightarrow> redis \<times> rate_decision result" where
  "gate_call v g R = consume_entities (go_account_id g) (go_limit_per_minute g) (int (go_entity_count g))
     (ck_now_ms (dv_clock v)) (ck_redis_ms (dv_clock v)) R"

definition past_gate :: "delivery \<Rightarrow> redis \<Rightarrow> bool" where
  "past_gate v R = (case at_gate v of
       None \<Rightarrow> False
     | Some g \<Rightarrow> (case snd (gate_call v g R) of Inl e \<Rightarrow> False | Inr decision \<Rightarrow> rd_allowed decision))"

text \<open>The entities of one account whose batches are let through, over a sequence of deliveries.\<close>

fun granted :: "env \<Rightarrow> uuid \<Rightarrow> delivery list \<Rightarrow> redis \<Rightarrow> int" where
  "granted E acc [] R = 0"
| "granted E acc (v # vs) R =
     (case at_gate v of
        None \<Rightarrow> 0
      | Some g \<Rightarrow> if go_account_id g = acc \<and> past_gate v R then int (go_entity_count g) else 0) +
     granted E acc vs (tr_redis (deliver E v R))"

section \<open>What a delivery does to the limiter\<close>

lemma deliver_redis:
  "tr_redis (deliver E v R) = (case at_gate v of None \<Rightarrow> R | Some g \<Rightarrow> fst (gate_call v g R))"
  by (simp add: deliver_def process_batch_def at_gate_def gate_call_def preflight_def session_scope_def Let_def case_prod_beta
      split: sum.splits prod.splits)

lemma turned_away:
  assumes "\<not> past_gate v R"
  shows "db_crm (tr_db (deliver E v R)) = db_crm (dv_db v)" and "db_logs (tr_db (deliver E v R)) = db_logs (dv_db v)"
    and "db_actions (tr_db (deliver E v R)) = db_actions (dv_db v)"
  using assms
  by (simp_all add: deliver_def process_batch_def past_gate_def at_gate_def gate_call_def preflight_def session_scope_def Let_def
      case_prod_beta cancel_batch_def split: sum.splits prod.splits)

abbreviation entity_key :: "uuid \<Rightarrow> string" where
  "entity_key acc \<equiv> rl_key ''rl'' ''entities'' (uuid_str acc)"

lemma entity_key_inj: "entity_key a = entity_key b \<longleftrightarrow> a = b"
  using uuid_str_inj by (auto simp: rl_key_def)

lemma consume_other:
  "rl_key ''rl'' scope identity \<noteq> k \<Longrightarrow> fst (consume scope identity limit amount now_ms rnow R) k = R k"
  by (simp add: consume_def Let_def case_prod_beta script_bucket)

lemma gate_call_other: "go_account_id g \<noteq> acc \<Longrightarrow> fst (gate_call v g R) (entity_key acc) = R (entity_key acc)"
  by (simp add: gate_call_def consume_entities_def consume_other entity_key_inj)

text \<open>The limiter looks at its own bucket only.\<close>

lemma gate_take_cong:
  assumes "R (rl_key ''rl'' scope identity) = S (rl_key ''rl'' scope identity)"
  shows "snd (gate_take scope identity limit c n R) = snd (gate_take scope identity limit c n S)"
    and "fst (gate_take scope identity limit c n R) (rl_key ''rl'' scope identity) =
      fst (gate_take scope identity limit c n S) (rl_key ''rl'' scope identity)"
  using assms
  by (cases "0 < n \<and> n \<le> limit"; simp add: gate_take_consume gate_take_other gate_level_def hmget_def script_bucket Let_def)+

lemma admitted_cong:
  "R (rl_key ''rl'' scope identity) = S (rl_key ''rl'' scope identity) \<Longrightarrow>
   admitted (gate_take scope identity limit) calls R = admitted (gate_take scope identity limit) calls S"
proof (induction calls arbitrary: R S)
  case (Cons call calls)
  obtain c n where call: "call = (c, n)" by (cases call)
  note g = gate_take_cong [where R = R and S = S and c = c and n = n and limit = limit, OF Cons.prems]
  have "admitted (gate_take scope identity limit) calls (fst (gate_take scope identity limit c n R)) =
      admitted (gate_take scope identity limit) calls (fst (gate_take scope identity limit c n S))"
    by (rule Cons.IH) (rule g(2))
  with g(1) show ?case by (simp add: call)
qed simp

section \<open>The fleet is one caller\<close>

definition calls_of :: "uuid \<Rightarrow> delivery list \<Rightarrow> ((int \<times> int) \<times> int) list" where
  "calls_of acc vs = concat (map (\<lambda>v. case at_gate v of
       None \<Rightarrow> []
     | Some g \<Rightarrow> if go_account_id g = acc
         then [((ck_now_ms (dv_clock v), ck_redis_ms (dv_clock v)), int (go_entity_count g))] else []) vs)"

lemma gate_call_take:
  assumes "go_account_id g = acc" and "go_limit_per_minute g = limit"
  shows "gate_take ''entities'' (uuid_str acc) limit (ck_now_ms (dv_clock v), ck_redis_ms (dv_clock v)) (int (go_entity_count g)) R =
    (fst (gate_call v g R), 0 < go_entity_count g \<and>
      (case snd (gate_call v g R) of Inl e \<Rightarrow> False | Inr decision \<Rightarrow> rd_allowed decision))"
  using assms by (simp add: gate_take_def gate_call_def consume_entities_def split: prod.splits sum.splits)

lemma granted_admitted:
  assumes "\<forall>v \<in> set vs. \<forall>g. at_gate v = Some g \<and> go_account_id g = acc \<longrightarrow> go_limit_per_minute g = limit"
  shows "granted E acc vs R = admitted (gate_take ''entities'' (uuid_str acc) limit) (calls_of acc vs) R"
  using assms
proof (induction vs arbitrary: R)
  case (Cons v vs)
  show ?case
  proof (cases "at_gate v")
    case None
    with Cons show ?thesis by (simp add: calls_of_def deliver_redis)
  next
    case (Some g)
    show ?thesis
    proof (cases "go_account_id g = acc")
      case True
      then have "go_limit_per_minute g = limit" using Cons.prems Some by simp
      from gate_call_take [OF True this] show ?thesis
        using Cons Some True by (simp add: calls_of_def deliver_redis past_gate_def)
    next
      case False
      have "granted E acc (v # vs) R = admitted (gate_take ''entities'' (uuid_str acc) limit) (calls_of acc vs) (fst (gate_call v g R))"
        using Cons Some False by (simp add: deliver_redis)
      also have "\<dots> = admitted (gate_take ''entities'' (uuid_str acc) limit) (calls_of acc vs) R"
        by (rule admitted_cong) (rule gate_call_other [OF False])
      finally show ?thesis using Some False by (simp add: calls_of_def)
    qed
  qed
qed (simp add: calls_of_def)

lemma calls_of_clocks:
  "(c, n) \<in> set (calls_of acc vs) \<Longrightarrow> \<exists>v \<in> set vs. c = (ck_now_ms (dv_clock v), ck_redis_ms (dv_clock v)) \<and> 0 \<le> n"
  by (auto simp: calls_of_def split: option.splits if_splits)

lemma calls_of_sorted: "sorted (map (ck_now_ms \<circ> dv_clock) vs) \<Longrightarrow> sorted (map (fst \<circ> fst) (calls_of acc vs))"
proof (induction vs)
  case (Cons v vs)
  have "ck_now_ms (dv_clock v) \<le> fst (fst call)" if "call \<in> set (calls_of acc vs)" for call
    using that Cons.prems calls_of_clocks [of "fst call" "snd call" acc vs] by auto
  with Cons show ?case by (auto simp: calls_of_def split: option.splits)
qed (simp add: calls_of_def)

lemma granted_nonneg: "0 \<le> granted E acc vs R"
  by (induction vs arbitrary: R) (auto split: option.splits)

lemma between_ends: "sorted (map f vs) \<Longrightarrow> v \<in> set vs \<Longrightarrow> f (hd vs) \<le> f v \<and> f v \<le> (f (last vs) :: int)"
proof
  assume "sorted (map f vs)" "v \<in> set vs"
  then show "f (hd vs) \<le> f v" by (cases vs) auto
  show "f v \<le> f (last vs)" using \<open>sorted (map f vs)\<close> \<open>v \<in> set vs\<close> by (cases vs rule: rev_cases) (auto simp: sorted_append)
qed


definition example_delivery :: "int \<Rightarrow> delivery" where
  "example_delivery t = \<lparr> dv_faults = \<lparr> fx_execute = None, fx_finish = None \<rparr>,
     dv_clock = \<lparr> ck_now = 9, ck_now_ms = t, ck_redis_ms = t \<rparr>, dv_try = 1, dv_action = 100, dv_index = 0,
     dv_deferrals = 0, dv_db = running_db \<rparr>"

lemma example_at_gate: "at_gate (example_delivery t) = Some example_go"
  by (simp add: at_gate_def example_delivery_def preflight_read_def running_db_def load_action_def load_batch_def
      load_account_def example_action_def example_batch_def example_db_def example_go_def)


text \<open>
  The limiter is charged the count the planner recorded. A range in which rows have appeared since, inserted or newly
  matching the filter, is processed in full: the run reports one outcome per row it finds, more than it paid for.
\<close>

lemma grown_range_undercharged:
  assumes "get_action shipped_actions t n = Inr h" and "run_batch D now action batch ent h config d = Inr (outcomes, d')"
    and "load_batch_rows D ent (ba_account_id action) batch (selection_filters config) (h_include_deleted h) d = Inr rows"
  shows "length outcomes = max (bb_entity_count batch) (length rows)"
  using action_handler.run_batch_spec [OF shipped_handler [OF assms(1)] assms(2)] assms(3) by (metis sum.inject(2))

end
