(* ===== verification/Retries.thy ===== *)
theory Retries
  imports EndToEnd
begin

text \<open>
  A batch job over its tries. \<open>process_batch\<close> leaves a job that raises to the queue and records the batch as
  failed only on the try numbered \<open>job_max_tries\<close>. Whether the queue runs a job again after an exception is
  a decision of the queue, so it is a parameter: \<open>again\<close> says for which exceptions it does. Between two tries
  other tasks and clients change the limiter and the database as they like (\<open>others\<close>), and every try has its own
  faults and clock (\<open>world\<close>).
\<close>

type_synonym worlds = "int \<Rightarrow> faults \<times> clock"
type_synonym disturbance = "int \<Rightarrow> redis \<times> db \<Rightarrow> redis \<times> db"

definition attempt :: "env \<Rightarrow> worlds \<Rightarrow> int \<Rightarrow> uuid \<Rightarrow> nat \<Rightarrow> nat \<Rightarrow> redis \<times> db \<Rightarrow> task_result" where
  "attempt E world job_try aid i deferrals s =
     process_batch E (fst (world job_try)) (snd (world job_try)) job_try aid i deferrals (fst s) (snd s)"

function run_job :: "env \<Rightarrow> (exn \<Rightarrow> bool) \<Rightarrow> worlds \<Rightarrow> disturbance \<Rightarrow> int \<Rightarrow> uuid \<Rightarrow> nat \<Rightarrow> nat \<Rightarrow> redis \<times> db \<Rightarrow> task_result" where
  "run_job E again world others job_try aid i deferrals s =
     (let r = attempt E world job_try aid i deferrals s
      in case tr_reply r of
           Inr reply \<Rightarrow> r
         | Inl e \<Rightarrow>
             if again e \<and> job_try < s_job_max_tries (e_settings E)
             then run_job E again world others (job_try + 1) aid i deferrals (others job_try (tr_redis r, tr_db r))
             else r)"
  by pat_completeness auto
termination by (relation "measure (\<lambda>(E, again, world, others, job_try, aid, i, deferrals, s). nat (s_job_max_tries (e_settings E) - job_try))") auto

declare run_job.simps [simp del]

section \<open>Where a try can raise\<close>

text \<open>The account row is gone, or the batch is larger than the limit: both are met before the \<open>try\<close> block.\<close>

definition stuck_before_work :: "uuid \<Rightarrow> nat \<Rightarrow> db \<Rightarrow> bool" where
  "stuck_before_work aid i d = (case preflight_read aid i d of
       Inl e \<Rightarrow> True
     | Inr (Inr (Inr g)) \<Rightarrow> 0 < go_entity_count g \<and> go_limit_per_minute g < int (go_entity_count g)
     | _ \<Rightarrow> False)"

lemma run_work_last_try:
  "s_job_max_tries (e_settings E) \<le> job_try \<Longrightarrow> \<exists>reply. snd (snd (run_work E fx job_try aid bid n now d)) = Inr reply"
  by (simp add: run_work_def on_batch_error_def Let_def case_prod_beta split: prod.splits sum.splits option.splits)

lemma consume_raises: "snd (consume scope identity limit n now_ms rnow R) = Inl e \<Longrightarrow> 0 < n \<and> limit < n"
  by (simp add: consume_def Let_def case_prod_beta split: if_splits)

lemma last_try_raises:
  assumes "tr_reply (process_batch E fx ck job_try aid i deferrals R d) = Inl e" and "s_job_max_tries (e_settings E) \<le> job_try"
  shows "stuck_before_work aid i d"
proof -
  have "snd (snd (run_work E fx job_try aid bid n now d')) \<noteq> Inl e" for bid n now d'
    using run_work_last_try [OF assms(2), of fx aid bid n now d'] by auto
  with assms(1) show ?thesis
    by (auto simp: process_batch_def preflight_def session_scope_def stuck_before_work_def consume_entities_def Let_def case_prod_beta
        split: sum.splits prod.splits if_splits dest!: consume_raises)
qed

lemma run_job_again:
  "tr_reply (attempt E world t aid i deferrals s) = Inl e \<Longrightarrow> again e \<Longrightarrow> t < s_job_max_tries (e_settings E) \<Longrightarrow>
   run_job E again world others t aid i deferrals s = run_job E again world others (t + 1) aid i deferrals
     (others t (tr_redis (attempt E world t aid i deferrals s), tr_db (attempt E world t aid i deferrals s)))"
  by (subst run_job.simps) (simp add: Let_def)

lemma run_job_stop:
  "(\<And>e. tr_reply (attempt E world t aid i deferrals s) = Inl e \<Longrightarrow> \<not> (again e \<and> t < s_job_max_tries (e_settings E))) \<Longrightarrow>
   run_job E again world others t aid i deferrals s = attempt E world t aid i deferrals s"
  by (subst run_job.simps) (auto simp: Let_def split: sum.splits)

lemma run_job_ends:
  assumes "t \<le> s_job_max_tries (e_settings E)"
  shows "\<exists>t' s'. t \<le> t' \<and> t' \<le> s_job_max_tries (e_settings E) \<and>
    run_job E again world others t aid i deferrals s = attempt E world t' aid i deferrals s' \<and>
    (\<forall>e. tr_reply (attempt E world t' aid i deferrals s') = Inl e \<longrightarrow> \<not> again e \<or> t' = s_job_max_tries (e_settings E))"
  using assms
proof (induction E again world others t aid i deferrals s rule: run_job.induct)
  case (1 E again world others t aid i deferrals s)
  let ?r = "attempt E world t aid i deferrals s"
  show ?case
  proof (cases "\<exists>e. tr_reply ?r = Inl e \<and> again e \<and> t < s_job_max_tries (e_settings E)")
    case True
    then obtain e where e: "tr_reply ?r = Inl e" "again e" "t < s_job_max_tries (e_settings E)" by blast
    then have "t + 1 \<le> s_job_max_tries (e_settings E)" by simp
    from 1(1) [OF refl e(1) conjI [OF e(2,3)] this] obtain t' s' where "t + 1 \<le> t'" "t' \<le> s_job_max_tries (e_settings E)"
      "run_job E again world others (t + 1) aid i deferrals (others t (tr_redis ?r, tr_db ?r)) = attempt E world t' aid i deferrals s'"
      "\<forall>e. tr_reply (attempt E world t' aid i deferrals s') = Inl e \<longrightarrow> \<not> again e \<or> t' = s_job_max_tries (e_settings E)"
      by blast
    then show ?thesis unfolding run_job_again [where again = again, OF e] by (intro exI [of _ t'] exI [of _ s']) simp
  next
    case False
    then have "run_job E again world others t aid i deferrals s = ?r" by (intro run_job_stop) blast
    with False 1(2) show ?thesis by (intro exI [of _ t] exI [of _ s]) auto
  qed
qed

section \<open>What a try reports\<close>

lemma find_updated_hit:
  "find q rows = Some r \<Longrightarrow> p r \<Longrightarrow> (\<And>x. q (g x) = q x) \<Longrightarrow> find q (upd_where p g rows) = Some (g r)"
  by (induction rows) (auto split: if_splits)

lemma load_batch_updated:
  assumes "load_batch d aid i = Some b" and "db_batches d' = upd_where p g (db_batches d)" and "p b"
    and "\<And>x. batch_slot (g x) = batch_slot x"
  shows "load_batch d' aid i = Some (g b)"
  using assms unfolding load_batch_def by (auto intro!: find_updated_hit simp: batch_slot_def)

lemma mark_attempt_loads:
  "load_batch d aid i = Some b \<Longrightarrow> bb_status b \<noteq> B_COMPLETED \<Longrightarrow> load_batch (mark_attempt (bb_id b) now d) aid i =
   Some (b\<lparr> bb_status := B_PROCESSING, bb_attempts := bb_attempts b + 1, bb_started_at := Some now \<rparr>)"
  by (rule load_batch_updated [where p = "\<lambda>x. bb_id x = bb_id b \<and> bb_status x \<noteq> B_COMPLETED" and
        g = "\<lambda>b. b\<lparr> bb_status := B_PROCESSING, bb_attempts := bb_attempts b + 1, bb_started_at := Some now \<rparr>"])
    (assumption, simp_all add: mark_attempt_def update_batches_def batch_slot_def)

lemma worked_batch_completed:
  assumes "try_execute E fx aid (bb_id b) now d = (d1, Inr (Inr outcomes))" and "e_actions E = shipped_actions"
    and "load_batch d aid i = Some b"
  shows "\<exists>b'. load_batch d1 aid i = Some b' \<and> bb_status b' = B_COMPLETED \<and> bb_id b' = bb_id b"
  using assms(1)
proof (rule try_execute_InrE)
  fix w assume w: "execute_read E aid (bb_id b) d = Inr (Inr w)" "execute_work E w now d = Inr (outcomes, d1)"
  from w(1) assms(2) obtain t n where "bb_id (wk_batch w) = bb_id b" and h: "get_action shipped_actions t n = Inr (wk_handler w)"
    by (fastforce simp: execute_read_def resolve_def rbind_Inr load_batch_by_id_def split: option.splits if_splits dest!: find_Some_mem)
  moreover have "db_batches d1 = upd_where (\<lambda>b. bb_id b = bb_id (wk_batch w)) (completed_with outcomes now) (db_batches d)"
    by (rule action_handler.run_batch_spec [OF shipped_handler [OF h] w(2) [unfolded execute_work_def]])
  ultimately have "load_batch d1 aid i = Some (completed_with outcomes now b)"
    by (intro load_batch_updated [OF assms(3), where p = "\<lambda>x. bb_id x = bb_id b" and g = "completed_with outcomes now"])
      (simp, simp_all add: completed_with_def batch_slot_def)
  then show ?thesis by (simp add: completed_with_def)
qed

text \<open>What is left behind by a try, according to its reply.\<close>

definition accounted :: "env \<Rightarrow> int \<Rightarrow> uuid \<Rightarrow> nat \<Rightarrow> nat \<Rightarrow> task_result \<Rightarrow> batch_reply \<Rightarrow> bool" where
  "accounted E job_try aid i deferrals r reply = (case reply of
       RateLimited ms \<Rightarrow> tr_calls r = [deferred_call aid i deferrals ms]
     | BatchDone s f k \<Rightarrow> (\<exists>b. load_batch (tr_db r) aid i = Some b \<and> bb_status b = B_COMPLETED)
     | BatchFailed err \<Rightarrow> job_try = s_job_max_tries (e_settings E) \<and>
         (\<exists>b. load_batch (tr_db r) aid i = Some b \<and> bb_status b = B_FAILED)
     | _ \<Rightarrow> True)"

lemma failed_batch_stays:
  assumes "load_batch d aid i = Some b"
  shows "\<exists>b'. load_batch (snd (finalize_if_complete aid now (mark_batch_failed E aid (bb_id b) n err now d))) aid i = Some b' \<and>
    bb_status b' = B_FAILED"
proof -
  have "load_batch (mark_batch_failed E aid (bb_id b) n err now d) aid i =
      Some (b\<lparr> bb_status := B_FAILED, bb_failure_count := n, bb_error := Some (take 2000 err), bb_finished_at := Some now \<rparr>)"
    by (rule load_batch_updated [OF assms mark_batch_failed_batches]) (simp_all add: batch_slot_def)
  then show ?thesis by simp
qed

lemma on_batch_error_accounted:
  assumes "on_batch_error E job_try aid (bb_id b) n e now d = (d', Inr reply)" and "load_batch d aid i = Some b"
    and "job_try \<le> s_job_max_tries (e_settings E)" and "tr_db r = d'"
  shows "accounted E job_try aid i deferrals r reply"
proof -
  have "reply = BatchFailed (e_str E e)" and t: "job_try = s_job_max_tries (e_settings E)"
    and d': "d' = snd (finalize_if_complete aid now (mark_batch_failed E aid (bb_id b) n (e_str E e) now d))"
    using assms(1,3) by (auto simp: on_batch_error_def split: if_splits)
  then show ?thesis
    using failed_batch_stays [OF assms(2), of now E n "e_str E e"] assms(4) by (simp only: accounted_def batch_reply.case simp_thms)
qed

lemma run_work_accounted:
  assumes "run_work E fx job_try aid (bb_id b) n now d = (d', pub, Inr reply)" and "load_batch d aid i = Some b"
    and "job_try \<le> s_job_max_tries (e_settings E)" and "e_actions E = shipped_actions" and "tr_db r = d'"
  shows "accounted E job_try aid i deferrals r reply"
proof -
  obtain d1 x where x: "try_execute E fx aid (bb_id b) now d = (d1, x)" by (cases "try_execute E fx aid (bb_id b) now d")
  consider (raised) e where "x = Inl e" | (idle) y where "x = Inr (Inl y)" | (worked) os where "x = Inr (Inr os)"
    by (metis sum.exhaust)
  then show ?thesis
  proof cases
    case raised
    with x have "d1 = d" by (simp add: try_execute_rollback)
    with raised x assms(1) have "on_batch_error E job_try aid (bb_id b) n e now d = (d', Inr reply)"
      by (auto simp: run_work_def split: prod.splits)
    then show ?thesis using assms(2,3,5) by (rule on_batch_error_accounted)
  next
    case idle
    then have "reply \<in> {Missing, AlreadyCompleted}"
      using x assms(1) by (auto simp: run_work_def try_execute_def execute_txn_def execute_read_def session_scope_def rbind_def
          split: option.splits sum.splits if_splits prod.splits)
    then show ?thesis by (auto simp: accounted_def)
  next
    case worked
    then have w: "try_execute E fx aid (bb_id b) now d = (d1, Inr (Inr os))" using x by simp
    from worked_batch_completed [OF w assms(4,2)] obtain b1 where
      b1: "load_batch d1 aid i = Some b1" "bb_status b1 = B_COMPLETED" "bb_id b1 = bb_id b" by blast
    show ?thesis
    proof (cases "fx_finish fx")
      case None
      then have "d' = snd (finalize_if_complete aid now d1)" "\<exists>s f k. reply = BatchDone s f k"
        using w assms(1) by (auto simp: run_work_def finish_txn_def Let_def)
      then show ?thesis using b1 assms(5) by (auto simp: accounted_def)
    next
      case (Some e)
      have "on_batch_error E job_try aid (bb_id b1) n e now d1 = (d', Inr reply)"
        using Some w assms(1) b1(3) by (auto simp: run_work_def split: prod.splits)
      then show ?thesis using b1(1) assms(3,5) by (rule on_batch_error_accounted)
    qed
  qed
qed

lemma attempt_accounted:
  assumes "tr_reply (process_batch E fx ck job_try aid i deferrals R d) = Inr reply"
    and "job_try \<le> s_job_max_tries (e_settings E)" and "e_actions E = shipped_actions"
  shows "accounted E job_try aid i deferrals (process_batch E fx ck job_try aid i deferrals R d) reply"
    (is "accounted E job_try aid i deferrals ?r reply")
proof (cases "preflight aid i (ck_now ck) d")
  case (Pair d1 x)
  consider (early) y where "x = Inr (Inl y)" | (go) g where "x = Inr (Inr g)"
    using assms(1) Pair by (cases x) (auto simp: process_batch_def split: sum.splits)
  then show ?thesis
  proof cases
    case early
    then have "reply \<in> {Missing, AlreadyCompleted, BatchCancelled}"
      using assms(1) Pair by (auto simp: process_batch_def preflight_defs session_scope_def split: option.splits if_splits)
    then show ?thesis by (auto simp: accounted_def)
  next
    case go
    with Pair Tasks.preflight_go obtain b where d1: "d1 = d" and b: "load_batch d aid i = Some b" "bb_status b \<noteq> B_COMPLETED"
      and g: "go_batch_id g = bb_id b" by fastforce
    note m = mark_attempt_loads [OF b, of "ck_now ck"]
    obtain R' y where c: "consume_entities (go_account_id g) (go_limit_per_minute g) (int (go_entity_count g))
        (ck_now_ms ck) (ck_redis_ms ck) R = (R', Inr y)"
      using assms(1) Pair go by (auto simp: process_batch_def split: prod.splits sum.splits)
    show ?thesis
    proof (cases "rd_allowed y")
      case False
      then show ?thesis using assms(1) Pair go c by (auto simp: process_batch_def accounted_def)
    next
      case True
      obtain d2 pub z where w: "run_work E fx job_try aid (bb_id b) (go_entity_count g) (ck_now ck)
          (mark_attempt (bb_id b) (ck_now ck) d) = (d2, pub, z)"
        by (metis prod.exhaust)
      have "z = Inr reply" "tr_db ?r = d2"
        using assms(1) Pair go c True w by (simp_all add: process_batch_def d1 g)
      then show ?thesis
        using run_work_accounted [of E fx job_try aid _ "go_entity_count g" "ck_now ck" _ d2 pub reply i, OF _ m assms(2,3), of ?r deferrals] w
        by simp
    qed
  qed
qed

section \<open>Jobs under two queues\<close>


definition failing_world :: worlds where
  "failing_world t = (\<lparr> fx_execute = Some NoResultFound, fx_finish = None \<rparr>, \<lparr> ck_now = 9, ck_now_ms = 0, ck_redis_ms = 0 \<rparr>)"


text \<open>
  (C35) A queue that does not run a job again after an ordinary exception loses the batch at the first one. If the
  work transaction of a first try raises such an exception, the job ends there: the batch row reads processing
  with one attempt more, no job for it is enqueued, nothing is published, and action, audit log and entities
  are as before, so the batch is never reported although tries are left.
\<close>

theorem unretried_job_loses_batch:
  assumes "1 < s_job_max_tries (e_settings E)" and "fx_execute (fst (world 1)) = Some e" and "\<not> again e"
    and "preflight_read aid i d = Inr (Inr (Inr g))" and "load_batch d aid i = Some b"
    and "consume_entities (go_account_id g) (go_limit_per_minute g) (int (go_entity_count g))
      (ck_now_ms (snd (world 1))) (ck_redis_ms (snd (world 1))) R = (R', Inr decision)" and "rd_allowed decision"
    and "run_job E again world others 1 aid i deferrals (R, d) = r"
  shows "tr_reply r = Inl e \<and> tr_calls r = [] \<and> tr_published r = [] \<and> db_actions (tr_db r) = db_actions d \<and>
    db_logs (tr_db r) = db_logs d \<and> db_crm (tr_db r) = db_crm d \<and>
    (\<exists>b'. load_batch (tr_db r) aid i = Some b' \<and> bb_status b' = B_PROCESSING \<and> bb_attempts b' = bb_attempts b + 1)"
proof -
  let ?r = "attempt E world 1 aid i deferrals (R, d)" and ?now = "ck_now (snd (world 1))"
  have g: "go_batch_id g = bb_id b" "bb_status b \<noteq> B_COMPLETED"
    using assms(4,5) by (auto simp: preflight_read_def split: option.splits if_splits)
  have "?r = \<lparr> tr_redis = R', tr_db = mark_attempt (bb_id b) ?now d, tr_calls = [], tr_published = [], tr_reply = Inl e \<rparr>"
    using assms(1,2,4,6,7) by (simp add: attempt_def process_batch_def preflight_def session_scope_def run_work_def try_execute_def
        on_batch_error_def g(1))
  moreover from this have "r = ?r" using assms(3,8) by (subst assms(8) [symmetric], intro run_job_stop) simp
  ultimately show ?thesis
    using mark_attempt_loads [OF assms(5) g(2), of ?now] by (simp add: mark_attempt_def)
qed

theorem unretried_job_loses_batch_witness:
  "\<exists>r. run_job example_env (\<lambda>_. False) failing_world (\<lambda>_ s. s) 1 100 0 0 (\<lambda>_. None, running_db) = r \<and>
    tr_reply r = Inl NoResultFound \<and> tr_calls r = [] \<and> db_actions (tr_db r) = db_actions running_db"
proof -
  obtain R' where c: "consume_entities (go_account_id example_go) (go_limit_per_minute example_go) (int (go_entity_count example_go))
      (ck_now_ms (snd (failing_world 1))) (ck_redis_ms (snd (failing_world 1))) (\<lambda>_. None) =
      (R', Inr \<lparr> rd_allowed = True, rd_retry_after_seconds = 0, rd_tokens_remaining = 597 \<rparr>)"
    using example_admitted by (auto simp: failing_world_def)
  have p: "preflight_read 100 0 running_db = Inr (Inr (Inr example_go))"
    by (simp add: preflight_read_def running_db_def load_action_def load_batch_def
      load_account_def example_action_def example_batch_def example_db_def example_go_def)
  obtain b where b: "load_batch running_db 100 0 = Some b"
    using p by (auto simp: preflight_read_def split: option.splits)
  have "1 < s_job_max_tries (e_settings example_env)" "fx_execute (fst (failing_world 1)) = Some NoResultFound"
    by (simp_all add: example_env_def failing_world_def)
  from unretried_job_loses_batch [where world = failing_world and again = "\<lambda>_. False" and others = "\<lambda>_ s. s" and deferrals = 0,
      OF this _ p b c _ refl]
  show ?thesis by simp
qed

end
