(* ===== verification/LoadTest.thy ===== *)
theory LoadTest
  imports Lifecycle
begin

text \<open>
  The load test (\<open>scripts/load_test.py\<close>), a client of the API: the submission it sends, the loop that polls
  the stats until the action is terminal, the steady-state rate and the totals it reports. Its clock
  readings and the replies are arguments; printing and argument parsing are left out.
\<close>

section \<open>Submitting\<close>

definition load_status :: "nat \<Rightarrow> nat \<Rightarrow> string" where
  "load_status i t = ''loadtest-'' @ nat_str i @ ''-'' @ nat_str t"

definition load_submission :: "uuid \<Rightarrow> string \<Rightarrow> string \<Rightarrow> int \<Rightarrow> string option \<Rightarrow> bulk_action_create" where
  "load_submission account_id entity status batch_size dedup =
     \<lparr> rq_account_id = account_id, rq_entity_type = entity, rq_action_type = ''update'',
       rq_payload = [(''updates'', PDict [(''status'', PStr status)]), (''filter'', PDict [])] @
         (case dedup of None \<Rightarrow> [] | Some f \<Rightarrow> if f = [] then [] else [(''deduplicate_by'', PStr f)]),
       rq_batch_size = Some batch_size, rq_scheduled_at = None, rq_idempotency_key = None \<rparr>"

section \<open>Polling\<close>

datatype load_error = TimeoutError | NotReady | HTTPStatusError nat

record poll =
  po_check :: rat
  po_stats :: stats
  po_sampled :: rat

definition done_statuses :: "string list" where
  "done_statuses = [''completed'', ''completed_with_errors'', ''failed'', ''cancelled'']"

text \<open>The loop over the polls it makes; it wants more polls when they are used up.\<close>

fun poll_loop :: "rat \<Rightarrow> poll list \<Rightarrow> (rat \<times> nat) list \<Rightarrow> (load_error + stats \<times> (rat \<times> nat) list) option" where
  "poll_loop deadline [] samples = None"
| "poll_loop deadline (p # ps) samples =
     (if po_check p < deadline then
        (let samples' = samples @ [(po_sampled p, st_processed_count (po_stats p))] in
         if st_status (po_stats p) \<in> set done_statuses then Some (Inr (po_stats p, samples'))
         else poll_loop deadline ps samples')
      else Some (Inl TimeoutError))"

definition wait_for :: "rat \<Rightarrow> rat \<Rightarrow> poll list \<Rightarrow> (load_error + stats \<times> (rat \<times> nat) list) option" where
  "wait_for start timeout ps = poll_loop (start + timeout) ps []"

section \<open>Measuring\<close>

definition pairwise :: "'a list \<Rightarrow> ('a \<times> 'a) list" where
  "pairwise xs = zip xs (tl xs)"

definition median :: "rat list \<Rightarrow> rat" where
  "median xs = (let s = sort xs; n = length xs in
     if odd n then s ! (n div 2) else (s ! (n div 2 - 1) + s ! (n div 2)) / 2)"

definition rate_between :: "rat \<times> nat \<Rightarrow> rat \<times> nat \<Rightarrow> rat" where
  "rate_between a b = (of_nat (snd b) - of_nat (snd a)) / (fst b - fst a) * 60"

definition interval_rates :: "(rat \<times> nat) list \<Rightarrow> rat list" where
  "interval_rates samples = map (\<lambda>(a, b). rate_between a b)
     (filter (\<lambda>(a, b). fst a < fst b) (pairwise (butlast (tl samples))))"

definition steady_state_rate :: "(rat \<times> nat) list \<Rightarrow> rat option" where
  "steady_state_rate samples =
     (if length samples < 4 then None
      else let rates = interval_rates samples in if rates = [] then None else Some (median rates))"

record totals =
  tt_processed :: nat
  tt_success :: nat
  tt_failed :: nat
  tt_skipped :: nat
  tt_aggregate :: "rat option"

definition load_totals :: "stats list \<Rightarrow> rat \<Rightarrow> totals" where
  "load_totals results wall =
     (let total = sum_list (map st_processed_count results) in
      \<lparr> tt_processed = total, tt_success = sum_list (map st_success_count results),
        tt_failed = sum_list (map st_failure_count results), tt_skipped = sum_list (map st_skipped_count results),
        tt_aggregate = (if 0 < wall then Some (of_nat total / wall * 60) else None) \<rparr>)"

text \<open>\<open>raise_for_status\<close> accepts the 2xx replies; \<open>gather\<close> raises what one of its coroutines raised.\<close>

definition submit_reply :: "nat \<Rightarrow> uuid \<Rightarrow> load_error + uuid" where
  "submit_reply status action_id = (if 200 \<le> status \<and> status < 300 then Inr action_id else Inl (HTTPStatusError status))"

fun gather :: "('e + 'a) list \<Rightarrow> 'e + 'a list" where
  "gather [] = Inr []"
| "gather (r # rs) = (case r of Inl e \<Rightarrow> Inl e | Inr a \<Rightarrow> (case gather rs of Inl e \<Rightarrow> Inl e | Inr as \<Rightarrow> Inr (a # as)))"

definition load_main ::
  "nat \<Rightarrow> (nat \<times> uuid) list \<Rightarrow> (uuid \<Rightarrow> load_error + stats \<times> (rat \<times> nat) list) \<Rightarrow> rat \<Rightarrow> load_error + totals \<times> rat option list" where
  "load_main ready submissions waited wall =
     (if ready \<noteq> 200 then Inl NotReady
      else case gather (map (\<lambda>(status, i). submit_reply status i) submissions) of
          Inl e \<Rightarrow> Inl e
        | Inr ids \<Rightarrow> (case gather (map waited ids) of
              Inl e \<Rightarrow> Inl e
            | Inr results \<Rightarrow> Inr (load_totals (map fst results) wall, map (steady_state_rate \<circ> snd) results)))"

lemma gather_Inr: "gather rs = Inr as \<Longrightarrow> rs = map Inr as"
  by (induction rs arbitrary: as) (auto split: sum.splits)

text \<open>A report is printed only if the API was ready and every submission was accepted and waited for.\<close>

lemma load_main_complete:
  assumes "load_main ready submissions waited wall = Inr (t, rates)"
  shows "ready = 200 \<and> list_all (\<lambda>(status, i). 200 \<le> status \<and> status < 300 \<and> (\<exists>r. waited i = Inr r)) submissions \<and>
    length rates = length submissions"
proof -
  from assms obtain ids results where r: "ready = 200" "map (\<lambda>(status, i). submit_reply status i) submissions = map Inr ids"
    "map waited ids = map Inr results" "rates = map (steady_state_rate \<circ> snd) results"
    by (auto simp: load_main_def split: if_splits sum.splits dest: gather_Inr)
  have "length submissions = length ids" "length ids = length results"
    using r(2,3) by (metis length_map)+
  moreover have "list_all (\<lambda>(status, i). 200 \<le> status \<and> status < 300 \<and> (\<exists>r. waited i = Inr r)) submissions"
    unfolding list_all_length
  proof (intro allI impI)
    fix n assume n: "n < length submissions"
    obtain status i where si: "submissions ! n = (status, i)" by force
    have "submit_reply status i = Inr (ids ! n)" "waited (ids ! n) = Inr (results ! n)"
      using arg_cong [OF r(2), of "\<lambda>xs. xs ! n"] arg_cong [OF r(3), of "\<lambda>xs. xs ! n"] n calculation si by simp_all
    then show "case submissions ! n of (status, i) \<Rightarrow> 200 \<le> status \<and> status < 300 \<and> (\<exists>r. waited i = Inr r)"
      by (auto simp: si submit_reply_def split: if_splits)
  qed
  ultimately show ?thesis using r(1,4) by simp
qed

section \<open>The submission is valid\<close>

lemma load_updates_validate:
  assumes "ent \<in> {contact_entity, company_entity}" and "faithful_pydantic P" and "pd_strip P status = status"
    and "1 \<le> length status" "length status \<le> 50"
  shows "validate_updates P ent [(''status'', PStr status)] = Inr [(''status'', PStr status)]"
  using assms by (auto simp: validate_updates_def contact_entity_def company_entity_def validate_update_field_def
      faithful_pydantic_def Let_def)

lemma shipped_dedup_fields:
  "ent \<in> {contact_entity, company_entity} \<Longrightarrow> f \<in> set (ent_dedup_fields ent) \<Longrightarrow> f \<noteq> [] \<and> f \<in> fst ` set (ent_updatable_fields ent)"
  by (auto simp: contact_entity_def company_entity_def)

lemma shipped_entity: "ent \<in> {contact_entity, company_entity} \<Longrightarrow> get_entity shipped_entities (ent_name ent) = Inr ent"
  by (elim insertE) (simp_all add: get_entity_def shipped_entities_def contact_entity_def company_entity_def)

lemma shipped_update: "get_action shipped_actions ''update'' (Some n) = Inr update_handler"
  by (simp add: get_action_def shipped_actions_def supports_def update_handler_def)

lemma load_submission_validates:
  assumes "ent \<in> {contact_entity, company_entity}" and "e_entities E = shipped_entities" and "e_actions E = shipped_actions"
    and "faithful_pydantic (e_pydantic E)" and "pd_strip (e_pydantic E) status = status"
    and "1 \<le> length status" "length status \<le> 50" and "pred_option (\<lambda>f. f \<in> set (ent_dedup_fields ent)) dedup"
  shows "validate_request E now (load_submission acc (ent_name ent) status bs dedup) = Inr (ent, update_handler,
    BulkUpdateConfig \<lparr> uc_updates = [(''status'', PStr status)], uc_filter = Some [], uc_entity_ids = None, uc_deduplicate_by = dedup \<rparr>)"
proof -
  have p: "parse_update_config (e_pydantic E) (rq_payload (load_submission acc (ent_name ent) status bs dedup)) = Inr
    (BulkUpdateConfig \<lparr> uc_updates = [(''status'', PStr status)], uc_filter = Some [], uc_entity_ids = None, uc_deduplicate_by = dedup \<rparr>)"
    using assms(4,8) shipped_dedup_fields [OF assms(1)]
    by (cases dedup) (auto simp: load_submission_def parse_update_config_def extra_forbid_def field_dict_opt_def field_uuids_opt_def
        field_str_opt_def require_a_target_set_def faithful_pydantic_def)
  have "update_validate_config (e_pydantic E) ent (rq_payload (load_submission acc (ent_name ent) status bs dedup)) = Inr
    (BulkUpdateConfig \<lparr> uc_updates = [(''status'', PStr status)], uc_filter = Some [], uc_entity_ids = None, uc_deduplicate_by = dedup \<rparr>)"
    unfolding update_validate_config_def p
    using assms(8) shipped_dedup_fields [OF assms(1)] load_updates_validate [OF assms(1,4-7)]
    by (cases dedup) (auto simp: validate_filter_def)
  then show ?thesis
    by (simp add: validate_request_def load_submission_def assms(2,3) shipped_entity [OF assms(1)] shipped_update update_handler_def)
qed

section \<open>The measured rate\<close>

lemma median_member_bounds:
  assumes "xs \<noteq> []"
  shows "\<exists>x \<in> set xs. \<exists>y \<in> set xs. x \<le> median xs \<and> median xs \<le> y"
proof -
  let ?s = "sort xs" and ?n = "length xs"
  have hi: "?s ! (?n div 2) \<in> set xs" using assms nth_mem [of "?n div 2" ?s] by simp
  have lo: "?s ! (?n div 2 - 1) \<in> set xs" using assms nth_mem [of "?n div 2 - 1" ?s] by (simp add: less_imp_diff_less)
  have "?s ! (?n div 2 - 1) \<le> ?s ! (?n div 2)" using assms by (intro sorted_nth_mono) (auto intro: div_less_dividend)
  then have "?s ! (?n div 2 - 1) \<le> median xs \<and> median xs \<le> ?s ! (?n div 2)" by (simp add: median_def Let_def)
  with lo hi show ?thesis by blast
qed

lemma steady_state_rate_bounds:
  assumes "steady_state_rate samples = Some r"
  shows "\<exists>x \<in> set (interval_rates samples). \<exists>y \<in> set (interval_rates samples). x \<le> r \<and> r \<le> y"
  using assms median_member_bounds by (auto simp: steady_state_rate_def Let_def split: if_splits)

lemma sorted_pairwise:
  assumes "sorted (map snd xs)" and "(a, b) \<in> set (pairwise xs)"
  shows "snd a \<le> snd b"
  using assms by (auto simp: pairwise_def in_set_zip nth_tl sorted_iff_nth_Suc)

lemma sorted_inner: "sorted (map snd xs) \<Longrightarrow> sorted (map snd (butlast (tl xs)))"
  by (cases xs) (auto simp: butlast_conv_take take_map [symmetric] sorted_wrt_take)

lemma interval_rates_nonneg:
  assumes "sorted (map snd samples)" and "x \<in> set (interval_rates samples)"
  shows "0 \<le> x"
  using assms(2) sorted_pairwise [OF sorted_inner [OF assms(1)]]
  by (auto simp: interval_rates_def rate_between_def intro!: divide_nonneg_pos)

section \<open>Polling a running platform\<close>

text \<open>Each poll is answered in some later state of the platform.\<close>

inductive polled :: "env \<Rightarrow> uuid \<Rightarrow> sys \<Rightarrow> poll list \<Rightarrow> bool" for E aid where
  none: "polled E aid s []"
| more: "(step E)\<^sup>*\<^sup>* s s' \<Longrightarrow> get_stats (sy_db s') aid now = Inr (po_stats p) \<Longrightarrow> polled E aid s' ps \<Longrightarrow> polled E aid s (p # ps)"

inductive_cases polled_ConsE: "polled E aid s (p # ps)"

lemma reachable_steps: "(step E)\<^sup>*\<^sup>* s s' \<Longrightarrow> reachable E s \<Longrightarrow> reachable E s'"
  by (induction rule: rtranclp_induct) (auto intro: reachable.more)

lemma stats_view:
  "get_stats (sy_db s) aid now = Inr st \<Longrightarrow> \<exists>v. actions_of s aid = Some v \<and> vw_processed v = st_processed_count st"
  by (auto simp: get_stats_def get_bulk_action_def rbind_def actions_of_def views_def view_of_def split: option.splits sum.splits)

lemma polled_counts:
  assumes "polled E aid s ps" and "reachable E s" and "e_actions E = shipped_actions" and "actions_of s aid = Some v"
  shows "sorted (vw_processed v # map (st_processed_count \<circ> po_stats) ps)"
  using assms
proof (induction arbitrary: v rule: polled.induct)
  case (more s s' now p ps)
  obtain w where w: "actions_of s' aid = Some w" "ahead v w"
    using progress_never_recedes [OF more.prems(1,2) more.hyps(1) more.prems(3)] by blast
  then have "vw_processed w = st_processed_count (po_stats p)" using stats_view [OF more.hyps(2)] by auto
  with more.IH [OF reachable_steps [OF more.hyps(1) more.prems(1)] more.prems(2) w(1)] w(2)
  show ?case by (auto simp: ahead_def)
qed simp

lemma polled_sorted:
  assumes "polled E aid s ps" and "reachable E s" and "e_actions E = shipped_actions"
  shows "sorted (map (st_processed_count \<circ> po_stats) ps)"
proof (cases ps)
  case (Cons p qs)
  from assms(1) obtain s' now where s': "(step E)\<^sup>*\<^sup>* s s'" "get_stats (sy_db s') aid now = Inr (po_stats p)" "polled E aid s' qs"
    unfolding Cons by (rule polled_ConsE)
  from stats_view [OF s'(2)] obtain v where "actions_of s' aid = Some v" "vw_processed v = st_processed_count (po_stats p)" by blast
  with polled_counts [OF s'(3) reachable_steps [OF s'(1) assms(2)] assms(3)] Cons show ?thesis by auto
qed simp

lemma poll_loop_returns:
  "poll_loop deadline ps samples = Some (Inr (st, samples')) \<Longrightarrow>
   \<exists>k < length ps. samples' = samples @ map (\<lambda>p. (po_sampled p, st_processed_count (po_stats p))) (take (Suc k) ps) \<and>
     st = po_stats (ps ! k) \<and> st_status st \<in> set done_statuses \<and> po_check (ps ! k) < deadline \<and>
     (\<forall>j < k. st_status (po_stats (ps ! j)) \<notin> set done_statuses)"
proof (induction ps arbitrary: samples)
  case (Cons p ps)
  show ?case
  proof (cases "st_status (po_stats p) \<in> set done_statuses")
    case True
    with Cons.prems show ?thesis by (intro exI [of _ 0]) (auto simp: Let_def split: if_splits)
  next
    case False
    with Cons.prems have "poll_loop deadline ps (samples @ [(po_sampled p, st_processed_count (po_stats p))]) = Some (Inr (st, samples'))"
      by (auto simp: Let_def split: if_splits)
    from Cons.IH [OF this] obtain k where "k < length ps" "st = po_stats (ps ! k)" "st_status st \<in> set done_statuses"
      "po_check (ps ! k) < deadline" "\<forall>j < k. st_status (po_stats (ps ! j)) \<notin> set done_statuses"
      "samples' = samples @ map (\<lambda>p. (po_sampled p, st_processed_count (po_stats p))) (p # take (Suc k) ps)" by auto
    with False show ?thesis by (intro exI [of _ "Suc k"]) (auto simp: nth_Cons split: nat.splits)
  qed
qed simp

lemma poll_loop_decides:
  "p \<in> set ps \<Longrightarrow> deadline \<le> po_check p \<or> st_status (po_stats p) \<in> set done_statuses \<Longrightarrow> poll_loop deadline ps samples \<noteq> None"
  by (induction ps arbitrary: samples) (auto simp: Let_def)

text \<open>
  (C32) What the load test measures. It polls the stats of an action while the platform runs, in any
  interleaving. If it returns, the action was terminal at its last poll and at no earlier one, there is one
  sample for each poll, the sampled counts never recede, and the steady-state rate is not negative and
  lies between the lowest and the highest rate of the intervals it was taken from.
\<close>

theorem load_test_measures:
  assumes "reachable E s" and "e_actions E = shipped_actions" and "polled E aid s ps"
    and "wait_for start timeout ps = Some (Inr (st, samples))" and "steady_state_rate samples = Some r"
  shows "\<exists>k < length ps. st = po_stats (ps ! k) \<and> st_status st \<in> set done_statuses \<and>
    (\<forall>j < k. st_status (po_stats (ps ! j)) \<notin> set done_statuses) \<and> length samples = Suc k \<and>
    snd (last samples) = st_processed_count st \<and> sorted (map snd samples) \<and> 0 \<le> r \<and>
    (\<exists>x \<in> set (interval_rates samples). \<exists>y \<in> set (interval_rates samples). x \<le> r \<and> r \<le> y)"
proof -
  from poll_loop_returns [OF assms(4) [unfolded wait_for_def]] obtain k where k: "k < length ps"
    "samples = map (\<lambda>p. (po_sampled p, st_processed_count (po_stats p))) (take (Suc k) ps)" "st = po_stats (ps ! k)"
    "st_status st \<in> set done_statuses" "\<forall>j < k. st_status (po_stats (ps ! j)) \<notin> set done_statuses" by auto
  have "map snd samples = take (Suc k) (map (st_processed_count \<circ> po_stats) ps)" by (simp add: k(2) take_map)
  then have sorted: "sorted (map snd samples)" using sorted_wrt_take [OF polled_sorted [OF assms(3,1,2)]] by simp
  from steady_state_rate_bounds [OF assms(5)] obtain x y where b: "x \<in> set (interval_rates samples)"
    "y \<in> set (interval_rates samples)" "x \<le> r" "r \<le> y" by blast
  have "0 \<le> r" using interval_rates_nonneg [OF sorted b(1)] b(3) by simp
  moreover have "length samples = Suc k" "snd (last samples) = st_processed_count st"
    using k(1) by (simp_all add: k(2,3) last_map take_Suc_conv_app_nth)
  ultimately show ?thesis using k sorted b by blast
qed

lemma example_steps:
  "(step example_env)\<^sup>*\<^sup>* (example_state QUEUED R [])
     ((example_state QUEUED R [])\<lparr> sy_db := fst (cancel_bulk_action 500 10 (sy_db (example_state QUEUED R []))) \<rparr>)"
  by (rule r_into_rtranclp) (rule step.cancel)

definition example_poll :: "rat \<Rightarrow> sys \<Rightarrow> poll" where
  "example_poll t s = \<lparr> po_check = t, po_stats = projr (get_stats (sy_db s) 500 20), po_sampled = t \<rparr>"

lemma polled_example:
  "(step E)\<^sup>*\<^sup>* s s' \<Longrightarrow> get_stats (sy_db s') 500 20 = Inr (projr (get_stats (sy_db s') 500 20)) \<Longrightarrow> polled E 500 s' ps \<Longrightarrow>
   polled E 500 s (example_poll t s' # ps)"
  by (rule polled.more [where now = 20]) (simp_all add: example_poll_def)

theorem load_test_measures_witness:
  "\<exists>s ps st samples. reachable example_env s \<and> polled example_env 500 s ps \<and> length ps = 4 \<and>
     wait_for 0 900 ps = Some (Inr (st, samples)) \<and> steady_state_rate samples = Some 0 \<and> sorted (map snd samples)"
proof -
  obtain R where r: "reachable example_env (example_state QUEUED R [])" using example_committed by blast
  let ?s = "example_state QUEUED R []"
  let ?s' = "?s\<lparr> sy_db := fst (cancel_bulk_action 500 10 (sy_db ?s)) \<rparr>"
  let ?ps = "[example_poll 0 ?s, example_poll 1 ?s, example_poll 2 ?s, example_poll 3 ?s']"
  have g: "get_stats (sy_db ?s) 500 20 = Inr (projr (get_stats (sy_db ?s) 500 20))"
    and q: "st_status (projr (get_stats (sy_db ?s) 500 20)) = ''queued''" "st_processed_count (projr (get_stats (sy_db ?s) 500 20)) = 0"
    by (simp_all add: get_stats_def get_bulk_action_def load_action_def submitted_action_def new_action_def)
  have "load_action (sy_db ?s') 500 = Some (submitted_action\<lparr> ba_status := CANCELLED, ba_finished_at := Some 10 \<rparr>)"
    using example_cancel [of R "[]"] by (simp add: load_action_def)
  then have g': "get_stats (sy_db ?s') 500 20 = Inr (projr (get_stats (sy_db ?s') 500 20))"
    and q': "st_status (projr (get_stats (sy_db ?s') 500 20)) = ''cancelled''" "st_processed_count (projr (get_stats (sy_db ?s') 500 20)) = 0"
    by (simp_all add: get_stats_def get_bulk_action_def submitted_action_def new_action_def)
  have p: "polled example_env 500 ?s ?ps"
    by (rule polled_example [OF rtranclp.rtrancl_refl g], rule polled_example [OF rtranclp.rtrancl_refl g],
        rule polled_example [OF rtranclp.rtrancl_refl g], rule polled_example [OF example_steps g'], rule polled.none)
  have w: "wait_for 0 900 ?ps = Some (Inr (po_stats (example_poll 3 ?s'), [(0, 0), (1, 0), (2, 0), (3, 0)]))"
    using q q' by (simp add: wait_for_def example_poll_def done_statuses_def Let_def)
  have m: "steady_state_rate [(0, 0), (1, 0), (2, 0), (3, 0)] = Some 0" by code_simp
  have "e_actions example_env = shipped_actions" by (simp add: example_env_def)
  from load_test_measures [OF r this p w m] r p w m show ?thesis by (intro exI [of _ ?s] exI [of _ ?ps]) auto
qed

end
