(* ===== verification/CommandLine.thy ===== *)
theory CommandLine
  imports PyValue
begin

text \<open>
  The command lines of the two scripts (\<open>scripts/load_test.py\<close>, \<open>scripts/seed.py\<close>): the options they declare and how
  the standard library's \<open>argparse\<close> reads an argument list against them, with exact names, unique prefixes and
  \<open>--name=value\<close>. How a text is read as a number is an argument; the separator \<open>--\<close> is left out.
\<close>

section \<open>Declared options\<close>

datatype arg_type = StrArg | IntArg | FloatArg

datatype argval = ANone | AStr string | AInt int | AFloat rat

record option_spec =
  op_name :: string
  op_type :: arg_type
  op_default :: argval
  op_required :: bool

definition add_argument :: "string \<Rightarrow> arg_type \<Rightarrow> argval \<Rightarrow> option_spec" where
  "add_argument name ty d = \<lparr> op_name = name, op_type = ty, op_default = d, op_required = False \<rparr>"

definition load_test_options :: "option_spec list" where
  "load_test_options =
     [add_argument ''--base-url'' StrArg (AStr ''http://localhost:8000''),
      (add_argument ''--account-id'' StrArg ANone)\<lparr> op_required := True \<rparr>,
      add_argument ''--entity'' StrArg (AStr ''contact''),
      add_argument ''--batch-size'' IntArg (AInt 1000),
      add_argument ''--concurrent'' IntArg (AInt 1),
      add_argument ''--deduplicate-by'' StrArg ANone,
      add_argument ''--timeout'' FloatArg (AFloat 900)]"

definition seed_options :: "option_spec list" where
  "seed_options =
     [add_argument ''--entity'' StrArg (AStr ''contact''),
      add_argument ''--count'' IntArg (AInt 10000),
      add_argument ''--duplicate-ratio'' FloatArg (AFloat 0),
      add_argument ''--account-id'' StrArg ANone,
      add_argument ''--account-name'' StrArg (AStr ''Demo Account'')]"

section \<open>Reading an argument list\<close>

datatype token = Opt option_spec "string option" | Help | Unknown | Ambiguous | Word

definition is_prefix :: "string \<Rightarrow> string \<Rightarrow> bool" where
  "is_prefix p s \<longleftrightarrow> take (length p) s = p"

text \<open>A negative number is a value, not an option.\<close>

definition negative_number :: "string \<Rightarrow> bool" where
  "negative_number s \<longleftrightarrow>
     (let r = tl s; digit = (\<lambda>c. 48 \<le> (of_char c :: nat) \<and> (of_char c :: nat) \<le> 57);
          rest = dropWhile digit r
      in r \<noteq> [] \<and> (rest = [] \<or> hd rest = CHR ''.'' \<and> tl rest \<noteq> [] \<and> list_all digit (tl rest)))"

definition split_equals :: "string \<Rightarrow> string \<times> string option" where
  "split_equals s =
     (let a = takeWhile (\<lambda>c. c \<noteq> CHR ''='') s
      in (a, if length a < length s then Some (drop (Suc (length a)) s) else None))"

definition all_names :: "option_spec list \<Rightarrow> string list" where
  "all_names opts = ''--help'' # map op_name opts"

definition token_named :: "option_spec list \<Rightarrow> string \<Rightarrow> string option \<Rightarrow> token" where
  "token_named opts name v = (case find (\<lambda>x. op_name x = name) opts of None \<Rightarrow> Help | Some x \<Rightarrow> Opt x v)"

definition classify :: "option_spec list \<Rightarrow> string \<Rightarrow> token" where
  "classify opts arg =
     (if arg = [] \<or> hd arg \<noteq> CHR ''-'' \<or> arg = ''-'' then Word
      else if arg = ''-h'' then Help
      else if arg \<in> set (all_names opts) then token_named opts arg None
      else
        let (name, v) = split_equals arg;
            hits = filter (is_prefix name) (all_names opts)
        in if name \<in> set (all_names opts) then token_named opts name v
           else if is_prefix ''--'' arg \<and> length hits = 1 then token_named opts (hd hits) v
           else if is_prefix ''--'' arg \<and> 1 < length hits then Ambiguous
           else if negative_number arg then Word
           else if CHR '' '' \<in> set arg then Word
           else Unknown)"

datatype parsed = Namespace "(string \<times> argval) list" | SystemExit nat

type_synonym conv = "arg_type \<Rightarrow> string \<Rightarrow> argval option"

text \<open>Left to right. A word with no option to take it and an unknown option are refused at the end, like a
  missing required option; \<open>--help\<close> ends at once. \<open>ok\<close> says that nothing was left over so far.\<close>

fun parse_from :: "conv \<Rightarrow> option_spec list \<Rightarrow> string list \<Rightarrow> (string \<times> argval) list \<Rightarrow> bool \<Rightarrow> parsed" where
  "parse_from conv opts [] seen ok =
     (if ok \<and> list_all (\<lambda>x. op_required x \<longrightarrow> op_name x \<in> fst ` set seen) opts
      then Namespace (map (\<lambda>x. (op_name x, case map_of seen (op_name x) of None \<Rightarrow> op_default x | Some v \<Rightarrow> v)) opts)
      else SystemExit 2)"
| "parse_from conv opts (arg # args) seen ok =
     (case classify opts arg of
        Word \<Rightarrow> parse_from conv opts args seen False
      | Unknown \<Rightarrow> parse_from conv opts args seen False
      | Ambiguous \<Rightarrow> SystemExit 2
      | Help \<Rightarrow> SystemExit 0
      | Opt opt (Some v) \<Rightarrow>
          (case conv (op_type opt) v of
             None \<Rightarrow> SystemExit 2
           | Some y \<Rightarrow> parse_from conv opts args ((op_name opt, y) # seen) ok)
      | Opt opt None \<Rightarrow>
          (case args of
             [] \<Rightarrow> SystemExit 2
           | v # rest \<Rightarrow>
               if classify opts v \<noteq> Word then SystemExit 2
               else case conv (op_type opt) v of
                   None \<Rightarrow> SystemExit 2
                 | Some y \<Rightarrow> parse_from conv opts rest ((op_name opt, y) # seen) ok))"

definition parse_args :: "conv \<Rightarrow> option_spec list \<Rightarrow> string list \<Rightarrow> parsed" where
  "parse_args conv opts args =
     (if list_ex (\<lambda>a. classify opts a = Ambiguous) args then SystemExit 2
      else parse_from conv opts args [] True)"

section \<open>What the scripts accept\<close>

lemma word_not_option: "v \<noteq> [] \<Longrightarrow> hd v \<noteq> CHR ''-'' \<Longrightarrow> classify opts v = Word"
  by (simp add: classify_def)

text \<open>Once something is left over, no continuation is accepted.\<close>

lemma leftover_refused: "parse_from conv opts args seen False \<noteq> Namespace ns"
  by (induction conv opts args seen "False" rule: parse_from.induct)
    (auto split: token.splits option.splits list.splits)

text \<open>
  The usage line of the load test's own documentation is refused: there is no option \<open>--count\<close>, and it
  abbreviates none. The line the seeding script prints for the next step is accepted, with the defaults.
\<close>

lemma load_test_tokens:
  "classify load_test_options ''--account-id'' = Opt ((add_argument ''--account-id'' StrArg ANone)\<lparr> op_required := True \<rparr>) None"
  "classify load_test_options ''--count'' = Unknown"
  "classify load_test_options ''200000'' = Word"
  by code_simp+

lemma documented_usage_refused:
  assumes "x \<noteq> []" and "hd x \<noteq> CHR ''-''"
  shows "parse_args conv load_test_options [''--account-id'', x, ''--count'', ''200000''] = SystemExit 2"
  using word_not_option [OF assms, of load_test_options]
  by (simp add: parse_args_def load_test_tokens split: option.splits)

lemma uuid_str_word: "uuid_str u \<noteq> [] \<and> hd (uuid_str u) \<noteq> CHR ''-''"
proof -
  have "hex_char d \<noteq> CHR ''-''" if "d < 16" for d
  proof
    assume "hex_char d = CHR ''-''"
    moreover have "code CHR ''-'' = 45" by code_simp
    ultimately have "code (hex_char d) = 45" by simp
    with that show False by (auto simp: hex_char_def split: if_splits)
  qed
  moreover obtain d ds where "uuid_digits u = d # ds"
    by (cases "uuid_digits u") (simp_all add: uuid_digits_def)
  moreover have "\<forall>d \<in> set (uuid_digits u). d < 16" by (auto simp: uuid_digits_def)
  ultimately show ?thesis by (simp add: uuid_str_def Let_def)
qed

lemma printed_hint_accepted:
  assumes "\<And>s. conv StrArg s = Some (AStr s)"
  shows "\<exists>ns. parse_args conv load_test_options [''--account-id'', uuid_str u] = Namespace ns \<and>
    map_of ns ''--account-id'' = Some (AStr (uuid_str u)) \<and> map_of ns ''--batch-size'' = Some (AInt 1000)"
  using word_not_option [of "uuid_str u" load_test_options] uuid_str_word [of u] assms
  by (simp add: parse_args_def load_test_tokens) (simp add: load_test_options_def add_argument_def)

end
