(* ===== verification/Report.thy ===== *)
theory Report
  imports LoadTest Api CommandLine
begin

text \<open>
  What the scripts print: Python's number formats as they use them, the load test's progress line and final report, the
  seeding script's summary. Each printed string is one element of a list. Numbers are exact rationals where
  Python has floats; the clock readings are arguments.
\<close>

section \<open>Formats\<close>

text \<open>\<open>{n:,}\<close>: a comma before every third digit from the right.\<close>

fun group3 :: "string \<Rightarrow> string" where
  "group3 (a # b # c # d # ds) = a # b # c # CHR '','' # group3 (d # ds)"
| "group3 ds = ds"

definition commas :: "nat \<Rightarrow> string" where
  "commas n = rev (group3 (rev (nat_str n)))"

definition ljust :: "nat \<Rightarrow> string \<Rightarrow> string" where
  "ljust w s = s @ replicate (w - length s) CHR '' ''"

definition rjust :: "nat \<Rightarrow> string \<Rightarrow> string" where
  "rjust w s = replicate (w - length s) CHR '' '' @ s"

definition zeros :: "nat \<Rightarrow> string \<Rightarrow> string" where
  "zeros w s = replicate (w - length s) CHR ''0'' @ s"

text \<open>\<open>{x:.2f}\<close>, \<open>{x:.1f}\<close> and \<open>{x:,.0f}\<close> of a number that is not negative: the nearest decimal, ties to even.\<close>

definition fixed :: "nat \<Rightarrow> rat \<Rightarrow> string" where
  "fixed k x = (let n = nat (round_half_even (x * 10 ^ k))
     in nat_str (n div 10 ^ k) @ ''.'' @ zeros k (nat_str (n mod 10 ^ k)))"

definition rounded :: "rat \<Rightarrow> string" where
  "rounded x = commas (nat (round_half_even x))"

definition show_counts :: "(string \<times> nat) list \<Rightarrow> string" where
  "show_counts d = ''{'' @ join '', '' (map (\<lambda>(k, n). repr_str k @ '': '' @ nat_str n) d) @ ''}''"

section \<open>The load test\<close>

definition progress_line :: "stats \<Rightarrow> string" where
  "progress_line st = ''  '' @ ljust 22 (st_status st) @ '' '' @
     rjust 9 (commas (st_processed_count st)) @ ''/'' @ ljust 9 (commas (st_total_entities st)) @ '' '' @
     ''('' @ rjust 6 (fixed 2 (st_progress_percent st)) @ ''%)  '' @
     ''ok='' @ commas (st_success_count st) @ '' fail='' @ commas (st_failure_count st) @
     '' skip='' @ commas (st_skipped_count st)"

text \<open>The loop prints a line when it differs from the last one it printed.\<close>

fun print_changes :: "string \<Rightarrow> stats list \<Rightarrow> string list" where
  "print_changes last_line [] = []"
| "print_changes last_line (st # sts) =
     (let line = progress_line st in
      if line \<noteq> last_line then line # print_changes line sts else print_changes last_line sts)"

definition submit_lines :: "int \<Rightarrow> string \<Rightarrow> int \<Rightarrow> uuid list \<Rightarrow> string list" where
  "submit_lines concurrent entity batch_size action_ids =
     [''Submitting '' @ int_str concurrent @ '' bulk action(s) on '' @ CHR 0x27 # entity @ CHR 0x27 #
        '' with batch_size='' @ int_str batch_size @ ''...''] @
     map (\<lambda>action_id. ''  queued '' @ uuid_str action_id) action_ids @ [[]]"

definition rule_line :: string where
  "rule_line = replicate 68 CHR ''=''"

definition result_lines :: "stats \<Rightarrow> rat option \<Rightarrow> string list" where
  "result_lines st steady =
     [newline @ ''  action '' @ uuid_str (st_id st),
      ''    status            : '' @ st_status st,
      ''    batches           : '' @ nat_str (st_completed_batches st) @ ''/'' @ nat_str (st_total_batches st),
      ''    server duration   : '' @ fixed 2 (case st_duration_seconds st of None \<Rightarrow> 0 | Some x \<Rightarrow> x) @ ''s''] @
     (case st_entities_per_minute st of
        None \<Rightarrow> []
      | Some x \<Rightarrow> if x = 0 then [] else [''    entities/minute   : '' @ rounded x]) @
     (case steady of
        None \<Rightarrow> []
      | Some x \<Rightarrow> if x = 0 then [] else [''    steady-state rate : '' @ rounded x @ '' entities/minute'']) @
     (if st_failure_breakdown st = [] then [] else [''    failures          : '' @ show_counts (st_failure_breakdown st)]) @
     (if st_skip_breakdown st = [] then [] else [''    skips             : '' @ show_counts (st_skip_breakdown st)])"

definition load_report :: "(stats \<times> (rat \<times> nat) list) list \<Rightarrow> rat \<Rightarrow> string list" where
  "load_report results wall =
     (let t = load_totals (map fst results) wall in
      [newline @ rule_line, ''LOAD TEST RESULTS'', rule_line,
       ''  actions submitted   : '' @ nat_str (length results),
       ''  entities processed  : '' @ commas (tt_processed t),
       ''    success           : '' @ commas (tt_success t),
       ''    failed            : '' @ commas (tt_failed t),
       ''    skipped           : '' @ commas (tt_skipped t),
       ''  wall clock          : '' @ fixed 1 wall @ ''s  (includes submission and polling)''] @
      concat (map (\<lambda>(st, samples). result_lines st (steady_state_rate samples)) results) @
      (case tt_aggregate t of
         None \<Rightarrow> []
       | Some x \<Rightarrow> [newline @ ''  aggregate           : '' @ rounded x @ '' entities/minute'']) @
      [rule_line])"

section \<open>The seeding script\<close>

definition seed_report :: "nat \<Rightarrow> string \<Rightarrow> rat \<Rightarrow> uuid \<Rightarrow> string list" where
  "seed_report inserted entity_name elapsed account_id =
     [newline @ ''Seeded '' @ commas inserted @ '' '' @ entity_name @ '' rows in '' @ fixed 1 elapsed @ ''s ('' @
        rounded (of_nat inserted / max elapsed (1 / 1000)) @ '' rows/s)'',
      ''Account id: '' @ uuid_str account_id,
      newline @ ''Next:'' @ newline @ ''  python scripts/load_test.py --account-id '' @ uuid_str account_id]"

section \<open>What is printed\<close>

lemma group3_digits: "CHR '','' \<notin> set ds \<Longrightarrow> filter (\<lambda>c. c \<noteq> CHR '','') (group3 ds) = ds"
  by (induction ds rule: group3.induct) auto

lemma digit_char_no_comma: "k < 10 \<Longrightarrow> digit_char k \<noteq> CHR '',''"
proof
  assume "k < 10" "digit_char k = CHR '',''"
  moreover have "code CHR '','' = 44" by code_simp
  ultimately have "code (digit_char k) = 44" by simp
  with \<open>k < 10\<close> show False by (simp add: digit_char_def)
qed

lemma nat_str_no_comma: "CHR '','' \<notin> set (nat_str n)"
proof (induction n rule: nat_str.induct)
  case (1 n)
  then show ?case
    using digit_char_no_comma [of n] digit_char_no_comma [of "n mod 10"] by (subst nat_str.simps) auto
qed

text \<open>Grouping adds commas only.\<close>

lemma commas_digits: "filter (\<lambda>c. c \<noteq> CHR '','') (commas n) = nat_str n"
proof -
  have "filter (\<lambda>c. c \<noteq> CHR '','') (commas n) = rev (filter (\<lambda>c. c \<noteq> CHR '','') (group3 (rev (nat_str n))))"
    by (simp add: commas_def rev_filter)
  also have "\<dots> = nat_str n" using group3_digits [of "rev (nat_str n)"] nat_str_no_comma by simp
  finally show ?thesis .
qed

text \<open>The progress lines printed are the polls with repetitions removed.\<close>

lemma print_changes_from: "last_line # print_changes last_line sts = remdups_adj (last_line # map progress_line sts)"
  by (induction sts arbitrary: last_line) (auto simp: Let_def)

lemma progress_line_nonempty: "progress_line st \<noteq> []"
  by (simp add: progress_line_def)

lemma print_changes_remdups: "print_changes [] sts = remdups_adj (map progress_line sts)"
proof (cases sts)
  case (Cons st rest)
  then have "[] # print_changes [] sts = [] # remdups_adj (map progress_line sts)"
    using print_changes_from [of "[]" sts] progress_line_nonempty [of st] by (simp del: print_changes.simps)
  then show ?thesis by simp
qed simp

section \<open>The totals add up\<close>

definition adds_up :: "view \<Rightarrow> bool" where
  "adds_up v \<longleftrightarrow> vw_processed v = vw_success v + vw_failure v + vw_skipped v"

lemma moves_add_up: "moves v w \<Longrightarrow> adds_up v \<Longrightarrow> adds_up w"
  by (induction rule: moves.induct) (simp_all add: adds_up_def)

lemma spec_adds_up: "spec m m' \<Longrightarrow> pred_option adds_up (m aid) \<Longrightarrow> pred_option adds_up (m' aid)"
  by (induction rule: spec.induct) (auto simp: adds_up_def fresh_view_def dest: moves_add_up)

lemma outcomes_add_up:
  assumes "reachable E s" and "e_actions E = shipped_actions"
  shows "pred_option adds_up (actions_of s aid)"
proof -
  obtain s0 where s0: "initial s0" and run: "(step E)\<^sup>*\<^sup>* s0 s" using reachable_run [OF assms(1)] by blast
  have "sys_ok s0 \<and> e_actions E = shipped_actions"
    using reachable_ok [OF reachable.start [OF s0] assms(2)] assms(2) by simp
  then show ?thesis
    by (rule platform.carried_over [where P = "\<lambda>m. pred_option adds_up (m aid)", rotated 2])
      (use run spec_adds_up in \<open>auto simp: initial_views [OF s0]\<close>)
qed

lemma stats_add_up:
  assumes "reachable E s" and "e_actions E = shipped_actions" and "get_stats (sy_db s) aid now = Inr st"
  shows "st_processed_count st = st_success_count st + st_failure_count st + st_skipped_count st"
  using outcomes_add_up [OF assms(1,2), of aid] assms(3)
  by (auto simp: get_stats_def get_bulk_action_def rbind_def actions_of_def views_def view_of_def adds_up_def
      split: option.splits sum.splits)

text \<open>A report over actions of a running platform: processed is success, failed and skipped together.\<close>

lemma load_totals_add_up:
  assumes "list_all (\<lambda>st. \<exists>s aid now. reachable E s \<and> get_stats (sy_db s) aid now = Inr st) sts"
    and "e_actions E = shipped_actions"
  shows "tt_processed (load_totals sts wall) = tt_success (load_totals sts wall) + tt_failed (load_totals sts wall) +
    tt_skipped (load_totals sts wall)"
proof -
  have "list_all (\<lambda>st. st_processed_count st = st_success_count st + st_failure_count st + st_skipped_count st) sts"
    using assms(1) stats_add_up [OF _ assms(2)] by (auto simp: list_all_iff)
  then show ?thesis by (induction sts) (auto simp: load_totals_def Let_def)
qed

end
