(* ===== verification/Spec2Isabelle.thy ===== *)
theory Spec2Isabelle
  imports Schema Seeding Hazards Storage Migration Routes Closing Throughput Retries Report
begin

text \<open>
  A verification of the bulk action platform: a service that applies one action (update or delete) to
  many CRM rows of one account, in batches, by background workers.

  \<^bold>\<open>The program.\<close> A client posts a bulk action (\<open>app/api/routes\<close>, \<open>app/services/bulk_action_service.py\<close>).
  The service validates it against the registered entity and handler, charges a token of the submission
  limit in Redis, stores an action row and enqueues a plan job. The planner (\<open>plan_bulk_action\<close> in
  \<open>app/workers/tasks.py\<close>) walks the target set, writes batch rows and enqueues one job per batch. A batch
  job (\<open>process_batch\<close>) takes as many tokens of the account's rate limit as the batch has entities, or
  defers itself; then it loads the rows, drops duplicates, runs the handler, writes one audit-log row
  per entity and moves the counters, all in one transaction; a second transaction closes the action when
  every batch has reported, and progress is published to the subscribers of an event stream. A job that
  raises is left to the queue to run again; on its last try the batch is recorded as failed.

  \<^bold>\<open>The theories\<close>, in the order of the code's layers.

  \<^item> \<open>Prelude\<close>: table operations over lists of rows (guarded UPDATE, INSERT with ON CONFLICT DO NOTHING),
    chunking, sums over a table, errors as sums, the collections of frame facts.
  \<^item> \<open>PyValue\<close>: Python values, dicts, \<open>strip\<close>, \<open>lower\<close>, \<open>str\<close>. \<open>Enums\<close>: \<open>app/models/enums.py\<close>.
    \<open>Core\<close>: settings, exceptions and their problem responses, \<open>session_scope\<close> (\<open>app/core\<close>).
  \<^item> \<open>Models\<close>: one record per table of \<open>app/models\<close> and the database \<open>db\<close>, a record of lists of rows.
    \<open>Schema\<close>: the same tables as ORM metadata, their rendering under the naming convention, and the
    initial migration executed statement by statement.
  \<^item> \<open>RateLimiter\<close>: the Lua token bucket over exact rationals, with Redis as a map from keys to buckets.
  \<^item> \<open>Entities\<close>, \<open>Filters\<close>, \<open>Actions\<close>: descriptors and registries, filters compiled to predicates with SQL's
    three-valued meaning, and the two handlers with their UPDATE and DELETE statements (\<open>app/domain\<close>).
    The contracts of descriptors and handlers are the locales \<open>entity_contract\<close> and \<open>action_handler\<close>,
    each interpreted on the shipped ones; the limiter's is \<open>token_gate\<close>.
  \<^item> \<open>Batching\<close>, \<open>Dedup\<close>, \<open>Progress\<close>, \<open>BatchRunner\<close>: the services of the same names and \<open>logs.py\<close>. The keyset
    walk is a resumable generator, because other transactions run between its pages.
  \<^item> \<open>Tasks\<close>: both worker tasks as sequences of transactions, with every error path; the sub-steps of a
    transaction (\<open>plan_read\<close>, \<open>plan_open\<close>, \<open>execute_read\<close>, \<open>execute_work\<close>, \<dots>) are definitions of their own.
  \<^item> \<open>Service\<close>, \<open>Api\<close>, \<open>Seeding\<close>: submission, cancellation, listings, stats and log pages; the HTTP routes with
    their response models, the event stream, the probes and the request-id middleware; demo data.
  \<^item> \<open>Invariant\<close>: what the tables satisfy together (\<open>db_ok\<close>: keys, references, counters equal to log rows) and
    how each transaction changes them (\<open>evolves\<close>), through the locales \<open>status_update\<close> and \<open>batch_update\<close>,
    which are interpreted on the updates the code makes.
  \<^item> \<open>System\<close>: any number of workers, planners and clients at once. A task is suspended between the statements
    at which another transaction's commit can become visible; \<open>task_step\<close> is one such move, \<open>step\<close> one move of the
    system (a delivery, a task's move, a submission, a cancellation, a crash, an edit of CRM rows).
  \<^item> \<open>EndToEnd\<close>: planning followed by every batch job, in any order. \<open>Lifecycle\<close>: an abstract machine of one
    action's status and counters (\<open>moves\<close>, \<open>spec\<close>) and the proof that \<open>System\<close> refines it, through the locale
    \<open>simulation\<close>, interpreted on \<open>step\<close>. \<open>Hazards\<close>: runs in which deliveries or planning passes interfere.
  \<^item> \<open>Storage\<close>: what the control plane stores against the widths and CHECK constraints of its columns.
  \<^item> \<open>Process\<close>: one operating-system process: the remaining settings, log configuration, the lazily opened
    connections of \<open>app/core/db.py\<close> and \<open>app/core/redis.py\<close> as numbered handles, the hooks of \<open>app/main.py\<close> and
    \<open>app/workers/worker.py\<close>. The getters share the locale \<open>singleton\<close>, interpreted on the engine, the arq pool and
    the Redis client; the arq pool's getter has an \<open>await\<close> in the middle and is two steps.
  \<^item> \<open>Migration\<close>: the synchronous address and \<open>alembic/env.py\<close> over the revision of \<open>Schema\<close>, with the option
    parser of the standard library. \<open>Routes\<close>: the application of \<open>app/main.py\<close>, its routes in order and the registry
    endpoint. \<open>LoadTest\<close>: the client of \<open>scripts/load_test.py\<close>, polling a running \<open>System\<close>. \<open>CommandLine\<close>: the options of both
    scripts and the reading of an argument list against them. \<open>Report\<close>: the lines both scripts print.
  \<^item> \<open>Closing\<close>: which task of a running \<open>System\<close> owes an action its closing. \<open>Throughput\<close>: the rate-limit gate over
    the deliveries of all workers. \<open>Retries\<close>: one batch job over its tries, with the queue's decision to run a
    job again as a parameter.

  \<^bold>\<open>What is proved.\<close> Over all interleavings: the counters of an action agree with its audit log, keys and
  references hold, a terminal status is final but for one race of the planner, and the whole system is a
  refinement of a six-move lifecycle, so that counters never recede. For a single action:
  planning and running every batch closes it with every batch reported; an action that is due has a task that
  closes it, and loses it in three ways only. Over all workers, the batches let through the
  gate stay within the account's limit plus the refill. Under a queue that runs a raised job again, a job ends with its
  batch accounted for. Per component: a batch run reports
  every entity once, counts what it logs and touches only its own account; planning covers exactly the
  target set; at most one row per key is processed; the limiter admits at most the limit plus the refill;
  a raised attempt leaves no trace, an exhausted batch is accounted for, a redelivered one is ignored;
  submissions are all or nothing and resolve in every worker to what was validated; filters cannot
  leave the account; log pages are complete; stats add up; the migration equals the rendered models; the
  event stream relays in order and ends exactly with the action; seeding is all or nothing; stored texts fit
  their columns; connections are opened once and closed once; every route is reachable and the registry
  lists what resolves; migrating an empty database gives the models' tables; the load test's rate is
  within what it sampled. Where the code
  departs from what it intends, the departure is a theorem: a late planner never closes an action, a worker that
  dies before its closing transaction strands one, a queue that does not run a raised job again loses the batch, a
  cancellation can be lost to the planner, an early plan job is lost, an action can close without
  telling its subscribers, overlapping deliveries and a late fault count a batch twice, planning again loses
  entities of a changed table, a percent sign in the database address stops migrations, a lowered limit strands a batch, a null for a
  required field is accepted, an empty idempotency key conflicts, a range that has gained rows is processed in full and
  charged for its planned count, the load test refuses the usage line of its own documentation.

  \<^bold>\<open>Bounds and fuel.\<close> Only the option parser's interpolation has fuel, the ten levels of the standard
  library. The planner's loop and the seeding loop are functions with a
  termination proof: what is left of the target set or of the requested rows decreases; so do the tries of a job. A client's
  pagination is bounded by the number of matching rows. Identifiers are 128-bit words; counters are
  natural numbers (the columns are 32-bit integers; no run reaches that bound before the audit log has
  two thousand million rows). Token counts and percentages are exact rationals where Python has floats.

  \<^bold>\<open>Parameters.\<close> Pydantic's coercions, the database driver's binding of values, the queue's delivery order, the
  queue's choice of exceptions after which it runs a job again, the clock, fresh identifiers and random draws are arguments of the definitions; what the theorems need of
  them (a fresh identifier is fresh, a dumped value is read back) is a hypothesis with a witness.

  \<^bold>\<open>Not modelled.\<close> What third-party objects do inside: database and Redis connections, route matching (its order
  is a hypothesis), Alembic's choice of pending revisions, CORS, structured logging beyond its configuration.
  Of the scripts' command lines, the separator between options and words and the reading of a text as a number.
  Logger configuration from the ini file. The tests: they run the program and add no behaviour of their own.
  Row locks are represented by atomic statements; the isolation level is READ COMMITTED, so a task's
  reads and later writes are separate moves of \<open>System\<close>.
\<close>

section \<open>Properties that span components\<close>



end
